(* ===== verification/Prelude.thy ===== *)
theory Prelude
  imports Main "HOL-Library.Word"
begin

text \<open>
  Shared vocabulary of the development: the machine types of the SBI firmware
  (\<open>src/sbi/include/common.h\<close>), the byte-addressed physical memory of a RISC-V
  hart, the little-endian layout of multi-byte values in that memory, the
  board constants of \<open>src/sbi/include/mem.h\<close> and \<open>src/sbi/include/smp.h\<close>, and
  the generic lemmas on words, regions and lists that the component theories
  share.  The named collection \<open>mem_simps\<close> gathers the read-after-write and
  frame rules of byte memory; \<open>sbi_consts\<close> unfolds the board constants.
\<close>

unbundle bit_operations_syntax

section \<open>Machine types\<close>

type_synonym u8 = "8 word"
type_synonym u16 = "16 word"
type_synonym u32 = "32 word"
type_synonym u64 = "64 word"
type_synonym addr = "64 word"
type_synonym memory = "addr \<Rightarrow> u8"

named_theorems mem_simps "read-after-write and frame rules of byte memory"
named_theorems sbi_consts "board constants of the SBI headers"

section \<open>Board constants\<close>

definition CLINT_CTRL_ADDR :: addr where [sbi_consts]: "CLINT_CTRL_ADDR = 0x2000000"
definition UART0_ADDR :: addr where [sbi_consts]: "UART0_ADDR = 0x10010000"
definition SMP_ADDR :: addr where [sbi_consts]: "SMP_ADDR = 0x80100000"
definition SMP_SIZE :: nat where [sbi_consts]: "SMP_SIZE = 0x1000"

definition MAX_HARTS :: nat where [sbi_consts]: "MAX_HARTS = 5"
definition ZERO_HART :: nat where [sbi_consts]: "ZERO_HART = 0"

text \<open>\<open>BIT(nr)\<close> of \<open>common.h\<close> and the interrupt bits of \<open>riscv.h\<close> built from it.\<close>

definition BIT :: "nat \<Rightarrow> u64" where "BIT nr = push_bit nr 1"

definition IRQ_M_SOFT :: nat where [sbi_consts]: "IRQ_M_SOFT = 3"
definition MIP_MSIP :: u64 where [sbi_consts]: "MIP_MSIP = BIT IRQ_M_SOFT"
definition MSTATUS_MIE :: u64 where [sbi_consts]: "MSTATUS_MIE = 0x00000008"

section \<open>Little-endian layout\<close>

text \<open>
  RISC-V is little-endian: a store of an \<open>n\<close>-byte value writes its least
  significant byte at the lowest address.  \<open>le_bytes n v\<close> is the byte sequence
  a store of width \<open>n\<close> writes; \<open>le_word\<close> reassembles a load.
\<close>

definition le_bytes :: "nat \<Rightarrow> 'a::len word \<Rightarrow> u8 list" where
  "le_bytes n v = map (\<lambda>i. ucast (drop_bit (8 * i) v)) [0..<n]"

fun le_word :: "u8 list \<Rightarrow> 'a::len word" where
  "le_word [] = 0"
| "le_word (b # bs) = ucast b OR push_bit 8 (le_word bs)"

lemma le_word_replicate_0 [simp]: "le_word (replicate n 0) = 0"
  by (induction n) simp_all

lemma length_le_bytes [simp]: "length (le_bytes n v) = n"
  by (simp add: le_bytes_def)

lemma bit_le_word:
  "bit (le_word bs :: 'a::len word) k \<longleftrightarrow>
     k < LENGTH('a) \<and> k < 8 * length bs \<and> bit (bs ! (k div 8)) (k mod 8)"
proof (induction bs arbitrary: k)
  case Nil
  then show ?case by simp
next
  case (Cons b bs)
  show ?case
  proof (cases "k < 8")
    case True
    then show ?thesis by (auto simp: bit_simps)
  next
    case False
    then obtain j where k: "k = j + 8" by (metis add.commute le_Suc_ex not_less)
    have "k div 8 = Suc (j div 8)" "k mod 8 = j mod 8" using k by simp_all
    moreover have "\<not> bit b (j + 8)" using bit_imp_le_length[of b "j + 8"] by auto
    ultimately show ?thesis using Cons.IH[of j] k by (auto simp: bit_simps)
  qed
qed

text \<open>Decoding what was encoded gives the value back, when the bytes cover the word.\<close>

lemma le_word_le_bytes [simp]:
  assumes "LENGTH('a::len) \<le> 8 * n"
  shows "(le_word (le_bytes n v) :: 'a word) = v"
proof (rule bit_word_eqI)
  fix k assume k: "k < LENGTH('a)"
  then have "k div 8 < n" using assms by linarith
  then show "bit (le_word (le_bytes n v) :: 'a word) k = bit v k"
    using k assms by (auto simp: bit_le_word le_bytes_def bit_simps)
qed

section \<open>Regions of byte memory\<close>

text \<open>
  \<open>in_region x a n\<close>: address \<open>x\<close> is one of the \<open>n\<close> bytes starting at \<open>a\<close>,
  counted modulo \<open>2^64\<close> as the hardware counts them.
\<close>

definition in_region :: "addr \<Rightarrow> addr \<Rightarrow> nat \<Rightarrow> bool" where
  "in_region x a n \<longleftrightarrow> unat (x - a) < n"

definition read_bytes :: "memory \<Rightarrow> addr \<Rightarrow> nat \<Rightarrow> u8 list" where
  "read_bytes m a n = map (\<lambda>i. m (a + word_of_nat i)) [0..<n]"

definition write_bytes :: "memory \<Rightarrow> addr \<Rightarrow> u8 list \<Rightarrow> memory" where
  "write_bytes m a bs = (\<lambda>x. if in_region x a (length bs) then bs ! unat (x - a) else m x)"

lemma length_read_bytes [simp]: "length (read_bytes m a n) = n"
  by (simp add: read_bytes_def)

lemma unat_of_nat_small: "i < 2 ^ 64 \<Longrightarrow> unat (word_of_nat i :: addr) = i"
  by (simp add: unat_of_nat)

lemma read_write_bytes_same [mem_simps]:
  assumes "length bs \<le> 2 ^ 64"
  shows "read_bytes (write_bytes m a bs) a (length bs) = bs"
proof (rule nth_equalityI)
  fix i assume "i < length (read_bytes (write_bytes m a bs) a (length bs))"
  then have i: "i < length bs" by simp
  with assms have "i < 2 ^ 64" by linarith
  then have "unat (word_of_nat i :: addr) = i" by (rule unat_of_nat_small)
  with i show "read_bytes (write_bytes m a bs) a (length bs) ! i = bs ! i"
    by (simp add: read_bytes_def write_bytes_def in_region_def)
qed simp

lemma read_write_bytes_frame [mem_simps]:
  assumes "\<forall>i<n. \<not> in_region (b + word_of_nat i) a (length bs)"
  shows "read_bytes (write_bytes m a bs) b n = read_bytes m b n"
  using assms by (simp add: read_bytes_def write_bytes_def)

lemma write_bytes_other [mem_simps]:
  "\<not> in_region x a (length bs) \<Longrightarrow> write_bytes m a bs x = m x"
  by (simp add: write_bytes_def)

lemma write_bytes_write_bytes_same [mem_simps]:
  "length bs = length cs \<Longrightarrow> write_bytes (write_bytes m a bs) a cs = write_bytes m a cs"
  by (simp add: write_bytes_def fun_eq_iff)

text \<open>
  Two regions at offsets \<open>i\<close> and \<open>j\<close> from a common base are disjoint when their
  offsets, read as naturals, do not overlap and stay below \<open>2^64\<close>: the rule
  every isolation argument about device registers goes through.
\<close>

lemma in_region_offsets:
  assumes "i + n \<le> 2 ^ 64" "j + k < 2 ^ 64"
  shows "in_region (a + word_of_nat j + word_of_nat k) (a + word_of_nat i) n \<longleftrightarrow>
         i \<le> j + k \<and> j + k < i + n"
proof
  assume r: "in_region (a + word_of_nat j + word_of_nat k) (a + word_of_nat i) n"
  define t where "t = unat (a + word_of_nat j + word_of_nat k - (a + word_of_nat i))"
  have t: "t < n" using r by (simp add: in_region_def t_def)
  have "a + word_of_nat j + word_of_nat k = a + word_of_nat i + (word_of_nat t :: addr)"
    by (simp add: t_def)
  then have "(word_of_nat (j + k) :: addr) = word_of_nat (i + t)" by simp
  then have "unat (word_of_nat (j + k) :: addr) = unat (word_of_nat (i + t) :: addr)"
    by (rule arg_cong)
  moreover have "i + t < 2 ^ 64" using assms t by linarith
  ultimately have "j + k = i + t"
    by (simp only: unat_of_nat_small[OF assms(2)] unat_of_nat_small)
  then show "i \<le> j + k \<and> j + k < i + n" using t by simp
next
  assume o: "i \<le> j + k \<and> j + k < i + n"
  then have eq: "a + word_of_nat j + word_of_nat k - (a + word_of_nat i) =
                 (word_of_nat (j + k - i) :: addr)"
    by (simp add: of_nat_diff)
  have "j + k - i < 2 ^ 64" using assms by linarith
  then have "unat (word_of_nat (j + k - i) :: addr) = j + k - i" by (rule unat_of_nat_small)
  then show "in_region (a + word_of_nat j + word_of_nat k) (a + word_of_nat i) n"
    unfolding in_region_def eq using o by linarith
qed


text \<open>
  Device registers are named by their offset from the device's base address.
  \<open>addr_at a i\<close> keeps the offset a natural number, so that the simplifier does
  not distribute the conversion over the offset's arithmetic.
\<close>

definition addr_at :: "addr \<Rightarrow> nat \<Rightarrow> addr" where
  "addr_at a i = a + word_of_nat i"

text \<open>The frame rule in the form the device proofs use: a store at offset \<open>i\<close>
  from a base leaves a read at a non-overlapping offset \<open>j\<close> unchanged.\<close>

lemma read_write_bytes_offsets [mem_simps]:
  assumes "j + n \<le> i \<or> i + length bs \<le> j" "i + length bs \<le> 2 ^ 64" "j + n \<le> 2 ^ 64"
  shows "read_bytes (write_bytes m (addr_at a i) bs) (addr_at a j) n = read_bytes m (addr_at a j) n"
  unfolding addr_at_def
proof (rule read_write_bytes_frame, intro allI impI)
  fix k assume "k < n"
  with assms have "\<not> (i \<le> j + k \<and> j + k < i + length bs)" and "j + k < 2 ^ 64" by auto
  then show "\<not> in_region (a + word_of_nat j + word_of_nat k) (a + word_of_nat i) (length bs)"
    using in_region_offsets[OF assms(2)] by blast
qed

lemma read_write_bytes_same_offset [mem_simps]:
  "length bs \<le> 2 ^ 64 \<Longrightarrow> n = length bs \<Longrightarrow> read_bytes (write_bytes m a bs) a n = bs"
  by (simp add: read_write_bytes_same)


text \<open>Reading a register after a store to a register of the same device: the stored
  bytes if it is the same register, the old bytes if the two do not overlap.\<close>

lemma read_write_bytes_at:
  assumes "i + length bs \<le> 2 ^ 64" "j + n \<le> 2 ^ 64"
    and "i = j \<Longrightarrow> n = length bs" and "i \<noteq> j \<Longrightarrow> j + n \<le> i \<or> i + length bs \<le> j"
  shows "read_bytes (write_bytes m (addr_at b i) bs) (addr_at b j) n =
         (if i = j then bs else read_bytes m (addr_at b j) n)"
proof (cases "i = j")
  case True
  with assms have "n = length bs" "length bs \<le> 2 ^ 64" by auto
  with True show ?thesis by (simp add: read_write_bytes_same)
next
  case False
  with assms show ?thesis by (simp add: read_write_bytes_offsets)
qed

text \<open>Registers of one width laid out in an array do not overlap.\<close>

lemma slots_disjoint:
  fixes w :: nat
  assumes "i \<noteq> j"
  shows "c + w * j + w \<le> c + w * i \<or> c + w * i + w \<le> c + w * j"
proof (cases "i < j")
  case True
  then have "w * (i + 1) \<le> w * j" by (intro mult_le_mono2) simp
  then show ?thesis by simp
next
  case False
  with assms have "w * (j + 1) \<le> w * i" by (intro mult_le_mono2) simp
  then show ?thesis by simp
qed


section \<open>Byte sequences, one byte at a time\<close>

text \<open>The rules the byte loops of the string library and the mailbox copy go
  through: a region read or written one byte further, from either end.\<close>

lemma in_region_Suc:
  "in_region x a (Suc k) \<longleftrightarrow> x = a \<or> in_region x (a + 1) k"
proof (cases "x = a")
  case False
  then have "x - a \<noteq> 0" by simp
  then have "unat (x - (a + 1)) = unat (x - a) - 1"
    by (simp add: diff_diff_eq[symmetric] unat_minus_one)
  moreover have "unat (x - a) \<noteq> 0" using False by (simp add: unat_eq_zero)
  ultimately show ?thesis using False by (auto simp: in_region_def)
qed (simp add: in_region_def)

lemma read_bytes_0 [simp]: "read_bytes m a 0 = []"
  by (simp add: read_bytes_def)

lemma read_bytes_Suc:
  "read_bytes m a (Suc k) = m a # read_bytes m (a + 1) k"
  by (simp add: read_bytes_def upt_conv_Cons map_Suc_upt[symmetric] o_def algebra_simps del: upt_Suc)

lemma read_bytes_snoc:
  "read_bytes m a (Suc k) = read_bytes m a k @ [m (addr_at a k)]"
  by (simp add: read_bytes_def addr_at_def)

lemma unat_minus_1: "unat (- 1 :: addr) = 2 ^ 64 - 1"
  using unat_bintrunc_neg[where 'a = 64 and bin = Num.One] by (simp add: mask_eq_exp_minus_1)

lemma write_bytes_Nil [simp]: "write_bytes m a [] = m"
  by (simp add: write_bytes_def in_region_def)

lemma write_bytes_Cons:
  assumes "length bs < 2 ^ 64"
  shows "write_bytes m a (b # bs) = write_bytes (m(a := b)) (a + 1) bs"
proof
  fix x
  show "write_bytes m a (b # bs) x = write_bytes (m(a := b)) (a + 1) bs x"
  proof (cases "x = a")
    case True
    with assms show ?thesis by (simp add: write_bytes_def in_region_def unat_minus_1)
  next
    case False
    then have "x - a \<noteq> 0" by simp
    then have "unat (x - (a + 1)) = unat (x - a) - 1"
      by (simp add: diff_diff_eq[symmetric] unat_minus_one)
    moreover have "unat (x - a) \<noteq> 0" using False by (simp add: unat_eq_zero)
    ultimately show ?thesis using False
      by (auto simp: write_bytes_def in_region_def nth_Cons')
  qed
qed

lemma write_bytes_snoc:
  assumes "length bs < 2 ^ 64"
  shows "write_bytes m a (bs @ [b]) = write_bytes (m(addr_at a (length bs) := b)) a bs"
proof
  fix x
  have l: "unat (word_of_nat (length bs) :: addr) = length bs"
    using assms by (rule unat_of_nat_small)
  show "write_bytes m a (bs @ [b]) x = write_bytes (m(addr_at a (length bs) := b)) a bs x"
  proof (cases "x = addr_at a (length bs)")
    case True
    then show ?thesis using l by (simp add: write_bytes_def in_region_def addr_at_def)
  next
    case False
    have "unat (x - a) \<noteq> length bs"
    proof
      assume "unat (x - a) = length bs"
      then have "x - a = word_of_nat (length bs)" using l by (simp add: word_unat_eq_iff)
      with False show False by (simp add: addr_at_def algebra_simps)
    qed
    then show ?thesis using False by (auto simp: write_bytes_def in_region_def nth_append)
  qed
qed

lemma write_bytes_replicate:
  "write_bytes m p (replicate k c) = (\<lambda>x. if in_region x p k then c else m x)"
  by (simp add: write_bytes_def fun_eq_iff in_region_def)

lemma read_bytes_upd_other:
  "\<forall>i<k. addr_at a i \<noteq> x \<Longrightarrow> read_bytes (m(x := v)) a k = read_bytes m a k"
  by (simp add: read_bytes_def addr_at_def)

lemma addr_at_Suc: "addr_at a (Suc i) = addr_at (a + 1) i"
  by (simp add: addr_at_def algebra_simps)

lemma unat_u32_less: "unat (w :: u32) < 2 ^ 32"
  using unsigned_less[of w] by simp

lemma unat_ucast_u32: "unat (ucast (w :: u32) :: u64) = unat w"
  using unat_u32_less[of w] by (simp add: unsigned_ucast_eq take_bit_nat_eq_self_iff)

lemma unat_u64_less: "unat (w :: u64) < 2 ^ 64"
  using unsigned_less[of w] by simp

lemma addr_at_unat [simp]: "addr_at a (unat n) = a + n"
  by (simp add: addr_at_def)

lemma unat_addr_at: "unat a + i < 2 ^ 64 \<Longrightarrow> unat (addr_at a i) = unat a + i"
proof -
  have "addr_at a i = word_of_nat (unat a + i)" by (simp add: addr_at_def)
  then show "unat a + i < 2 ^ 64 \<Longrightarrow> unat (addr_at a i) = unat a + i"
    by (simp only: unat_of_nat_small)
qed

lemma addr_at_eq_iff:
  assumes "unat a + i < 2 ^ 64" "unat b + j < 2 ^ 64"
  shows "addr_at a i = addr_at b j \<longleftrightarrow> unat a + i = unat b + j"
  using assms by (simp add: word_unat_eq_iff unat_addr_at)

lemma write_bytes_at:
  "i < length bs \<Longrightarrow> length bs \<le> 2 ^ 64 \<Longrightarrow> write_bytes m a bs (addr_at a i) = bs ! i"
  by (simp add: write_bytes_def in_region_def addr_at_def unat_of_nat_small)

end
