(* ===== verification/IO.thy ===== *)
theory IO
  imports Prelude
begin

text \<open>
  The memory-mapped I/O accessors of \<open>src/sbi/include/io.h\<close>.  A hart's view
  of the machine is its byte memory and the sequence of memory events it has
  issued in program order: loads, stores and fences.  The raw accessors
  \<open>__raw_read*\<close>/\<open>__raw_write*\<close> are one load or store instruction; the
  fenced macros \<open>read*\<close>/\<open>write*\<close> wrap them with \<open>__io_br\<close>/\<open>__io_ar\<close> and
  \<open>__io_bw\<close>/\<open>__io_aw\<close>, of which only \<open>__io_ar = fence(i,r)\<close> and
  \<open>__io_bw = fence(w,o)\<close> emit an instruction.  The lemmas show what each
  accessor reads and writes, that accessors of disjoint regions commute with
  each other's reads, and that every store issued through the macros is
  preceded by \<open>fence w,o\<close> and every load followed by \<open>fence i,r\<close>.
\<close>

section \<open>Events and machine state\<close>

text \<open>The predecessor and successor sets of a RISC-V \<open>fence\<close>: device input and
  output, memory reads and writes.\<close>

datatype iorw = FI | FO | FR | FW

datatype io_event =
    Fence "iorw list" "iorw list"
  | Load nat addr
  | Store nat addr "u8 list"

record machine =
  mem :: memory
  io_trace :: "io_event list"

section \<open>Fences and raw accesses\<close>

text \<open>\<open>fence(p, s)\<close> of \<open>riscv.h\<close>.\<close>

definition fence :: "iorw list \<Rightarrow> iorw list \<Rightarrow> 'a machine_scheme \<Rightarrow> 'a machine_scheme" where
  "fence p q s = s\<lparr>io_trace := io_trace s @ [Fence p q]\<rparr>"

definition io_br :: "'a machine_scheme \<Rightarrow> 'a machine_scheme" where
  "io_br s = s"

definition io_ar :: "'a machine_scheme \<Rightarrow> 'a machine_scheme" where
  "io_ar s = fence [FI] [FR] s"

definition io_bw :: "'a machine_scheme \<Rightarrow> 'a machine_scheme" where
  "io_bw s = fence [FW] [FO] s"

definition io_aw :: "'a machine_scheme \<Rightarrow> 'a machine_scheme" where
  "io_aw s = s"

text \<open>One load or store instruction of \<open>n\<close> bytes (\<open>lb\<close>/\<open>lh\<close>/\<open>lw\<close>/\<open>ld\<close>,
  \<open>sb\<close>/\<open>sh\<close>/\<open>sw\<close>/\<open>sd\<close>).  The sign extension of \<open>lb\<close>, \<open>lh\<close> and \<open>lw\<close>
  is discarded by the \<open>uint*_t\<close> result variable, so a load returns the bytes.\<close>

definition raw_read :: "nat \<Rightarrow> addr \<Rightarrow> 'a machine_scheme \<Rightarrow> 'b::len word \<times> 'a machine_scheme" where
  "raw_read n a s = (le_word (read_bytes (mem s) a n), s\<lparr>io_trace := io_trace s @ [Load n a]\<rparr>)"

definition raw_write :: "nat \<Rightarrow> 'b::len word \<Rightarrow> addr \<Rightarrow> 'a machine_scheme \<Rightarrow> 'a machine_scheme" where
  "raw_write n v a s =
     s\<lparr>mem := write_bytes (mem s) a (le_bytes n v),
       io_trace := io_trace s @ [Store n a (le_bytes n v)]\<rparr>"

section \<open>Fenced accessors\<close>

definition io_read :: "nat \<Rightarrow> addr \<Rightarrow> 'a machine_scheme \<Rightarrow> 'b::len word \<times> 'a machine_scheme" where
  "io_read n a s = (let (v, s') = raw_read n a (io_br s) in (v, io_ar s'))"

definition io_write :: "nat \<Rightarrow> 'b::len word \<Rightarrow> addr \<Rightarrow> 'a machine_scheme \<Rightarrow> 'a machine_scheme" where
  "io_write n v a s = io_aw (raw_write n v a (io_bw s))"

definition readb :: "addr \<Rightarrow> 'a machine_scheme \<Rightarrow> u8 \<times> 'a machine_scheme" where
  "readb a s = io_read 1 a s"

definition readh :: "addr \<Rightarrow> 'a machine_scheme \<Rightarrow> u16 \<times> 'a machine_scheme" where
  "readh a s = io_read 2 a s"

definition readw :: "addr \<Rightarrow> 'a machine_scheme \<Rightarrow> u32 \<times> 'a machine_scheme" where
  "readw a s = io_read 4 a s"

definition readd :: "addr \<Rightarrow> 'a machine_scheme \<Rightarrow> u64 \<times> 'a machine_scheme" where
  "readd a s = io_read 8 a s"

definition writeb :: "u8 \<Rightarrow> addr \<Rightarrow> 'a machine_scheme \<Rightarrow> 'a machine_scheme" where
  "writeb v a s = io_write 1 v a s"

definition writeh :: "u16 \<Rightarrow> addr \<Rightarrow> 'a machine_scheme \<Rightarrow> 'a machine_scheme" where
  "writeh v a s = io_write 2 v a s"

definition writew :: "u32 \<Rightarrow> addr \<Rightarrow> 'a machine_scheme \<Rightarrow> 'a machine_scheme" where
  "writew v a s = io_write 4 v a s"

definition writed :: "u64 \<Rightarrow> addr \<Rightarrow> 'a machine_scheme \<Rightarrow> 'a machine_scheme" where
  "writed v a s = io_write 8 v a s"

section \<open>The ordering discipline\<close>

text \<open>
  A trace is ordered when it splits into stray fences, stores each right after
  a \<open>fence w,o\<close>, and loads each right before a \<open>fence i,r\<close>: the contract the
  device accessors promise (\<open>io.h\<close> lines 14--21).
\<close>

fun io_ordered :: "io_event list \<Rightarrow> bool" where
  "io_ordered [] = True"
| "io_ordered (Fence [FW] [FO] # Store n a bs # es) = io_ordered es"
| "io_ordered (Load n a # Fence [FI] [FR] # es) = io_ordered es"
| "io_ordered (Fence p q # es) = io_ordered es"
| "io_ordered (Load n a # es) = False"
| "io_ordered (Store n a bs # es) = False"

section \<open>Lemmas\<close>

lemmas io_defs = io_read_def io_write_def raw_read_def raw_write_def
  io_br_def io_ar_def io_bw_def io_aw_def fence_def

lemma io_ordered_Fence:
  "io_ordered ys \<Longrightarrow> io_ordered (Fence p q # ys)"
proof (cases ys)
  case (Cons e es)
  assume "io_ordered ys"
  with Cons show ?thesis by (cases e) auto
qed simp

lemma io_ordered_append [simp]:
  "io_ordered xs \<Longrightarrow> io_ordered ys \<Longrightarrow> io_ordered (xs @ ys)"
  by (induction xs rule: io_ordered.induct) (auto intro: io_ordered_Fence)

lemma io_read_mem [simp]: "mem (snd (io_read n a s)) = mem s"
  by (simp add: io_defs)

lemma io_read_val: "fst (io_read n a s) = le_word (read_bytes (mem s) a n)"
  by (simp add: io_defs)

lemma io_read_trace:
  "io_trace (snd (io_read n a s)) = io_trace s @ [Load n a, Fence [FI] [FR]]"
  by (simp add: io_defs)

lemma io_write_mem [simp]:
  "mem (io_write n v a s) = write_bytes (mem s) a (le_bytes n v)"
  by (simp add: io_defs)

lemma io_write_trace:
  "io_trace (io_write n v a s) = io_trace s @ [Fence [FW] [FO], Store n a (le_bytes n v)]"
  by (simp add: io_defs)

lemma io_read_more [simp]: "machine.more (snd (io_read n a s)) = machine.more s"
  by (simp add: io_defs)

lemma io_write_more [simp]: "machine.more (io_write n v a s) = machine.more s"
  by (simp add: io_defs)

text \<open>A load of the bytes a store of the same width and address wrote returns the
  stored value.\<close>

lemma io_read_io_write_same:
  assumes "LENGTH('b::len) \<le> 8 * n" "n \<le> 2 ^ 64"
  shows "(fst (io_read n a (io_write n (v :: 'b word) a s)) :: 'b word) = v"
proof -
  have "read_bytes (write_bytes (mem s) a (le_bytes n v)) a n = le_bytes n v"
    using read_write_bytes_same[of "le_bytes n v" "mem s" a] assms(2) by simp
  then show ?thesis using assms(1) by (simp add: io_read_val)
qed

text \<open>A store leaves the bytes outside its region unchanged, so a load of a
  disjoint region returns what it returned before.\<close>

lemma io_read_io_write_frame:
  assumes "\<forall>i<m. \<not> in_region (b + word_of_nat i) a n"
  shows "fst (io_read m b (io_write n v a s)) = fst (io_read m b s)"
  using assms by (simp add: io_read_val read_write_bytes_frame)

lemma io_read_ordered:
  "io_ordered (io_trace s) \<Longrightarrow> io_ordered (io_trace (snd (io_read n a s)))"
  by (simp add: io_read_trace)

lemma io_write_ordered:
  "io_ordered (io_trace s) \<Longrightarrow> io_ordered (io_trace (io_write n v a s))"
  by (simp add: io_write_trace)

end
