(* ===== verification/Clint.thy ===== *)
theory Clint
  imports IO
begin

text \<open>
  The core-local interruptor (CLINT) driver of \<open>src/sbi/devices/clint/clint.c\<close>
  and \<open>clint.h\<close>: the register map, the static base address \<open>clint_base\<close>, and
  the six operations, each one fenced device access of \<open>io.h\<close>.  The device
  itself is a block of memory-mapped registers: per-hart 32-bit \<open>msip\<close>
  (software-interrupt pending) registers, per-hart 64-bit \<open>mtimecmp\<close>
  registers and one 64-bit \<open>mtime\<close> counter that the hardware increments.

  On top of the driver sits the abstract controller every protocol is stated
  against (\<open>clint_abs\<close>: a pending bit and a compare value per hart, one timer)
  and a functional refinement: for in-range hart ids, each concrete operation
  does to the abstraction of the registers what the abstract operation does.
\<close>

section \<open>Register map\<close>

definition CLINT_MSIP_OFFSET :: addr where [sbi_consts]: "CLINT_MSIP_OFFSET = 0x0000"
definition CLINT_MTIMECMP_OFFSET :: addr where [sbi_consts]: "CLINT_MTIMECMP_OFFSET = 0x4000"
definition CLINT_MTIME_OFFSET :: addr where [sbi_consts]: "CLINT_MTIME_OFFSET = 0xbff8"
definition CLINT_MSIP_SIZE :: u64 where [sbi_consts]: "CLINT_MSIP_SIZE = 0x4"
definition CLINT_MTIMECMP_SIZE :: u64 where [sbi_consts]: "CLINT_MTIMECMP_SIZE = 0x8"

text \<open>The macro \<open>CLINT_SOFT(base, hartid)\<close>.\<close>

definition CLINT_SOFT :: "addr \<Rightarrow> u64 \<Rightarrow> addr" where
  "CLINT_SOFT base hartid = base + hartid * CLINT_MSIP_SIZE + CLINT_MSIP_OFFSET"

section \<open>Driver state and operations\<close>

text \<open>\<open>static volatile void* clint_base\<close>, beside the hart's machine.\<close>

record clint_state = machine +
  clint_base :: addr

definition clint_get_mtime :: "'a clint_state_scheme \<Rightarrow> u64 \<times> 'a clint_state_scheme" where
  "clint_get_mtime s = readd (clint_base s + CLINT_MTIME_OFFSET) s"

definition clint_set_timecmp :: "u64 \<Rightarrow> u64 \<Rightarrow> 'a clint_state_scheme \<Rightarrow> 'a clint_state_scheme" where
  "clint_set_timecmp hartid time s =
     writed time (clint_base s + hartid * CLINT_MTIMECMP_SIZE + CLINT_MTIMECMP_OFFSET) s"

definition clint_check_soft :: "u64 \<Rightarrow> 'a clint_state_scheme \<Rightarrow> u32 \<times> 'a clint_state_scheme" where
  "clint_check_soft hartid s = readw (CLINT_SOFT (clint_base s) hartid) s"

definition clint_send_soft :: "u64 \<Rightarrow> 'a clint_state_scheme \<Rightarrow> 'a clint_state_scheme" where
  "clint_send_soft hartid s = writew 1 (CLINT_SOFT (clint_base s) hartid) s"

definition clint_clear_soft :: "u64 \<Rightarrow> 'a clint_state_scheme \<Rightarrow> 'a clint_state_scheme" where
  "clint_clear_soft hartid s = writew 0 (CLINT_SOFT (clint_base s) hartid) s"

definition clint_init :: "addr \<Rightarrow> 'a clint_state_scheme \<Rightarrow> 'a clint_state_scheme" where
  "clint_init base s = s\<lparr>clint_base := base\<rparr>"

text \<open>
  The device side: the hardware increments \<open>mtime\<close> by one at each tick of the
  real-time clock, wrapping at \<open>2^64\<close>.  This is not driver code; it is the
  environment the driver's reads of \<open>mtime\<close> observe.
\<close>

definition mtime_reg :: "'a clint_state_scheme \<Rightarrow> u64" where
  "mtime_reg s = le_word (read_bytes (mem s) (addr_at (clint_base s) 0xbff8) 8)"

definition clint_tick :: "'a clint_state_scheme \<Rightarrow> 'a clint_state_scheme" where
  "clint_tick s =
     s\<lparr>mem := write_bytes (mem s) (addr_at (clint_base s) 0xbff8) (le_bytes 8 (mtime_reg s + 1))\<rparr>"

section \<open>The driver interface as a datatype of operations\<close>

datatype clint_op =
    CInit addr
  | CGetMtime
  | CSetTimecmp u64 u64
  | CCheckSoft u64
  | CSendSoft u64
  | CClearSoft u64
  | CTick

datatype clint_ret = RNone | RTime u64 | RSoft u32

primrec clint_exec :: "clint_op \<Rightarrow> 'a clint_state_scheme \<Rightarrow> clint_ret \<times> 'a clint_state_scheme" where
  "clint_exec (CInit b) s = (RNone, clint_init b s)"
| "clint_exec CGetMtime s = (let (t, s') = clint_get_mtime s in (RTime t, s'))"
| "clint_exec (CSetTimecmp h t) s = (RNone, clint_set_timecmp h t s)"
| "clint_exec (CCheckSoft h) s = (let (v, s') = clint_check_soft h s in (RSoft v, s'))"
| "clint_exec (CSendSoft h) s = (RNone, clint_send_soft h s)"
| "clint_exec (CClearSoft h) s = (RNone, clint_clear_soft h s)"
| "clint_exec CTick s = (RNone, clint_tick s)"

fun clint_run :: "clint_op list \<Rightarrow> 'a clint_state_scheme \<Rightarrow> clint_ret list \<times> 'a clint_state_scheme" where
  "clint_run [] s = ([], s)"
| "clint_run (op # ops) s =
     (let (r, s') = clint_exec op s; (rs, s'') = clint_run ops s' in (r # rs, s''))"

text \<open>An operation names an in-range hart (the spec's configuration contract:
  ids in \<open>[0, MAX_HARTS)\<close>) and is not a re-initialisation.\<close>

primrec clint_op_ok :: "clint_op \<Rightarrow> bool" where
  "clint_op_ok (CInit b) = False"
| "clint_op_ok CGetMtime = True"
| "clint_op_ok (CSetTimecmp h t) = (unat h < MAX_HARTS)"
| "clint_op_ok (CCheckSoft h) = (unat h < MAX_HARTS)"
| "clint_op_ok (CSendSoft h) = (unat h < MAX_HARTS)"
| "clint_op_ok (CClearSoft h) = (unat h < MAX_HARTS)"
| "clint_op_ok CTick = True"

section \<open>The abstract controller\<close>

record clint_abs =
  pending :: "nat \<Rightarrow> bool"
  mtime :: u64
  mtimecmp :: "nat \<Rightarrow> u64"

definition craise :: "nat \<Rightarrow> clint_abs \<Rightarrow> clint_abs" where
  "craise h c = c\<lparr>pending := (pending c)(h := True)\<rparr>"

definition cclear :: "nat \<Rightarrow> clint_abs \<Rightarrow> clint_abs" where
  "cclear h c = c\<lparr>pending := (pending c)(h := False)\<rparr>"

primrec abs_exec :: "clint_op \<Rightarrow> clint_abs \<Rightarrow> clint_ret \<times> clint_abs" where
  "abs_exec (CInit b) c = (RNone, c)"
| "abs_exec CGetMtime c = (RTime (mtime c), c)"
| "abs_exec (CSetTimecmp h t) c = (RNone, c\<lparr>mtimecmp := (mtimecmp c)(unat h := t)\<rparr>)"
| "abs_exec (CCheckSoft h) c = (RSoft (if pending c (unat h) then 1 else 0), c)"
| "abs_exec (CSendSoft h) c = (RNone, craise (unat h) c)"
| "abs_exec (CClearSoft h) c = (RNone, cclear (unat h) c)"
| "abs_exec CTick c = (RNone, c\<lparr>mtime := mtime c + 1\<rparr>)"

text \<open>The registers of the device, read from memory at their offsets.\<close>

definition msip_reg :: "'a clint_state_scheme \<Rightarrow> nat \<Rightarrow> u32" where
  "msip_reg s h = le_word (read_bytes (mem s) (addr_at (clint_base s) (4 * h)) 4)"

definition mtimecmp_reg :: "'a clint_state_scheme \<Rightarrow> nat \<Rightarrow> u64" where
  "mtimecmp_reg s h = le_word (read_bytes (mem s) (addr_at (clint_base s) (0x4000 + 8 * h)) 8)"

definition clint_abs_of :: "'a clint_state_scheme \<Rightarrow> clint_abs" where
  "clint_abs_of s =
     \<lparr>pending = (\<lambda>h. h < MAX_HARTS \<and> msip_reg s h \<noteq> 0),
      mtime = mtime_reg s,
      mtimecmp = (\<lambda>h. if h < MAX_HARTS then mtimecmp_reg s h else 0)\<rparr>"

text \<open>
  The invariant of the device registers: every in-range \<open>msip\<close> register holds
  0 or 1.  The driver only ever writes these two values; the hardware's
  \<open>msip\<close> register is WARL with its upper 31 bits wired to zero, so on the
  device the invariant holds by construction.
\<close>

definition clint_wf :: "'a clint_state_scheme \<Rightarrow> bool" where
  "clint_wf s \<longleftrightarrow> (\<forall>h<MAX_HARTS. msip_reg s h = 0 \<or> msip_reg s h = 1)"


fun abs_run :: "clint_op list \<Rightarrow> clint_abs \<Rightarrow> clint_ret list \<times> clint_abs" where
  "abs_run [] c = ([], c)"
| "abs_run (op # ops) c =
     (let (r, c') = abs_exec op c; (rs, c'') = abs_run ops c' in (r # rs, c''))"

text \<open>The number of timer ticks in a run, and the values \<open>clint_get_mtime\<close> returned.\<close>

primrec ticks :: "clint_op list \<Rightarrow> nat" where
  "ticks [] = 0"
| "ticks (op # ops) = (if op = CTick then Suc (ticks ops) else ticks ops)"

primrec times_of :: "clint_ret list \<Rightarrow> u64 list" where
  "times_of [] = []"
| "times_of (r # rs) = (case r of RTime t \<Rightarrow> t # times_of rs | _ \<Rightarrow> times_of rs)"

text \<open>The machine after reset and \<open>clint_init(CLINT_CTRL_ADDR)\<close>: all registers
  zero, no memory event issued yet.\<close>

definition clint_boot :: clint_state where
  "clint_boot = \<lparr>mem = (\<lambda>_. 0), io_trace = [], clint_base = CLINT_CTRL_ADDR\<rparr>"

section \<open>Lemmas: registers before and after each operation\<close>

lemma clint_base_io_write [simp]: "clint_base (io_write n v a s) = clint_base s"
  by (simp add: io_defs)

lemma clint_base_io_read [simp]: "clint_base (snd (io_read n a s)) = clint_base s"
  by (simp add: io_defs)

lemma CLINT_SOFT_at: "CLINT_SOFT b h = addr_at b (4 * unat h)"
  by (simp add: CLINT_SOFT_def addr_at_def sbi_consts ac_simps)

lemma timecmp_at:
  "b + h * CLINT_MTIMECMP_SIZE + CLINT_MTIMECMP_OFFSET = addr_at b (0x4000 + 8 * unat h)"
  by (simp add: addr_at_def sbi_consts ac_simps)

lemma mtime_at: "b + CLINT_MTIME_OFFSET = addr_at b 0xbff8"
  by (simp add: addr_at_def sbi_consts)

lemmas clint_op_defs = clint_send_soft_def clint_clear_soft_def clint_set_timecmp_def
  clint_get_mtime_def clint_check_soft_def writew_def writed_def readw_def readd_def
  CLINT_SOFT_at timecmp_at mtime_at

lemmas clint_reg_defs = msip_reg_def mtime_reg_def mtimecmp_reg_def

text \<open>A store of \<open>v\<close> to the \<open>msip\<close> register of an in-range hart.\<close>

lemma msip_store_regs:
  fixes s :: "'a clint_state_scheme" and v :: u32
  assumes "h < MAX_HARTS"
  defines "s' \<equiv> io_write 4 v (addr_at (clint_base s) (4 * h)) s"
  shows "i < MAX_HARTS \<Longrightarrow> msip_reg s' i = (if i = h then v else msip_reg s i)"
    and "mtime_reg s' = mtime_reg s"
    and "i < MAX_HARTS \<Longrightarrow> mtimecmp_reg s' i = mtimecmp_reg s i"
  using assms slots_disjoint[of i h 0 4]
  by (auto simp: clint_reg_defs read_write_bytes_at sbi_consts)

lemma mtimecmp_store_regs:
  fixes s :: "'a clint_state_scheme" and v :: u64
  assumes "h < MAX_HARTS"
  defines "s' \<equiv> io_write 8 v (addr_at (clint_base s) (0x4000 + 8 * h)) s"
  shows "i < MAX_HARTS \<Longrightarrow> msip_reg s' i = msip_reg s i"
    and "mtime_reg s' = mtime_reg s"
    and "i < MAX_HARTS \<Longrightarrow> mtimecmp_reg s' i = (if i = h then v else mtimecmp_reg s i)"
  using assms slots_disjoint[of i h "0x4000" 8]
  by (auto simp: clint_reg_defs read_write_bytes_at sbi_consts)

lemma tick_mtime: "mtime_reg (clint_tick s) = mtime_reg s + 1"
  by (simp add: clint_tick_def clint_reg_defs read_write_bytes_at)

lemma tick_regs:
  assumes "i < MAX_HARTS"
  shows "msip_reg (clint_tick s) i = msip_reg s i"
    and "mtimecmp_reg (clint_tick s) i = mtimecmp_reg s i"
  using assms
  by (auto simp: clint_tick_def clint_reg_defs read_write_bytes_at sbi_consts)

lemma clint_send_soft_regs:
  assumes "unat h < MAX_HARTS"
  shows "i < MAX_HARTS \<Longrightarrow> msip_reg (clint_send_soft h s) i = (if i = unat h then 1 else msip_reg s i)"
    and "mtime_reg (clint_send_soft h s) = mtime_reg s"
    and "i < MAX_HARTS \<Longrightarrow> mtimecmp_reg (clint_send_soft h s) i = mtimecmp_reg s i"
  unfolding clint_op_defs by (fact msip_store_regs[OF assms])+

lemma clint_clear_soft_regs:
  assumes "unat h < MAX_HARTS"
  shows "i < MAX_HARTS \<Longrightarrow> msip_reg (clint_clear_soft h s) i = (if i = unat h then 0 else msip_reg s i)"
    and "mtime_reg (clint_clear_soft h s) = mtime_reg s"
    and "i < MAX_HARTS \<Longrightarrow> mtimecmp_reg (clint_clear_soft h s) i = mtimecmp_reg s i"
  unfolding clint_op_defs by (fact msip_store_regs[OF assms])+

lemma clint_set_timecmp_regs:
  assumes "unat h < MAX_HARTS"
  shows "i < MAX_HARTS \<Longrightarrow> msip_reg (clint_set_timecmp h t s) i = msip_reg s i"
    and "mtime_reg (clint_set_timecmp h t s) = mtime_reg s"
    and "i < MAX_HARTS \<Longrightarrow>
         mtimecmp_reg (clint_set_timecmp h t s) i = (if i = unat h then t else mtimecmp_reg s i)"
  unfolding clint_op_defs by (fact mtimecmp_store_regs[OF assms])+

lemma clint_get_mtime_val: "fst (clint_get_mtime s) = mtime_reg s"
  by (simp add: clint_op_defs io_read_val mtime_reg_def)

lemma clint_check_soft_val: "fst (clint_check_soft h s) = msip_reg s (unat h)"
  by (simp add: clint_op_defs io_read_val msip_reg_def)

text \<open>The two reading operations change no register.\<close>

lemma clint_read_ops_regs [simp]:
  "msip_reg (snd (clint_get_mtime s)) = msip_reg s"
  "mtime_reg (snd (clint_get_mtime s)) = mtime_reg s"
  "mtimecmp_reg (snd (clint_get_mtime s)) = mtimecmp_reg s"
  "msip_reg (snd (clint_check_soft h s)) = msip_reg s"
  "mtime_reg (snd (clint_check_soft h s)) = mtime_reg s"
  "mtimecmp_reg (snd (clint_check_soft h s)) = mtimecmp_reg s"
  by (simp_all add: clint_op_defs clint_reg_defs fun_eq_iff)

lemmas clint_regs = clint_send_soft_regs clint_clear_soft_regs clint_set_timecmp_regs
  tick_mtime tick_regs

section \<open>Refinement of the abstract controller\<close>

lemma clint_exec_refines:
  assumes "clint_wf s" "clint_op_ok op"
  shows "map_prod id clint_abs_of (clint_exec op s) = abs_exec op (clint_abs_of s)"
proof (cases op)
  case (CInit b)
  with assms show ?thesis by simp
next
  case CGetMtime
  then show ?thesis by (simp add: case_prod_beta clint_get_mtime_val clint_abs_of_def cong: if_cong)
next
  case (CSetTimecmp h t)
  with assms show ?thesis
    by (auto simp: clint_abs_of_def clint_regs fun_eq_iff)
next
  case (CCheckSoft h)
  with assms show ?thesis
    by (auto simp: case_prod_beta clint_check_soft_val clint_abs_of_def clint_wf_def)
next
  case (CSendSoft h)
  with assms show ?thesis
    by (auto simp: clint_abs_of_def clint_regs craise_def fun_eq_iff)
next
  case (CClearSoft h)
  with assms show ?thesis
    by (auto simp: clint_abs_of_def clint_regs cclear_def fun_eq_iff)
next
  case CTick
  then show ?thesis
    by (auto simp: clint_abs_of_def clint_regs fun_eq_iff)
qed

lemma clint_exec_wf:
  assumes "clint_wf s" "clint_op_ok op"
  shows "clint_wf (snd (clint_exec op s))"
proof (cases op)
  case CGetMtime
  with assms show ?thesis by (simp add: case_prod_beta clint_wf_def)
next
  case (CCheckSoft h)
  with assms show ?thesis by (simp add: case_prod_beta clint_wf_def)
qed (use assms in \<open>auto simp: clint_wf_def clint_regs\<close>)


lemma clint_run_wf:
  "clint_wf s \<Longrightarrow> \<forall>op\<in>set ops. clint_op_ok op \<Longrightarrow> clint_wf (snd (clint_run ops s))"
  by (induction ops arbitrary: s) (auto simp: case_prod_beta clint_exec_wf)

lemma clint_run_abs:
  assumes "clint_wf s" "\<forall>op\<in>set ops. clint_op_ok op"
  shows "map_prod id clint_abs_of (clint_run ops s) = abs_run ops (clint_abs_of s)"
  using assms
proof (induction ops arbitrary: s)
  case Nil
  then show ?case by simp
next
  case (Cons op ops)
  obtain r s' where ex: "clint_exec op s = (r, s')" by fastforce
  from Cons.prems ex have step: "abs_exec op (clint_abs_of s) = (r, clint_abs_of s')"
    using clint_exec_refines[of s op] by simp
  from Cons.prems ex have "clint_wf s'" using clint_exec_wf[of s op] by simp
  with Cons.prems have "map_prod id clint_abs_of (clint_run ops s') = abs_run ops (clint_abs_of s')"
    by (intro Cons.IH) auto
  with ex step show ?case by (cases "clint_run ops s'") (simp add: case_prod_beta, metis fst_conv snd_conv)
qed

section \<open>Functional properties of the driver\<close>

text \<open>C13. clint_check_soft h right after clint_send_soft h returns 1.\<close>
theorem send_then_check:
  "fst (clint_check_soft h (clint_send_soft h s)) = 1"
proof -
  have "fst (io_read 4 (CLINT_SOFT (clint_base s) h) (io_write 4 (1 :: u32) (CLINT_SOFT (clint_base s) h) s)) = (1 :: u32)"
    by (rule io_read_io_write_same) simp_all
  then show ?thesis
    by (simp add: clint_check_soft_def clint_send_soft_def readw_def writew_def)
qed

theorem clear_then_check:
  "fst (clint_check_soft h (clint_clear_soft h s)) = 0"
proof -
  have "fst (io_read 4 (CLINT_SOFT (clint_base s) h) (io_write 4 (0 :: u32) (CLINT_SOFT (clint_base s) h) s)) = (0 :: u32)"
    by (rule io_read_io_write_same) simp_all
  then show ?thesis
    by (simp add: clint_check_soft_def clint_clear_soft_def readw_def writew_def)
qed

theorem clear_idempotent:
  "mem (clint_clear_soft h (clint_clear_soft h s)) = mem (clint_clear_soft h s) \<and>
   clint_base (clint_clear_soft h (clint_clear_soft h s)) = clint_base s"
  by (simp add: clint_clear_soft_def writew_def write_bytes_write_bytes_same)

text \<open>C14. Raising one in-range hart's msip bit leaves what clint_check_soft returns
  for every other in-range hart unchanged.\<close>
theorem send_isolated:
  assumes "unat h < MAX_HARTS" "i < MAX_HARTS" "i \<noteq> unat h"
  shows "fst (clint_check_soft (word_of_nat i) (clint_send_soft h s)) =
         fst (clint_check_soft (word_of_nat i) s)"
proof -
  have "unat (word_of_nat i :: u64) = i" using assms(2) by (simp add: unat_of_nat sbi_consts)
  with assms show ?thesis by (simp add: clint_check_soft_val clint_send_soft_regs)
qed

section \<open>The timer\<close>

lemma abs_exec_mtime:
  "op \<noteq> CTick \<Longrightarrow> mtime (snd (abs_exec op c)) = mtime c"
  by (cases op) (simp_all add: craise_def cclear_def)

lemma abs_run_times_sorted:
  "unat (mtime c) + ticks ops < 2 ^ 64 \<Longrightarrow>
   sorted (unat (mtime c) # map unat (times_of (fst (abs_run ops c))))"
proof (induction ops arbitrary: c)
  case Nil
  then show ?case by simp
next
  case (Cons op ops)
  show ?case
  proof (cases "op = CTick")
    case True
    let ?c' = "c\<lparr>mtime := mtime c + 1\<rparr>"
    have "unat (mtime c) + 1 < 2 ^ 64" using Cons.prems True by simp
    then have m: "unat (mtime ?c') = unat (mtime c) + 1" by (simp add: unat_word_ariths)
    with Cons.prems True have "sorted (unat (mtime ?c') # map unat (times_of (fst (abs_run ops ?c'))))"
      by (intro Cons.IH) simp
    with m True show ?thesis by (auto simp: case_prod_beta)
  next
    case False
    let ?c' = "snd (abs_exec op c)"
    have m: "mtime ?c' = mtime c" using False by (rule abs_exec_mtime)
    with Cons.prems False have IH: "sorted (unat (mtime c) # map unat (times_of (fst (abs_run ops ?c'))))"
      using Cons.IH[of ?c'] by simp
    show ?thesis
    proof (cases op)
      case CGetMtime
      with IH show ?thesis by (simp add: case_prod_beta)
    qed (use IH False in \<open>simp_all add: case_prod_beta craise_def cclear_def\<close>)
  qed
qed

text \<open>C15. The values clint_get_mtime returns over a run of in-range driver
  operations and timer ticks are non-decreasing, as long as mtime does not wrap
  past 2^64.\<close>
theorem get_mtime_monotone:
  assumes "clint_wf s" "\<forall>op\<in>set ops. clint_op_ok op"
    and "unat (mtime_reg s) + ticks ops < 2 ^ 64"
  shows "sorted (map unat (times_of (fst (clint_run ops s))))"
proof -
  have "fst (clint_run ops s) = fst (abs_run ops (clint_abs_of s))"
    using clint_run_abs[OF assms(1,2)] by (metis fst_map_prod id_apply)
  moreover have "mtime (clint_abs_of s) = mtime_reg s" by (simp add: clint_abs_of_def)
  ultimately show ?thesis
    using abs_run_times_sorted[of "clint_abs_of s" ops] assms(3) by simp
qed

section \<open>The ordering discipline\<close>

lemma clint_exec_ordered:
  "io_ordered (io_trace s) \<Longrightarrow> io_ordered (io_trace (snd (clint_exec op s)))"
  by (cases op)
    (simp_all add: case_prod_beta clint_init_def clint_tick_def clint_get_mtime_def
      clint_set_timecmp_def clint_check_soft_def clint_send_soft_def clint_clear_soft_def
      readd_def readw_def writed_def writew_def io_read_ordered io_write_ordered)

text \<open>C16. Every store the CLINT driver issues is immediately preceded by fence w,o
  and every load immediately followed by fence i,r.\<close>
theorem clint_run_ordered:
  "io_ordered (io_trace s) \<Longrightarrow> io_ordered (io_trace (snd (clint_run ops s)))"
  by (induction ops arbitrary: s) (simp_all add: case_prod_beta clint_exec_ordered)

section \<open>Out-of-range hart ids\<close>

text \<open>No range check guards the hart id: ids that differ by \<open>2^62\<close> name the same
  \<open>msip\<close> register, and hart id \<open>0x2ffe\<close> names the low word of \<open>mtime\<close>.\<close>

theorem msip_alias: "clint_send_soft 0x4000000000000000 s = clint_send_soft 0 s"
proof -
  have "(0x4000000000000000 :: u64) * CLINT_MSIP_SIZE = 0" by (simp add: sbi_consts)
  then show ?thesis by (simp add: clint_send_soft_def CLINT_SOFT_def)
qed

theorem msip_hits_mtime: "CLINT_SOFT b 0x2ffe = b + CLINT_MTIME_OFFSET"
  by (simp add: CLINT_SOFT_def sbi_consts)


section \<open>The refinement, run by run\<close>

text \<open>C12. Any run of CLINT driver operations on in-range harts keeps every msip
  register at 0 or 1 and does to the abstract controller (pending bits, mtime,
  mtimecmp) what the abstract operations do, returning the same values.\<close>
theorem clint_refinement:
  assumes "clint_wf s" "\<forall>op\<in>set ops. clint_op_ok op"
  shows "clint_wf (snd (clint_run ops s)) \<and>
         map_prod id clint_abs_of (clint_run ops s) = abs_run ops (clint_abs_of s)"
  using clint_run_wf[OF assms] clint_run_abs[OF assms] by blast

section \<open>Witnesses\<close>

lemma clint_boot_regs:
  "msip_reg clint_boot h = 0" "mtime_reg clint_boot = 0" "mtimecmp_reg clint_boot h = 0"
  by (simp_all add: clint_boot_def clint_reg_defs read_bytes_def map_replicate_const)

lemma clint_boot_wf: "clint_wf clint_boot"
  by (simp add: clint_wf_def clint_boot_regs)

lemma clint_boot_ordered: "io_ordered (io_trace clint_boot)"
  by (simp add: clint_boot_def)

text \<open>The spec's isolation scenario: raise only hart 2's bit on a freshly booted
  controller; harts 0, 1, 3 and 4 read clear and hart 2 reads pending.\<close>

theorem isolation_scenario:
  "map (\<lambda>h. fst (clint_check_soft h (clint_send_soft 2 clint_boot))) [0, 1, 2, 3, 4] = [0, 0, 1, 0, 0]"
  by (simp add: clint_check_soft_val clint_send_soft_regs clint_boot_regs sbi_consts)

theorem clint_refinement_witness:
  "clint_wf (snd (clint_run [CSendSoft 2, CCheckSoft 2, CTick, CGetMtime, CClearSoft 2] clint_boot)) \<and>
   map_prod id clint_abs_of (clint_run [CSendSoft 2, CCheckSoft 2, CTick, CGetMtime, CClearSoft 2] clint_boot) =
   abs_run [CSendSoft 2, CCheckSoft 2, CTick, CGetMtime, CClearSoft 2] (clint_abs_of clint_boot)"
  by (rule clint_refinement[OF clint_boot_wf]) (simp add: sbi_consts)

theorem get_mtime_monotone_witness:
  "sorted (map unat (times_of (fst (clint_run [CGetMtime, CTick, CSendSoft 1, CGetMtime] clint_boot))))"
  using get_mtime_monotone[OF clint_boot_wf, of "[CGetMtime, CTick, CSendSoft 1, CGetMtime]"]
  by (simp add: clint_boot_regs sbi_consts)

theorem send_isolated_witness:
  "fst (clint_check_soft (word_of_nat 1) (clint_send_soft 2 clint_boot)) =
   fst (clint_check_soft (word_of_nat 1) clint_boot)"
  using send_isolated[of 2 1 clint_boot] by (simp add: sbi_consts)

theorem clint_run_ordered_witness:
  "io_ordered (io_trace (snd (clint_run [CSendSoft 3, CCheckSoft 3, CTick] clint_boot)))"
  by (rule clint_run_ordered[OF clint_boot_ordered])

end
