(* ===== verification/Barrier.thy ===== *)
theory Barrier
  imports Clint
begin

text \<open>
  The boot-time barrier of \<open>src/sbi/include/smp.h\<close>.  Every hart runs
  \<open>smp_pause\<close>: it unmasks its machine software interrupt (\<open>csrw mie, MIP_MSIP\<close>)
  and, unless it is hart \<open>ZERO_HART\<close>, branches forward to label \<open>42\<close> of
  \<open>smp_resume\<close>, the wait loop.  Hart 0 runs its device initialisation and then
  \<open>smp_resume\<close> from the top: it stores 1 to the \<open>msip\<close> register of every hart
  in increasing order (label \<open>41\<close>, first loop), waits with \<open>wfi\<close> until its own
  bit is pending (label \<open>42\<close>), clears its own \<open>msip\<close> register, and sweeps the
  \<open>msip\<close> registers of all harts from hart 0 up, spinning on each until it reads
  zero (label \<open>41\<close>, second loop).  Secondary harts enter at label \<open>42\<close> and run
  the same wait, clear and sweep.

  The state is the abstract controller of \<open>Clint\<close> (the \<open>msip\<close> bits), each
  hart's \<open>mie.MSIE\<close> bit and its program counter.  One step is one instruction
  that touches shared state (a store, a load, \<open>wfi\<close>, a CSR access); the register
  arithmetic between them is folded into the step.  \<open>wfi\<close> resumes only when the
  hart's \<open>msip\<close> bit is pending and enabled in \<open>mie\<close>.  Harts interleave
  arbitrarily: \<open>barrier_step\<close> lets any hart below \<open>MAX_HARTS\<close> take its step.
\<close>

section \<open>Program counters and state\<close>

text \<open>
  The control points of \<open>smp_pause\<close>/\<open>smp_resume\<close>: \<open>Pause\<close> before
  \<open>smp_pause\<close>, \<open>Init\<close> for hart 0's code between the two macros,
  \<open>Bcast k\<close> at the store of the broadcast loop with \<open>reg1\<close> at hart \<open>k\<close>'s
  register, \<open>Wfi\<close> at label \<open>42\<close>, \<open>ChkMip\<close> at \<open>csrr reg2, mip\<close>,
  \<open>ClearOwn\<close> at \<open>sw zero, 0(reg2)\<close>, \<open>Sweep k\<close> at the load of the sweep
  loop with \<open>reg1\<close> at hart \<open>k\<close>'s register, and \<open>Done\<close> past the macro.
\<close>

datatype bpc = Pause | Init | Bcast nat | Wfi | ChkMip | ClearOwn | Sweep nat | Done

record barrier =
  clint :: clint_abs
  mie_msip :: "nat \<Rightarrow> bool"
  pc :: "nat \<Rightarrow> bpc"

text \<open>\<open>CLINT_END_HART_IPI\<close> and the value of \<open>reg1\<close> when it points at hart
  \<open>k\<close>'s \<open>msip\<close> register; both loops compare them with the signed \<open>blt\<close>.\<close>

definition CLINT_END_HART_IPI :: addr where
  "CLINT_END_HART_IPI = CLINT_CTRL_ADDR + word_of_nat MAX_HARTS * CLINT_MSIP_SIZE"

definition ipi_reg :: "nat \<Rightarrow> addr" where
  "ipi_reg k = CLINT_CTRL_ADDR + word_of_nat k * CLINT_MSIP_SIZE"

section \<open>One hart's step\<close>

text \<open>\<open>None\<close>: the hart cannot move (it sleeps in \<open>wfi\<close>, or it is past the barrier).\<close>

definition smp_step :: "nat \<Rightarrow> barrier \<Rightarrow> barrier option" where
  "smp_step h s = (case pc s h of
     Pause \<Rightarrow> Some (s\<lparr>mie_msip := (mie_msip s)(h := True),
                     pc := (pc s)(h := if h = ZERO_HART then Init else Wfi)\<rparr>)
   | Init \<Rightarrow> Some (s\<lparr>pc := (pc s)(h := Bcast 0)\<rparr>)
   | Bcast k \<Rightarrow> Some (s\<lparr>clint := craise k (clint s),
                       pc := (pc s)(h := if ipi_reg (Suc k) <s CLINT_END_HART_IPI
                                        then Bcast (Suc k) else Wfi)\<rparr>)
   | Wfi \<Rightarrow> (if pending (clint s) h \<and> mie_msip s h
             then Some (s\<lparr>pc := (pc s)(h := ChkMip)\<rparr>) else None)
   | ChkMip \<Rightarrow> Some (s\<lparr>pc := (pc s)(h := if pending (clint s) h then ClearOwn else Wfi)\<rparr>)
   | ClearOwn \<Rightarrow> Some (s\<lparr>clint := cclear h (clint s), pc := (pc s)(h := Sweep 0)\<rparr>)
   | Sweep k \<Rightarrow> Some (if pending (clint s) k then s
                      else s\<lparr>pc := (pc s)(h := if ipi_reg (Suc k) <s CLINT_END_HART_IPI
                                              then Sweep (Suc k) else Done)\<rparr>)
   | Done \<Rightarrow> None)"

section \<open>Interleaving and reachable states\<close>

inductive barrier_step :: "barrier \<Rightarrow> barrier \<Rightarrow> bool" where
  hart: "h < MAX_HARTS \<Longrightarrow> smp_step h s = Some t \<Longrightarrow> barrier_step s t"

text \<open>At reset every \<open>msip\<close> register and every \<open>mie\<close> is zero and every hart
  is at the start of \<open>smp_pause\<close>.\<close>

definition barrier_start :: "barrier \<Rightarrow> bool" where
  "barrier_start s \<longleftrightarrow> (\<forall>h. \<not> pending (clint s) h) \<and> (\<forall>h. \<not> mie_msip s h) \<and> (\<forall>h. pc s h = Pause)"

inductive barrier_reach :: "barrier \<Rightarrow> bool" where
  start: "barrier_start s \<Longrightarrow> barrier_reach s"
| step: "barrier_reach s \<Longrightarrow> barrier_step s t \<Longrightarrow> barrier_reach t"

section \<open>The invariant\<close>

text \<open>How far hart 0's broadcast has got: the harts whose bit it has set.\<close>

definition bcast_pos :: "barrier \<Rightarrow> nat" where
  "bcast_pos s = (case pc s ZERO_HART of Pause \<Rightarrow> 0 | Init \<Rightarrow> 0 | Bcast k \<Rightarrow> k | _ \<Rightarrow> MAX_HARTS)"

text \<open>A hart has woken when it saw its bit and has acknowledged when it cleared it.\<close>

primrec woken :: "bpc \<Rightarrow> bool" where
  "woken Pause = False" | "woken Init = False" | "woken (Bcast k) = False" | "woken Wfi = False"
| "woken ChkMip = False" | "woken ClearOwn = True" | "woken (Sweep k) = True" | "woken Done = True"

primrec acked :: "bpc \<Rightarrow> bool" where
  "acked Pause = False" | "acked Init = False" | "acked (Bcast k) = False" | "acked Wfi = False"
| "acked ChkMip = False" | "acked ClearOwn = False" | "acked (Sweep k) = True" | "acked Done = True"

primrec pc_ok :: "nat \<Rightarrow> bpc \<Rightarrow> bool" where
  "pc_ok h Pause = True"
| "pc_ok h Init = (h = ZERO_HART)"
| "pc_ok h (Bcast k) = (h = ZERO_HART \<and> k < MAX_HARTS)"
| "pc_ok h Wfi = True" | "pc_ok h ChkMip = True" | "pc_ok h ClearOwn = True"
| "pc_ok h (Sweep k) = (k < MAX_HARTS)"
| "pc_ok h Done = True"

text \<open>How far a hart's sweep has got: the harts whose bit it has read clear.\<close>

primrec swept :: "bpc \<Rightarrow> nat" where
  "swept Pause = 0" | "swept Init = 0" | "swept (Bcast k) = 0" | "swept Wfi = 0"
| "swept ChkMip = 0" | "swept ClearOwn = 0" | "swept (Sweep k) = k" | "swept Done = MAX_HARTS"

definition core_inv :: "barrier \<Rightarrow> bool" where
  "core_inv s \<longleftrightarrow>
     (\<forall>h. pending (clint s) h \<longrightarrow> h < bcast_pos s) \<and>
     (\<forall>h<MAX_HARTS. pc_ok h (pc s h)) \<and>
     (\<forall>h<MAX_HARTS. woken (pc s h) \<longrightarrow> h < bcast_pos s) \<and>
     (\<forall>h<bcast_pos s. pending (clint s) h \<or> acked (pc s h)) \<and>
     (\<forall>h. acked (pc s h) \<longrightarrow> \<not> pending (clint s) h) \<and>
     (\<forall>h<MAX_HARTS. pc s h \<noteq> Pause \<longrightarrow> mie_msip s h)"

definition sweep_inv :: "barrier \<Rightarrow> bool" where
  "sweep_inv s \<longleftrightarrow> (\<forall>h<MAX_HARTS. \<forall>j. j < swept (pc s h) \<longrightarrow> acked (pc s j))"

definition barrier_inv :: "barrier \<Rightarrow> bool" where
  "barrier_inv s \<longleftrightarrow> core_inv s \<and> sweep_inv s"

section \<open>Progress\<close>

text \<open>All harts are past the barrier.\<close>

definition barrier_done :: "barrier \<Rightarrow> bool" where
  "barrier_done s \<longleftrightarrow> (\<forall>h<MAX_HARTS. pc s h = Done)"

text \<open>A rank of the control points that every step but the spins of \<open>wfi\<close>,
  of \<open>csrr mip\<close> with a clear bit and of the sweep on a set bit increases, and
  the potential it gives a state.\<close>

primrec rank :: "bpc \<Rightarrow> nat" where
  "rank Pause = 0" | "rank Init = 1" | "rank (Bcast k) = 2 + k" | "rank Wfi = 2 + MAX_HARTS"
| "rank ChkMip = 3 + MAX_HARTS" | "rank ClearOwn = 4 + MAX_HARTS"
| "rank (Sweep k) = 5 + MAX_HARTS + k" | "rank Done = 5 + 2 * MAX_HARTS"

definition potential :: "barrier \<Rightarrow> nat" where
  "potential s = (\<Sum>h<MAX_HARTS. 5 + 2 * MAX_HARTS - rank (pc s h))"

section \<open>A concrete schedule\<close>

text \<open>Running the harts in a given order, one step each; \<open>None\<close> if a hart named
  cannot move.  Used to exhibit concrete runs.\<close>

fun run_sched :: "nat list \<Rightarrow> barrier \<Rightarrow> barrier option" where
  "run_sched [] s = Some s"
| "run_sched (h # hs) s = (case smp_step h s of None \<Rightarrow> None | Some t \<Rightarrow> run_sched hs t)"

definition barrier_boot :: barrier where
  "barrier_boot = \<lparr>clint = \<lparr>pending = (\<lambda>_. False), mtime = 0, mtimecmp = (\<lambda>_. 0)\<rparr>,
                   mie_msip = (\<lambda>_. False), pc = (\<lambda>_. Pause)\<rparr>"

text \<open>Hart 0 broadcasts and waits, each secondary wakes and acknowledges, then
  every hart sweeps all five registers.\<close>

definition boot_schedule :: "nat list" where
  "boot_schedule =
     replicate 7 0 @ replicate 3 0 @ concat (map (\<lambda>h. replicate 4 h) [1, 2, 3, 4]) @
     concat (map (\<lambda>h. replicate 5 h) [0, 1, 2, 3, 4])"

section \<open>Lemmas\<close>

lemma ipi_loop_cond:
  assumes "k < MAX_HARTS"
  shows "(ipi_reg (Suc k) <s CLINT_END_HART_IPI) = (Suc k < MAX_HARTS)"
proof -
  have "k = 0 \<or> k = 1 \<or> k = 2 \<or> k = 3 \<or> k = 4" using assms by (auto simp: MAX_HARTS_def)
  then show ?thesis
    by (elim disjE) (simp_all add: ipi_reg_def CLINT_END_HART_IPI_def sbi_consts)
qed


lemma barrier_start_inv: "barrier_start s \<Longrightarrow> barrier_inv s"
  by (simp add: barrier_start_def barrier_inv_def core_inv_def sweep_inv_def bcast_pos_def sbi_consts)

lemma acked_woken: "acked p \<Longrightarrow> woken p"
  by (cases p) simp_all

lemma swept_acked: "0 < swept p \<Longrightarrow> acked p"
  by (cases p) (simp_all add: sbi_consts)

text \<open>The sweep invariant survives a step of hart \<open>h\<close> that acknowledges no one
  less and whose own sweep covers only acknowledged harts.\<close>

lemma sweep_inv_frame:
  assumes "sweep_inv s"
    and "\<forall>j. acked (pc s j) \<longrightarrow> acked (pc t j)"
    and "\<forall>j. j \<noteq> h \<longrightarrow> pc t j = pc s j"
    and "\<forall>j< swept (pc t h). acked (pc t j)"
  shows "sweep_inv t"
  unfolding sweep_inv_def
proof (intro allI impI)
  fix h' j assume "h' < MAX_HARTS" "j < swept (pc t h')"
  then show "acked (pc t j)"
    using assms by (cases "h' = h") (auto simp: sweep_inv_def)
qed

text \<open>The heart of the barrier: a hart in its sweep reads a clear bit only from a
  hart that has acknowledged.  Hart 0's bit is set first by the broadcast and
  cleared by hart 0 only after the broadcast is complete, so a sweep that passes
  hart 0 knows every bit has been set.\<close>

lemma sweep_passes_acked:
  assumes inv: "barrier_inv s" and h: "h < MAX_HARTS" and pch: "pc s h = Sweep k"
    and clear: "\<not> pending (clint s) k"
  shows "acked (pc s k)"
proof -
  have k: "k < MAX_HARTS" using inv h pch by (auto simp: barrier_inv_def core_inv_def)
  have "h < bcast_pos s" using inv h pch by (auto simp: barrier_inv_def core_inv_def)
  show ?thesis
  proof (cases k)
    case 0
    from \<open>h < bcast_pos s\<close> have "0 < bcast_pos s" by simp
    with 0 inv clear show ?thesis by (auto simp: barrier_inv_def core_inv_def)
  next
    case (Suc k')
    with inv h pch have "acked (pc s 0)" by (auto simp: barrier_inv_def sweep_inv_def)
    then have "bcast_pos s = MAX_HARTS"
      by (cases "pc s 0") (simp_all add: bcast_pos_def sbi_consts)
    with k inv clear show ?thesis by (auto simp: barrier_inv_def core_inv_def)
  qed
qed


lemma sweep_inv_step_simple:
  assumes "sweep_inv s" "\<not> acked (pc s h)" "pc t = (pc s)(h := p)" "swept p = 0"
  shows "sweep_inv t"
  by (rule sweep_inv_frame[OF assms(1), of t h]) (use assms in auto)

lemma barrier_inv_step_pause:
  assumes inv: "barrier_inv s" and h: "h < MAX_HARTS" and st: "smp_step h s = Some t"
    and pch: "pc s h = Pause"
  shows "barrier_inv t"
proof -
  have ci: "core_inv s" and si: "sweep_inv s" using inv by (simp_all add: barrier_inv_def)
  note Pause = pch
  with st have t: "t = s\<lparr>mie_msip := (mie_msip s)(h := True),
                     pc := (pc s)(h := if h = ZERO_HART then Init else Wfi)\<rparr>"
    by (simp add: smp_step_def)
  have "swept (if h = ZERO_HART then Init else Wfi) = 0" by simp
  then have "sweep_inv t" by (intro sweep_inv_step_simple[OF si]) (simp_all add: Pause t)
  moreover have "core_inv t"
  proof (cases "h = ZERO_HART")
    case True
    then have "bcast_pos s = 0" "bcast_pos t = 0" using Pause by (simp_all add: t bcast_pos_def)
    with ci True h show ?thesis
      unfolding core_inv_def \<open>bcast_pos s = 0\<close> \<open>bcast_pos t = 0\<close>
      by (auto simp: t dest: acked_woken)
  next
    case False
    then have bp: "bcast_pos t = bcast_pos s" by (simp add: t bcast_pos_def)
    show ?thesis using ci Pause h False unfolding core_inv_def bp by (auto simp: t)
  qed
  ultimately show ?thesis by (simp add: barrier_inv_def)
qed

lemma barrier_inv_step_init:
  assumes inv: "barrier_inv s" and h: "h < MAX_HARTS" and st: "smp_step h s = Some t"
    and pch: "pc s h = Init"
  shows "barrier_inv t"
proof -
  have ci: "core_inv s" and si: "sweep_inv s" using inv by (simp_all add: barrier_inv_def)
  note Init = pch
  with st have t: "t = s\<lparr>pc := (pc s)(h := Bcast 0)\<rparr>" by (simp add: smp_step_def)
  have h0: "h = ZERO_HART" using ci h Init by (auto simp: core_inv_def)
  have bp: "bcast_pos t = 0" "bcast_pos s = 0" using Init h0 by (simp_all add: t bcast_pos_def)
  have "sweep_inv t" by (rule sweep_inv_step_simple[OF si, where p = "Bcast 0"]) (simp_all add: Init t)
  moreover have "core_inv t" using ci Init h h0 unfolding core_inv_def bp
    by (auto simp: t sbi_consts)
  ultimately show ?thesis by (simp add: barrier_inv_def)
qed

lemma barrier_inv_step_bcast:
  assumes inv: "barrier_inv s" and h: "h < MAX_HARTS" and st: "smp_step h s = Some t"
    and pch: "pc s h = Bcast k"
  shows "barrier_inv t"
proof -
  have ci: "core_inv s" and si: "sweep_inv s" using inv by (simp_all add: barrier_inv_def)
  note Bcast = pch
  have h0: "h = ZERO_HART" and k: "k < MAX_HARTS" using ci h Bcast by (auto simp: core_inv_def)
  with st Bcast have t: "t = s\<lparr>clint := craise k (clint s),
                     pc := (pc s)(h := if Suc k < MAX_HARTS then Bcast (Suc k) else Wfi)\<rparr>"
    by (simp add: smp_step_def ipi_loop_cond)
  have bp: "bcast_pos t = Suc k" "bcast_pos s = k"
    using Bcast h0 k by (simp_all add: t bcast_pos_def sbi_consts)
  have p0: "0 < k \<Longrightarrow> pending (clint s) 0"
  proof -
    assume "0 < k"
    with ci bp(2) have "pending (clint s) 0 \<or> acked (pc s 0)" unfolding core_inv_def by blast
    with Bcast h0 show ?thesis by (simp add: sbi_consts)
  qed
  have "sweep_inv t" by (rule sweep_inv_step_simple[OF si, where p = "if Suc k < MAX_HARTS then Bcast (Suc k) else Wfi"]) (simp_all add: Bcast t)
  moreover have "core_inv t" using ci Bcast h h0 k p0 unfolding core_inv_def bp
    by (auto simp: t craise_def sbi_consts less_Suc_eq dest: acked_woken)
  ultimately show ?thesis by (simp add: barrier_inv_def)
qed

lemma barrier_inv_step_wfi:
  assumes inv: "barrier_inv s" and h: "h < MAX_HARTS" and st: "smp_step h s = Some t"
    and pch: "pc s h = Wfi"
  shows "barrier_inv t"
proof -
  have ci: "core_inv s" and si: "sweep_inv s" using inv by (simp_all add: barrier_inv_def)
  note Wfi = pch
  with st have t: "t = s\<lparr>pc := (pc s)(h := ChkMip)\<rparr>"
    by (simp add: smp_step_def split: if_splits)
  have bp: "bcast_pos t = bcast_pos s" using Wfi
    by (cases "h = ZERO_HART") (simp_all add: t bcast_pos_def)
  have "sweep_inv t" by (rule sweep_inv_step_simple[OF si, where p = ChkMip]) (simp_all add: Wfi t)
  moreover have "core_inv t" using ci Wfi h unfolding core_inv_def bp by (auto simp: t)
  ultimately show ?thesis by (simp add: barrier_inv_def)
qed

lemma barrier_inv_step_chkmip:
  assumes inv: "barrier_inv s" and h: "h < MAX_HARTS" and st: "smp_step h s = Some t"
    and pch: "pc s h = ChkMip"
  shows "barrier_inv t"
proof -
  have ci: "core_inv s" and si: "sweep_inv s" using inv by (simp_all add: barrier_inv_def)
  note ChkMip = pch
  with st have t: "t = s\<lparr>pc := (pc s)(h := if pending (clint s) h then ClearOwn else Wfi)\<rparr>"
    by (simp add: smp_step_def)
  have bp: "bcast_pos t = bcast_pos s" using ChkMip
    by (cases "h = ZERO_HART") (simp_all add: t bcast_pos_def)
  have "sweep_inv t" by (rule sweep_inv_step_simple[OF si, where p = "if pending (clint s) h then ClearOwn else Wfi"]) (simp_all add: ChkMip t)
  moreover have "core_inv t" using ci ChkMip h unfolding core_inv_def bp by (auto simp: t)
  ultimately show ?thesis by (simp add: barrier_inv_def)
qed

lemma barrier_inv_step_clearown:
  assumes inv: "barrier_inv s" and h: "h < MAX_HARTS" and st: "smp_step h s = Some t"
    and pch: "pc s h = ClearOwn"
  shows "barrier_inv t"
proof -
  have ci: "core_inv s" and si: "sweep_inv s" using inv by (simp_all add: barrier_inv_def)
  note ClearOwn = pch
  with st have t: "t = s\<lparr>clint := cclear h (clint s), pc := (pc s)(h := Sweep 0)\<rparr>"
    by (simp add: smp_step_def)
  have bp: "bcast_pos t = bcast_pos s" using ClearOwn
    by (cases "h = ZERO_HART") (simp_all add: t bcast_pos_def)
  have "sweep_inv t" by (rule sweep_inv_step_simple[OF si, where p = "Sweep 0"]) (simp_all add: ClearOwn t)
  moreover have "core_inv t" using ci ClearOwn h unfolding core_inv_def bp
    by (auto simp: t cclear_def)
  ultimately show ?thesis by (simp add: barrier_inv_def)
qed

lemma barrier_inv_step_sweep:
  assumes inv: "barrier_inv s" and h: "h < MAX_HARTS" and st: "smp_step h s = Some t"
    and pch: "pc s h = Sweep k"
  shows "barrier_inv t"
proof -
  have ci: "core_inv s" and si: "sweep_inv s" using inv by (simp_all add: barrier_inv_def)
  note Sweep = pch
  have k: "k < MAX_HARTS" using ci h Sweep by (auto simp: core_inv_def)
  show ?thesis
  proof (cases "pending (clint s) k")
    case True
    with st Sweep inv show ?thesis by (simp add: smp_step_def)
  next
    case False
    with st Sweep k have t: "t = s\<lparr>pc := (pc s)(h := if Suc k < MAX_HARTS then Sweep (Suc k) else Done)\<rparr>"
      by (simp add: smp_step_def ipi_loop_cond)
    have ak: "acked (pc s k)" using sweep_passes_acked[OF inv h Sweep False] .
    have bp: "bcast_pos t = bcast_pos s" using Sweep
    by (cases "h = ZERO_HART") (simp_all add: t bcast_pos_def)
    have prev: "\<forall>j<k. acked (pc s j)" using si h Sweep by (auto simp: sweep_inv_def)
    have all: "\<forall>j<Suc k. acked (pc s j)" using prev ak by (auto simp: less_Suc_eq)
    have "\<forall>j. j < swept (pc t h) \<longrightarrow> acked (pc t j)"
    proof (cases "Suc k < MAX_HARTS")
      case True
      with all show ?thesis by (auto simp: t)
    next
      case False
      with k have "MAX_HARTS = Suc k" by simp
      with all show ?thesis by (auto simp: t)
    qed
    then have "sweep_inv t" by (intro sweep_inv_frame[OF si, of t h]) (auto simp: t Sweep)
    moreover have "core_inv t" using ci Sweep h unfolding core_inv_def bp by (auto simp: t)
    ultimately show ?thesis by (simp add: barrier_inv_def)
  qed
qed

lemma barrier_inv_step:
  assumes inv: "barrier_inv s" and h: "h < MAX_HARTS" and st: "smp_step h s = Some t"
  shows "barrier_inv t"
proof (cases "pc s h")
  case Pause
  then show ?thesis by (rule barrier_inv_step_pause[OF inv h st])
next
  case Init
  then show ?thesis by (rule barrier_inv_step_init[OF inv h st])
next
  case (Bcast k)
  then show ?thesis by (rule barrier_inv_step_bcast[OF inv h st])
next
  case Wfi
  then show ?thesis by (rule barrier_inv_step_wfi[OF inv h st])
next
  case ChkMip
  then show ?thesis by (rule barrier_inv_step_chkmip[OF inv h st])
next
  case ClearOwn
  then show ?thesis by (rule barrier_inv_step_clearown[OF inv h st])
next
  case (Sweep k)
  then show ?thesis by (rule barrier_inv_step_sweep[OF inv h st])
next
  case Done
  with st show ?thesis by (simp add: smp_step_def)
qed

lemma barrier_reach_inv: "barrier_reach s \<Longrightarrow> barrier_inv s"
proof (induction rule: barrier_reach.induct)
  case (start s)
  then show ?case by (rule barrier_start_inv)
next
  case (step s t)
  from step.hyps(2) show ?case
  proof cases
    case (hart h)
    with step.IH show ?thesis by (rule barrier_inv_step)
  qed
qed


section \<open>Safety: the rendezvous\<close>

text \<open>C1. In every reachable state of the boot barrier, once any hart has finished
  smp_resume, every hart has cleared its own msip bit and no msip bit is
  pending.\<close>
theorem barrier_rendezvous:
  assumes "barrier_reach s" "h < MAX_HARTS" "pc s h = Done"
  shows "\<forall>j<MAX_HARTS. acked (pc s j) \<and> \<not> pending (clint s) j"
proof -
  have "barrier_inv s" using assms(1) by (rule barrier_reach_inv)
  with assms(2,3) show ?thesis by (auto simp: barrier_inv_def core_inv_def sweep_inv_def)
qed

section \<open>Progress and termination\<close>

lemma potential_less:
  assumes "h < MAX_HARTS" "pc t = (pc s)(h := p)" "rank (pc s h) < rank p"
    and "rank p \<le> 5 + 2 * MAX_HARTS"
  shows "potential t < potential s"
  unfolding potential_def
proof (rule sum_strict_mono_ex1)
  show "\<forall>j\<in>{..<MAX_HARTS}. 5 + 2 * MAX_HARTS - rank (pc t j) \<le> 5 + 2 * MAX_HARTS - rank (pc s j)"
    using assms by auto
  show "\<exists>j\<in>{..<MAX_HARTS}. 5 + 2 * MAX_HARTS - rank (pc t j) < 5 + 2 * MAX_HARTS - rank (pc s j)"
    using assms by (intro bexI[of _ h]) auto
qed simp

lemma pending_hart_advances:
  assumes ci: "core_inv s" and j: "j < MAX_HARTS" and p: "pending (clint s) j"
    and na: "\<not> acked (pc s j)" and nb: "pc s j \<noteq> Init" "\<forall>k. pc s j \<noteq> Bcast k"
  shows "\<exists>t. smp_step j s = Some t \<and> potential t < potential s"
proof (cases "pc s j")
  case Wfi
  have "mie_msip s j" using ci j Wfi by (auto simp: core_inv_def)
  with Wfi p show ?thesis by (auto simp: smp_step_def intro: potential_less[OF j])
qed (use na nb p in \<open>auto simp: smp_step_def intro: potential_less[OF j]\<close>)

lemma sweeping_hart_advances:
  assumes ci: "core_inv s" and j: "j < MAX_HARTS" and sw: "pc s j = Sweep k" and a: "acked (pc s k)"
  shows "\<exists>t. smp_step j s = Some t \<and> potential t < potential s"
proof -
  have k: "k < MAX_HARTS" using ci j sw by (auto simp: core_inv_def)
  have "\<not> pending (clint s) k" using ci a by (auto simp: core_inv_def)
  with sw k show ?thesis by (auto simp: smp_step_def ipi_loop_cond intro: potential_less[OF j])
qed

lemma hart0_early_advances:
  assumes ci: "core_inv s"
    and early: "pc s ZERO_HART = Pause \<or> pc s ZERO_HART = Init \<or> (\<exists>k. pc s ZERO_HART = Bcast k)"
  shows "\<exists>t. smp_step ZERO_HART s = Some t \<and> potential t < potential s"
proof -
  have z: "ZERO_HART < MAX_HARTS" by (simp add: sbi_consts)
  from early show ?thesis
  proof (elim disjE exE)
    fix k assume Bk: "pc s ZERO_HART = Bcast k"
    have k: "k < MAX_HARTS" using ci z Bk by (auto simp: core_inv_def)
    with Bk show ?thesis by (auto simp: smp_step_def ipi_loop_cond intro: potential_less[OF z])
  qed (auto simp: smp_step_def intro: potential_less[OF z])
qed

text \<open>After the broadcast, an unacknowledged hart has its bit set and can move;
  otherwise a hart not yet through is sweeping past an acknowledged hart.\<close>

lemma late_progress:
  assumes ci: "core_inv s" and late: "bcast_pos s = MAX_HARTS" and nd: "\<not> barrier_done s"
  shows "\<exists>h<MAX_HARTS. \<exists>t. smp_step h s = Some t \<and> potential t < potential s"
proof (cases "\<exists>j<MAX_HARTS. \<not> acked (pc s j)")
  case True
  then obtain j where j: "j < MAX_HARTS" "\<not> acked (pc s j)" by blast
  with ci late have p: "pending (clint s) j" by (auto simp: core_inv_def)
  have "pc s j \<noteq> Init \<and> (\<forall>k. pc s j \<noteq> Bcast k)"
  proof (cases "j = ZERO_HART")
    case True
    have "pc_ok ZERO_HART (pc s ZERO_HART)" using ci by (simp add: core_inv_def sbi_consts)
    with True late show ?thesis by (cases "pc s j") (auto simp: bcast_pos_def sbi_consts)
  next
    case False
    with ci j show ?thesis by (auto simp: core_inv_def dest: spec[of _ j])
  qed
  with pending_hart_advances[OF ci j(1) p j(2)] j show ?thesis by blast
next
  case False
  from nd obtain j where j: "j < MAX_HARTS" "pc s j \<noteq> Done" by (auto simp: barrier_done_def)
  with False obtain k where sw: "pc s j = Sweep k" by (cases "pc s j") auto
  have "k < MAX_HARTS" using ci j sw by (auto simp: core_inv_def)
  with False have "acked (pc s k)" by blast
  with sweeping_hart_advances[OF ci j(1) sw] j show ?thesis by blast
qed

text \<open>In every state of the barrier some hart can make a step that increases its
  rank, unless all harts are through.\<close>

lemma barrier_progress:
  assumes inv: "barrier_inv s" and nd: "\<not> barrier_done s"
  shows "\<exists>h<MAX_HARTS. \<exists>t. smp_step h s = Some t \<and> potential t < potential s"
proof -
  have ci: "core_inv s" using inv by (simp add: barrier_inv_def)
  have z: "ZERO_HART < MAX_HARTS" by (simp add: sbi_consts)
  consider (early) "pc s ZERO_HART = Pause \<or> pc s ZERO_HART = Init \<or> (\<exists>k. pc s ZERO_HART = Bcast k)"
    | (late) "bcast_pos s = MAX_HARTS"
    by (cases "pc s ZERO_HART") (auto simp: bcast_pos_def)
  then show ?thesis
  proof cases
    case early
    with hart0_early_advances[OF ci] z show ?thesis by blast
  next
    case late
    with late_progress[OF ci _ nd] show ?thesis by blast
  qed
qed


lemma barrier_inv_completes:
  "barrier_inv s \<Longrightarrow> \<exists>t. barrier_step\<^sup>*\<^sup>* s t \<and> barrier_done t"
proof (induction "potential s" arbitrary: s rule: less_induct)
  case less
  show ?case
  proof (cases "barrier_done s")
    case True
    then show ?thesis by blast
  next
    case False
    from barrier_progress[OF less.prems False] obtain h t
      where h: "h < MAX_HARTS" and st: "smp_step h s = Some t" and lt: "potential t < potential s"
      by blast
    have "barrier_step s t" using h st by (rule barrier_step.hart)
    moreover have "barrier_inv t" using less.prems h st by (rule barrier_inv_step)
    with lt obtain u where "barrier_step\<^sup>*\<^sup>* t u" "barrier_done u" using less.hyps by blast
    ultimately show ?thesis by (meson converse_rtranclp_into_rtranclp)
  qed
qed

text \<open>C2. From every reachable state of the boot barrier some interleaving of hart
  steps brings all five harts past smp_resume.\<close>
theorem barrier_terminates:
  "barrier_reach s \<Longrightarrow> \<exists>t. barrier_step\<^sup>*\<^sup>* s t \<and> barrier_done t"
  by (rule barrier_inv_completes[OF barrier_reach_inv])

lemma run_sched_reach:
  "run_sched hs s = Some t \<Longrightarrow> barrier_reach s \<Longrightarrow> \<forall>h\<in>set hs. h < MAX_HARTS \<Longrightarrow> barrier_reach t"
proof (induction hs arbitrary: s)
  case Nil
  then show ?case by simp
next
  case (Cons h hs)
  then obtain u where u: "smp_step h s = Some u" and rest: "run_sched hs u = Some t"
    by (auto split: option.splits)
  have "barrier_reach u" using Cons.prems(2) barrier_step.hart[OF _ u] Cons.prems(3)
    by (auto intro: barrier_reach.step)
  with rest Cons.prems(3) show ?case by (intro Cons.IH) auto
qed

lemma barrier_boot_start: "barrier_start barrier_boot"
  by (simp add: barrier_start_def barrier_boot_def)


section \<open>The \<open>msip\<close> bits in every reachable state\<close>

text \<open>C3. In every reachable state of the boot barrier, hart h's msip bit is pending
  exactly when hart 0's broadcast has already stored to it and hart h has not
  yet cleared it.\<close>
theorem barrier_msip_exact:
  assumes "barrier_reach s" "h < MAX_HARTS"
  shows "pending (clint s) h \<longleftrightarrow> h < bcast_pos s \<and> \<not> acked (pc s h)"
proof -
  have "core_inv s" using barrier_reach_inv[OF assms(1)] by (simp add: barrier_inv_def)
  then show ?thesis unfolding core_inv_def by blast
qed

theorem barrier_no_deadlock:
  assumes "barrier_reach s" "\<not> barrier_done s"
  shows "\<exists>t. barrier_step s t"
proof -
  from barrier_progress[OF barrier_reach_inv[OF assms(1)] assms(2)]
  obtain h t where "h < MAX_HARTS" "smp_step h s = Some t" by blast
  then show ?thesis by (blast intro: barrier_step.hart)
qed

text \<open>A hart whose \<open>mie.MSIE\<close> is clear sleeps in \<open>wfi\<close> even with its bit set:
  why \<open>smp_pause\<close> unmasks before the wait.\<close>

theorem wfi_masked_sleeps:
  "pc s h = Wfi \<Longrightarrow> \<not> mie_msip s h \<Longrightarrow> smp_step h s = None"
  by (simp add: smp_step_def)

section \<open>Witnesses\<close>

lemma boot_schedule_run:
  "\<exists>t. run_sched boot_schedule barrier_boot = Some t \<and> barrier_done t"
  by (simp add: boot_schedule_def barrier_boot_def smp_step_def craise_def cclear_def ipi_reg_def
      CLINT_END_HART_IPI_def barrier_done_def sbi_consts numeral_eq_Suc)

lemma boot_schedule_harts: "\<forall>h\<in>set boot_schedule. h < MAX_HARTS"
  by (simp add: boot_schedule_def sbi_consts)

theorem barrier_rendezvous_witness:
  "\<exists>t. barrier_reach t \<and> pc t ZERO_HART = Done \<and>
       (\<forall>j<MAX_HARTS. acked (pc t j) \<and> \<not> pending (clint t) j)"
proof -
  obtain t where run: "run_sched boot_schedule barrier_boot = Some t" and d: "barrier_done t"
    using boot_schedule_run by blast
  have r: "barrier_reach t"
    using run_sched_reach[OF run barrier_reach.start[OF barrier_boot_start] boot_schedule_harts] .
  have z: "ZERO_HART < MAX_HARTS" and p0: "pc t ZERO_HART = Done"
    using d by (simp_all add: barrier_done_def sbi_consts)
  show ?thesis using barrier_rendezvous[OF r z p0] r p0 by blast
qed

theorem barrier_terminates_witness:
  "\<exists>t. barrier_step\<^sup>*\<^sup>* barrier_boot t \<and> barrier_done t"
  by (rule barrier_terminates[OF barrier_reach.start[OF barrier_boot_start]])

theorem barrier_msip_exact_witness:
  "pending (clint barrier_boot) 2 \<longleftrightarrow> 2 < bcast_pos barrier_boot \<and> \<not> acked (pc barrier_boot 2)"
  by (rule barrier_msip_exact[OF barrier_reach.start[OF barrier_boot_start]]) (simp add: sbi_consts)

theorem barrier_no_deadlock_witness: "\<exists>t. barrier_step barrier_boot t"
proof (rule barrier_no_deadlock[OF barrier_reach.start[OF barrier_boot_start]])
  have "pc barrier_boot 0 \<noteq> Done" by (simp add: barrier_boot_def)
  then show "\<not> barrier_done barrier_boot"
    unfolding barrier_done_def by (intro notI) (drule spec[of _ 0], simp add: sbi_consts)
qed

theorem wfi_masked_sleeps_witness:
  "smp_step 1 (barrier_boot\<lparr>clint := craise 1 (clint barrier_boot), pc := (\<lambda>_. Wfi)\<rparr>) = None"
  by (rule wfi_masked_sleeps) (simp_all add: barrier_boot_def)

end
