(* ===== verification/Strings.thy ===== *)
theory Strings
  imports Prelude
begin

text \<open>
  The memory routines of \<open>src/sbi/libs/string.c\<close> over byte memory:
  \<open>strlen\<close>, \<open>memset\<close>, \<open>memmove\<close>, \<open>memcpy\<close> and \<open>memcmp\<close>.  Pointers are
  64-bit addresses and \<open>size_t\<close> is \<open>u64\<close>, so pointer arithmetic wraps as
  on the hardware.  Each routine is shown to compute the reference operation
  on byte regions (\<open>read_bytes\<close>/\<open>write_bytes\<close>): the length of a C string,
  a filled region, a copy, and the lexicographic comparison of two regions.
  The copy theorems carry the overlap and address-space conditions under
  which the loops are a copy.  The other functions \<open>string.h\<close> declares
  (\<open>strnlen\<close>, \<open>strcpy\<close>, ...) have no definition in the repository.
\<close>

section \<open>The routines\<close>

text \<open>\<open>strlen\<close> (\<open>string.c\<close> lines 10--14).  The loop reads byte after byte and
  counts in a \<open>size_t\<close>; over a memory with no zero byte it never stops, so
  it is a partial function whose non-termination is the value \<open>None\<close>.\<close>

partial_function (option) strlen_loop :: "memory \<Rightarrow> addr \<Rightarrow> u64 \<Rightarrow> u64 option" where
  "strlen_loop m s cnt = (if m s \<noteq> 0 then strlen_loop m (s + 1) (cnt + 1) else Some cnt)"

definition strlen :: "memory \<Rightarrow> addr \<Rightarrow> u64 option" where
  "strlen m s = strlen_loop m s 0"

text \<open>\<open>memset\<close> (lines 16--20): \<open>while (n-- > 0) *p++ = c\<close> runs exactly
  \<open>unat n\<close> times; the routine returns its first argument.\<close>

fun memset_loop :: "memory \<Rightarrow> addr \<Rightarrow> u8 \<Rightarrow> nat \<Rightarrow> memory" where
  "memset_loop m p c 0 = m"
| "memset_loop m p c (Suc n) = memset_loop (m(p := c)) (p + 1) c n"

definition memset :: "memory \<Rightarrow> addr \<Rightarrow> u8 \<Rightarrow> u64 \<Rightarrow> addr \<times> memory" where
  "memset m s c n = (s, memset_loop m s c (unat n))"

text \<open>The two copy loops: \<open>*d++ = *s++\<close> (memcpy, lines 37--39, and the
  second branch of memmove, line 29) and \<open>*--d = *--s\<close> from the end pointers
  (memmove, line 27).\<close>

fun copy_fwd :: "memory \<Rightarrow> addr \<Rightarrow> addr \<Rightarrow> nat \<Rightarrow> memory" where
  "copy_fwd m d s 0 = m"
| "copy_fwd m d s (Suc n) = copy_fwd (m(d := m s)) (d + 1) (s + 1) n"

fun copy_bwd :: "memory \<Rightarrow> addr \<Rightarrow> addr \<Rightarrow> nat \<Rightarrow> memory" where
  "copy_bwd m d s 0 = m"
| "copy_bwd m d s (Suc n) = copy_bwd (m(d - 1 := m (s - 1))) (d - 1) (s - 1) n"

text \<open>\<open>memmove\<close> (lines 22--32) copies backwards exactly when the source
  starts below the destination and, by the wrapping pointer comparison
  \<open>s + n > d\<close>, reaches past it.\<close>

definition memmove :: "memory \<Rightarrow> addr \<Rightarrow> addr \<Rightarrow> u64 \<Rightarrow> addr \<times> memory" where
  "memmove m dst src n =
     (if src < dst \<and> src + n > dst
      then (dst, copy_bwd m (dst + n) (src + n) (unat n))
      else (dst, copy_fwd m dst src (unat n)))"

definition memcpy :: "memory \<Rightarrow> addr \<Rightarrow> addr \<Rightarrow> u64 \<Rightarrow> addr \<times> memory" where
  "memcpy m dst src n = (dst, copy_fwd m dst src (unat n))"

text \<open>\<open>memcmp\<close> (lines 43--53): at the first differing byte it returns the
  difference of the two bytes as unsigned chars, promoted to \<open>int\<close>.\<close>

fun memcmp_loop :: "memory \<Rightarrow> addr \<Rightarrow> addr \<Rightarrow> nat \<Rightarrow> int" where
  "memcmp_loop m s1 s2 0 = 0"
| "memcmp_loop m s1 s2 (Suc n) =
     (if m s1 \<noteq> m s2 then uint (m s1) - uint (m s2) else memcmp_loop m (s1 + 1) (s2 + 1) n)"

definition memcmp :: "memory \<Rightarrow> addr \<Rightarrow> addr \<Rightarrow> u64 \<Rightarrow> int" where
  "memcmp m v1 v2 n = memcmp_loop m v1 v2 (unat n)"

section \<open>Loop lemmas and properties\<close>

lemma strlen_loop_returns:
  "m (addr_at s n) = 0 \<Longrightarrow> \<forall>i<n. m (addr_at s i) \<noteq> 0 \<Longrightarrow>
   strlen_loop m s cnt = Some (cnt + word_of_nat n)"
proof (induction n arbitrary: s cnt)
  case 0
  then show ?case by (simp add: strlen_loop.simps addr_at_def)
next
  case (Suc n)
  have "m s \<noteq> 0" using Suc.prems(2)[rule_format, of 0] by (simp add: addr_at_def)
  moreover have "strlen_loop m (s + 1) (cnt + 1) = Some (cnt + 1 + word_of_nat n)"
    using Suc.prems by (intro Suc.IH) (auto simp: addr_at_Suc[symmetric])
  ultimately show ?case by (simp add: strlen_loop.simps algebra_simps)
qed

lemma strlen_loop_result:
  assumes "strlen_loop m s cnt = Some r"
  shows "m (s + (r - cnt)) = 0 \<and> (\<forall>j<unat (r - cnt). m (addr_at s j) \<noteq> 0)"
proof (rule strlen_loop.raw_induct[where P =
    "\<lambda>m s cnt r. m (s + (r - cnt)) = 0 \<and> (\<forall>j<unat (r - cnt). m (addr_at s j) \<noteq> 0)",
    OF _ assms])
  fix f :: "memory \<Rightarrow> addr \<Rightarrow> u64 \<Rightarrow> u64 option" and m s cnt r
  assume IH: "\<And>m s cnt r. f m s cnt = Some r \<Longrightarrow>
                m (s + (r - cnt)) = 0 \<and> (\<forall>j<unat (r - cnt). m (addr_at s j) \<noteq> 0)"
    and step: "(if m s \<noteq> 0 then f m (s + 1) (cnt + 1) else Some cnt) = Some r"
  show "m (s + (r - cnt)) = 0 \<and> (\<forall>j<unat (r - cnt). m (addr_at s j) \<noteq> 0)"
  proof (cases "m s = 0")
    case True
    then show ?thesis using step by simp
  next
    case False
    with step have "f m (s + 1) (cnt + 1) = Some r" by simp
    then have z1: "m (s + 1 + (r - (cnt + 1))) = 0"
         and IH2: "\<forall>j<unat (r - (cnt + 1)). m (addr_at (s + 1) j) \<noteq> 0" using IH by blast+
    from z1 have z: "m (s + (r - cnt)) = 0" by (simp add: algebra_simps)
    with False have "r - cnt \<noteq> 0" by auto
    moreover from this have "0 < unat (r - cnt)" by (simp add: unat_gt_0)
    ultimately have u: "unat (r - cnt) = Suc (unat (r - (cnt + 1)))"
      by (simp add: diff_diff_eq[symmetric] unat_minus_one)
    have "\<forall>j<unat (r - cnt). m (addr_at s j) \<noteq> 0"
    proof (intro allI impI)
      fix j assume "j < unat (r - cnt)"
      then show "m (addr_at s j) \<noteq> 0" using False IH2 u
        by (cases j) (simp add: addr_at_def, simp add: addr_at_Suc)
    qed
    with z show ?thesis by blast
  qed
qed

text \<open>C21. strlen returns r exactly when the byte at s + r is zero and the r bytes
  before it are not.\<close>
theorem strlen_spec:
  "strlen m s = Some r \<longleftrightarrow> m (s + r) = 0 \<and> (\<forall>j<unat r. m (addr_at s j) \<noteq> 0)"
proof
  assume "strlen m s = Some r"
  then show "m (s + r) = 0 \<and> (\<forall>j<unat r. m (addr_at s j) \<noteq> 0)"
    using strlen_loop_result[of m s 0 r] by (simp add: strlen_def)
next
  assume "m (s + r) = 0 \<and> (\<forall>j<unat r. m (addr_at s j) \<noteq> 0)"
  then show "strlen m s = Some r"
    using strlen_loop_returns[of m s "unat r" 0] by (simp add: strlen_def addr_at_def)
qed

text \<open>C22. If some byte at most n < 2^64 bytes after s is zero, strlen returns, with
  a result at most n.\<close>
theorem strlen_terminates:
  assumes "m (addr_at s n) = 0" "n < 2 ^ 64"
  shows "\<exists>r. strlen m s = Some r \<and> unat r \<le> n"
proof -
  define k where "k = (LEAST k. m (addr_at s k) = 0)"
  have k: "m (addr_at s k) = 0" "k \<le> n"
    using assms(1) unfolding k_def by (auto intro: LeastI Least_le)
  have "\<forall>i<k. m (addr_at s i) \<noteq> 0" unfolding k_def using not_less_Least by blast
  with k have "strlen m s = Some (word_of_nat k)"
    using strlen_loop_returns[of m s k 0] by (simp add: strlen_def)
  moreover have "unat (word_of_nat k :: u64) = k" using k assms(2) by (simp add: unat_of_nat_small)
  ultimately show ?thesis using k by auto
qed

theorem strlen_cstring:
  assumes "0 \<notin> set bs" "length bs < 2 ^ 64"
  shows "strlen (write_bytes m p (bs @ [0])) p = Some (word_of_nat (length bs))"
proof -
  have w: "write_bytes m p (bs @ [0]) (addr_at p i) = (bs @ [0]) ! i" if "i \<le> length bs" for i
    using that assms(2) by (intro write_bytes_at) simp_all
  have "\<forall>i<length bs. write_bytes m p (bs @ [0]) (addr_at p i) \<noteq> 0"
    using w assms(1) nth_mem by (fastforce simp: nth_append)
  moreover have "write_bytes m p (bs @ [0]) (addr_at p (length bs)) = 0" using w by simp
  ultimately show ?thesis using strlen_loop_returns by (simp add: strlen_def)
qed

lemma memset_loop_write_bytes:
  "memset_loop m p c k = write_bytes m p (replicate k c)"
proof (induction k arbitrary: m p)
  case (Suc k)
  then show ?case
    by (auto simp: write_bytes_replicate fun_eq_iff in_region_Suc simp del: replicate_Suc)
qed (simp add: write_bytes_replicate in_region_def)

lemma copy_fwd_write_bytes:
  assumes "k < 2 ^ 64" "\<forall>i<k. \<forall>j<i. addr_at d j \<noteq> addr_at s i"
  shows "copy_fwd m d s k = write_bytes m d (read_bytes m s k)"
  using assms
proof (induction k arbitrary: m d s)
  case (Suc k)
  have "addr_at s (Suc i) \<noteq> addr_at d 0" if "i < k" for i
    using Suc.prems(2)[rule_format, of "Suc i" 0] that by simp
  then have "\<forall>i<k. addr_at (s + 1) i \<noteq> d" by (simp add: addr_at_Suc[symmetric]) (simp add: addr_at_def)
  then have "read_bytes (m(d := m s)) (s + 1) k = read_bytes m (s + 1) k"
    by (intro read_bytes_upd_other) auto
  moreover have "\<forall>i<k. \<forall>j<i. addr_at (d + 1) j \<noteq> addr_at (s + 1) i"
    using Suc.prems(2) by (simp add: addr_at_Suc[symmetric])
  ultimately show ?case using Suc by (simp add: read_bytes_Suc write_bytes_Cons)
qed simp

lemma copy_bwd_write_bytes:
  assumes "k < 2 ^ 64" "\<forall>j<k. \<forall>i<j. addr_at d j \<noteq> addr_at s i"
  shows "copy_bwd m (addr_at d k) (addr_at s k) k = write_bytes m d (read_bytes m s k)"
  using assms
proof (induction k arbitrary: m)
  case (Suc k)
  have d: "addr_at d (Suc k) - 1 = addr_at d k" "addr_at s (Suc k) - 1 = addr_at s k"
    by (simp_all add: addr_at_def)
  have "\<forall>i<k. addr_at s i \<noteq> addr_at d k" using Suc.prems(2) by (metis lessI)
  then have "read_bytes (m(addr_at d k := m (addr_at s k))) s k = read_bytes m s k"
    by (intro read_bytes_upd_other) auto
  then show ?case using Suc by (simp add: d read_bytes_snoc write_bytes_snoc)
qed simp

text \<open>C23. When neither region wraps past the top of the address space, memmove
  writes the n source bytes to the destination, for every overlap of the two
  regions.\<close>
theorem memmove_copies:
  assumes "unat dst + unat n \<le> 2 ^ 64" "unat src + unat n \<le> 2 ^ 64"
  shows "memmove m dst src n = (dst, write_bytes m dst (read_bytes m src (unat n)))"
proof -
  have k: "unat n < 2 ^ 64" using unat_u64_less[of n] by simp
  have eq: "addr_at dst j = addr_at src i \<longleftrightarrow> unat dst + j = unat src + i"
    if "j < unat n" "i < unat n" for i j
    using that assms by (intro addr_at_eq_iff) linarith+
  show ?thesis
  proof (cases "src < dst \<and> src + n > dst")
    case True
    then have "unat src < unat dst" by (simp add: word_less_nat_alt)
    then have "\<forall>j<unat n. \<forall>i<j. addr_at dst j \<noteq> addr_at src i" using eq by auto
    with True k show ?thesis
      by (simp add: memmove_def copy_bwd_write_bytes[symmetric] del: addr_at_unat) (simp add: addr_at_def)
  next
    case False
    have "\<forall>i<unat n. \<forall>j<i. addr_at dst j \<noteq> addr_at src i"
    proof (intro allI impI notI)
      fix i j assume ij: "i < unat n" "j < i" and a: "addr_at dst j = addr_at src i"
      then have nat: "unat dst + j = unat src + i" using eq by simp
      then have "src < dst" using ij by (simp add: word_less_nat_alt)
      moreover have "unat (src + n) = unat src + unat n"
        using assms nat ij unat_addr_at[of src "unat n"] by simp
      then have "dst < src + n" using nat ij by (simp add: word_less_nat_alt)
      ultimately show False using False by simp
    qed
    with k show ?thesis unfolding memmove_def if_not_P[OF False] by (simp add: copy_fwd_write_bytes)
  qed
qed

text \<open>C24. When the source bytes lie outside the destination region, memcpy writes
  the n source bytes to the destination.\<close>
theorem memcpy_copies:
  assumes "\<forall>i<unat n. \<not> in_region (addr_at src i) dst (unat n)"
  shows "memcpy m dst src n = (dst, write_bytes m dst (read_bytes m src (unat n)))"
proof -
  have "in_region (addr_at dst j) dst (unat n)" if "j < unat n" for j
    using that unat_u64_less[of n] by (simp add: in_region_def addr_at_def unat_of_nat_small)
  then have "\<forall>i<unat n. \<forall>j<i. addr_at dst j \<noteq> addr_at src i"
    using assms by (metis order.strict_trans)
  then show ?thesis using unat_u64_less[of n] by (simp add: memcpy_def copy_fwd_write_bytes)
qed

lemma memcmp_loop_zero:
  "memcmp_loop m a b k = 0 \<longleftrightarrow> read_bytes m a k = read_bytes m b k"
  by (induction k arbitrary: a b) (auto simp: read_bytes_Suc word_uint_eq_iff)

lemma memcmp_loop_neg:
  "memcmp_loop m a b k < 0 \<longleftrightarrow> ord_class.lexordp (read_bytes m a k) (read_bytes m b k)"
  by (induction k arbitrary: a b) (auto simp: read_bytes_Suc word_less_def word_uint_eq_iff)

lemma memcmp_loop_bounds:
  "- 255 \<le> memcmp_loop m a b k \<and> memcmp_loop m a b k \<le> 255"
proof (induction k arbitrary: a b)
  case (Suc k)
  have "uint (m a) < 256" "uint (m b) < 256" using uint_lt2p[of "m a"] uint_lt2p[of "m b"] by simp_all
  with Suc show ?case by (simp add: uint_ge_0) (smt (verit) uint_ge_0)
qed simp

theorem memmove_top_wrap:
  "snd (memmove (\<lambda>x. if x = - 2 then 1 else if x = - 1 then 2 else 0) (- 1) (- 2) 2) 0 = 1 \<and>
   write_bytes (\<lambda>x. if x = - 2 then 1 else if x = - 1 then 2 else 0) (- 1)
     (read_bytes (\<lambda>x. if x = - 2 then 1 else if x = - 1 then 2 else 0) (- 2) 2) 0 = 2"
proof -
  have "unat (2 :: u64) = Suc (Suc 0)" by simp
  then show ?thesis
    by (simp add: memmove_def read_bytes_def write_bytes_def in_region_def numeral_2_eq_2)
qed

theorem memset_fills:
  "memset m s c n = (s, write_bytes m s (replicate (unat n) c))"
  by (simp add: memset_def memset_loop_write_bytes)

text \<open>C25. memcmp returns 0 exactly when the two n-byte regions hold the same bytes.\<close>
theorem memcmp_zero_iff:
  "memcmp m v1 v2 n = 0 \<longleftrightarrow> read_bytes m v1 (unat n) = read_bytes m v2 (unat n)"
  by (simp add: memcmp_def memcmp_loop_zero)

text \<open>C26. memcmp returns a negative value exactly when the first region is
  lexicographically smaller, bytes compared as unsigned.\<close>
theorem memcmp_lex_order:
  "memcmp m v1 v2 n < 0 \<longleftrightarrow> ord_class.lexordp (read_bytes m v1 (unat n)) (read_bytes m v2 (unat n))"
  by (simp add: memcmp_def memcmp_loop_neg)

theorem memcmp_range:
  "- 255 \<le> memcmp m v1 v2 n \<and> memcmp m v1 v2 n \<le> 255"
  by (simp add: memcmp_def memcmp_loop_bounds)

section \<open>Witnesses\<close>

theorem strlen_spec_witness:
  "strlen ((\<lambda>_. 0)(0x100 := 0x68, 0x101 := 0x69)) 0x100 = Some 2"
proof -
  have "\<forall>j<unat (2 :: u64). ((\<lambda>_. 0)(0x100 := 0x68, 0x101 := 0x69)) (addr_at 0x100 j) \<noteq> (0 :: u8)"
  proof (intro allI impI)
    fix j assume "j < unat (2 :: u64)"
    then have "j = 0 \<or> j = 1" by auto
    then show "((\<lambda>_. 0)(0x100 := 0x68, 0x101 := 0x69)) (addr_at 0x100 j) \<noteq> (0 :: u8)"
      by (auto simp: addr_at_def)
  qed
  then show ?thesis using strlen_spec[where m = "(\<lambda>_. 0)(0x100 := 0x68, 0x101 := 0x69)" and s = "0x100" and r = 2]
    by simp
qed

theorem strlen_terminates_witness:
  "\<exists>r. strlen ((\<lambda>_. 0)(0x100 := 0x68)) 0x100 = Some r \<and> unat r \<le> 1"
  using strlen_terminates[where m = "(\<lambda>_. 0)(0x100 := 0x68)" and s = "0x100" and n = 1]
  by (simp add: addr_at_def)

theorem strlen_cstring_witness:
  "strlen (write_bytes (\<lambda>_. 0) SMP_ADDR ([0x68, 0x69] @ [0])) SMP_ADDR = Some 2"
  using strlen_cstring[where bs = "[0x68, 0x69]" and m = "\<lambda>_. 0" and p = SMP_ADDR] by simp

theorem memmove_copies_witness:
  "memmove (\<lambda>x. ucast x) 0x101 0x100 2 =
     (0x101, write_bytes (\<lambda>x. ucast x) 0x101 (read_bytes (\<lambda>x. ucast x) 0x100 2))"
  using memmove_copies[where dst = "0x101" and n = 2 and src = "0x100" and m = "\<lambda>x. ucast x"] by simp

theorem memcpy_copies_witness:
  "memcpy (\<lambda>x. ucast x) 0x200 0x100 2 =
     (0x200, write_bytes (\<lambda>x. ucast x) 0x200 (read_bytes (\<lambda>x. ucast x) 0x100 2))"
proof -
  have "\<forall>i<unat (2 :: u64). \<not> in_region (addr_at 0x100 i) 0x200 (unat (2 :: u64))"
  proof (intro allI impI)
    fix i assume "i < unat (2 :: u64)"
    then have "i = 0 \<or> i = 1" by auto
    then show "\<not> in_region (addr_at 0x100 i) 0x200 (unat (2 :: u64))"
      by (auto simp: addr_at_def in_region_def)
  qed
  then show ?thesis using memcpy_copies[where n = 2 and src = "0x100" and dst = "0x200"] by simp
qed

end
