(* ===== verification/UART.thy ===== *)
theory UART
  imports IO
begin

text \<open>
  The SiFive-style UART driver of \<open>src/sbi/devices/uart/uart.c\<close>.  Register
  stores go through the fenced accessors of theory \<open>IO\<close>.  The values a
  device register returns are not memory: successive reads of \<open>RXDATA\<close> or
  \<open>TXDATA\<close> return whatever the device reports, so the read-side routines are
  modelled on the value a read returns (\<open>uart_getc_val\<close>) and, in theory
  \<open>Console\<close>, on the sequence of values successive reads return.  The pure
  routines \<open>uart_min_clk_divisor\<close> and \<open>uart_put_hex\<close> are translated
  directly; \<open>uart_puts\<close> emits the bytes of a NUL-terminated string in memory.
\<close>

section \<open>Registers\<close>

definition UART_REG_TXDATA :: u32 where [sbi_consts]: "UART_REG_TXDATA = 0"
definition UART_REG_RXDATA :: u32 where [sbi_consts]: "UART_REG_RXDATA = 1"
definition UART_REG_TXCTRL :: u32 where [sbi_consts]: "UART_REG_TXCTRL = 2"
definition UART_REG_RXCTRL :: u32 where [sbi_consts]: "UART_REG_RXCTRL = 3"
definition UART_REG_IE :: u32 where [sbi_consts]: "UART_REG_IE = 4"
definition UART_REG_DIV :: u32 where [sbi_consts]: "UART_REG_DIV = 6"

definition UART_TXDATA_FULL :: u32 where [sbi_consts]: "UART_TXDATA_FULL = 0x80000000"
definition UART_RXDATA_EMPTY :: u32 where [sbi_consts]: "UART_RXDATA_EMPTY = 0x80000000"
definition UART_RXDATA_MASK :: u32 where [sbi_consts]: "UART_RXDATA_MASK = 0xff"
definition UART_TXCTRL_TXEN :: u32 where [sbi_consts]: "UART_TXCTRL_TXEN = 1"
definition UART_RXCTRL_RXEN :: u32 where [sbi_consts]: "UART_RXCTRL_RXEN = 1"

text \<open>The driver's statics \<open>uart_base\<close>, \<open>uart_in_freq\<close>, \<open>uart_baudrate\<close>.\<close>

record uart_state = machine +
  uart_base :: addr
  uart_in_freq :: u32
  uart_baudrate :: u32

text \<open>\<open>uart_base + (i << 2)\<close>: the shift is done in \<open>uint32_t\<close>, the sum in
  (byte-addressed) pointer arithmetic.\<close>

definition uart_reg_addr :: "addr \<Rightarrow> u32 \<Rightarrow> addr" where
  "uart_reg_addr base i = base + ucast (push_bit 2 i)"

definition get_reg :: "u32 \<Rightarrow> 'a uart_state_scheme \<Rightarrow> u32 \<times> 'a uart_state_scheme" where
  "get_reg i s = readw (uart_reg_addr (uart_base s) i) s"

definition set_reg :: "u32 \<Rightarrow> u32 \<Rightarrow> 'a uart_state_scheme \<Rightarrow> 'a uart_state_scheme" where
  "set_reg i v s = writew v (uart_reg_addr (uart_base s) i) s"

section \<open>Driver routines\<close>

definition uart_min_clk_divisor :: "u64 \<Rightarrow> u64 \<Rightarrow> u32" where
  "uart_min_clk_divisor in_freq max_target_hz =
     (let quotient = (in_freq + max_target_hz - 1) div max_target_hz
      in if quotient = 0 then 0 else ucast (quotient - 1))"

text \<open>\<open>uart_getc\<close> after its read of \<open>RXDATA\<close>: the received byte, or \<open>-1\<close>
  when the FIFO is empty.\<close>

definition uart_getc_val :: "u32 \<Rightarrow> int" where
  "uart_getc_val reg =
     (if reg AND UART_RXDATA_EMPTY = 0 then uint (reg AND UART_RXDATA_MASK) else - 1)"

text \<open>\<open>uart_putc\<close> (lines 33--37): poll \<open>TXDATA\<close> until the device no longer
  reports a full FIFO, then store the character.  \<open>tx\<close> is the sequence of
  values successive reads of \<open>TXDATA\<close> return; the result is the next read
  position and the state after the store.\<close>

partial_function (option) uart_putc_wait :: "(nat \<Rightarrow> u32) \<Rightarrow> nat \<Rightarrow> nat option" where
  "uart_putc_wait tx i =
     (if tx i AND UART_TXDATA_FULL \<noteq> 0 then uart_putc_wait tx (Suc i) else Some (Suc i))"

definition uart_putc ::
  "(nat \<Rightarrow> u32) \<Rightarrow> nat \<Rightarrow> u8 \<Rightarrow> 'a uart_state_scheme \<Rightarrow> (nat \<times> 'a uart_state_scheme) option" where
  "uart_putc tx i ch s = map_option (\<lambda>j. (j, set_reg UART_REG_TXDATA (ucast ch) s)) (uart_putc_wait tx i)"

text \<open>\<open>uart_init\<close>: record the parameters, program the divisor when an input
  frequency is given, then disable interrupts and enable transmit and receive.\<close>

definition uart_init :: "addr \<Rightarrow> u32 \<Rightarrow> u32 \<Rightarrow> 'a uart_state_scheme \<Rightarrow> 'a uart_state_scheme" where
  "uart_init base in_freq baudrate s =
     (let s1 = s\<lparr>uart_base := base, uart_in_freq := in_freq, uart_baudrate := baudrate\<rparr>;
          s2 = (if in_freq \<noteq> 0
                then set_reg UART_REG_DIV (uart_min_clk_divisor (ucast in_freq) (ucast baudrate)) s1
                else s1);
          s3 = set_reg UART_REG_IE 0 s2;
          s4 = set_reg UART_REG_TXCTRL UART_TXCTRL_TXEN s3
      in set_reg UART_REG_RXCTRL UART_RXCTRL_RXEN s4)"

text \<open>The character \<open>uart_put_hex\<close> prints for a nibble, and the characters it
  prints for a word: \<open>0x\<close> and eight digits, most significant first.\<close>

definition hex_digit :: "u32 \<Rightarrow> u8" where
  "hex_digit c = (if c < 0xa then 0x30 + ucast c else 0x61 + ucast c - 0xa)"

definition uart_put_hex :: "u32 \<Rightarrow> u8 list" where
  "uart_put_hex hex =
     [0x30, 0x78] @ map (\<lambda>idx. hex_digit (drop_bit (idx * 4) hex AND 0xf)) (rev [0..<8])"

text \<open>\<open>uart_puts(s)\<close>: the bytes sent to \<open>uart_putc\<close>, up to the terminating
  NUL; it never returns when memory holds no NUL from \<open>s\<close> on.\<close>

partial_function (option) uart_puts_loop :: "memory \<Rightarrow> addr \<Rightarrow> u8 list \<Rightarrow> u8 list option" where
  "uart_puts_loop m s out = (if m s \<noteq> 0 then uart_puts_loop m (s + 1) (out @ [m s]) else Some out)"

definition uart_puts :: "memory \<Rightarrow> addr \<Rightarrow> u8 list option" where
  "uart_puts m s = uart_puts_loop m s []"

text \<open>The 32-bit register at byte offset \<open>off\<close> from the UART's base, as
  memory holds it.\<close>

definition uart_reg :: "'a uart_state_scheme \<Rightarrow> nat \<Rightarrow> u32" where
  "uart_reg s off = le_word (read_bytes (mem s) (addr_at (uart_base s) off) 4)"

text \<open>A reference reading of hexadecimal text: the value of one digit and of a
  digit string, most significant first.\<close>

definition hex_val :: "u8 \<Rightarrow> nat" where
  "hex_val d = (if 0x30 \<le> d \<and> d \<le> 0x39 then unat d - 0x30
                else if 0x61 \<le> d \<and> d \<le> 0x66 then unat d - 0x61 + 10 else 0)"

definition hex_value :: "u8 list \<Rightarrow> nat" where
  "hex_value ds = foldl (\<lambda>acc d. acc * 16 + hex_val d) 0 ds"

section \<open>Properties\<close>

lemma uart_puts_loop_returns:
  "m (addr_at s n) = 0 \<Longrightarrow> \<forall>i<n. m (addr_at s i) \<noteq> 0 \<Longrightarrow>
   uart_puts_loop m s out = Some (out @ read_bytes m s n)"
proof (induction n arbitrary: s out)
  case 0
  then show ?case by (simp add: uart_puts_loop.simps addr_at_def)
next
  case (Suc n)
  have "m s \<noteq> 0" using Suc.prems(2)[rule_format, of 0] by (simp add: addr_at_def)
  moreover have "uart_puts_loop m (s + 1) (out @ [m s]) = Some (out @ [m s] @ read_bytes m (s + 1) n)"
    using Suc.prems by (subst Suc.IH) (auto simp: addr_at_Suc[symmetric])
  ultimately show ?case by (simp add: uart_puts_loop.simps read_bytes_Suc)
qed

theorem uart_puts_cstring:
  assumes "0 \<notin> set bs" "length bs < 2 ^ 64"
  shows "uart_puts (write_bytes m p (bs @ [0])) p = Some bs"
proof -
  have w: "write_bytes m p (bs @ [0]) (addr_at p i) = (bs @ [0]) ! i" if "i \<le> length bs" for i
    using that assms(2) by (intro write_bytes_at) simp_all
  have "\<forall>i<length bs. write_bytes m p (bs @ [0]) (addr_at p i) \<noteq> 0"
    using w assms(1) nth_mem by (fastforce simp: nth_append)
  moreover have "write_bytes m p (bs @ [0]) (addr_at p (length bs)) = 0" using w by simp
  moreover have "read_bytes (write_bytes m p (bs @ [0])) p (length bs) = bs"
  proof (rule nth_equalityI)
    fix i assume "i < length (read_bytes (write_bytes m p (bs @ [0])) p (length bs))"
    then show "read_bytes (write_bytes m p (bs @ [0])) p (length bs) ! i = bs ! i"
      using w[of i] by (simp add: read_bytes_def addr_at_def nth_append)
  qed simp
  ultimately show ?thesis using uart_puts_loop_returns by (simp add: uart_puts_def)
qed

theorem uart_getc_range:
  "uart_getc_val reg = - 1 \<or> (0 \<le> uart_getc_val reg \<and> uart_getc_val reg \<le> 255)"
proof -
  have "reg AND 0xff \<le> (0xff :: u32)" by (rule word_and_le1)
  then have "uint (reg AND 0xff) \<le> 255" by (simp add: word_le_def)
  then show ?thesis by (simp add: uart_getc_val_def UART_RXDATA_MASK_def)
qed

lemma uart_reg_addrs:
  "uart_reg_addr b UART_REG_TXDATA = addr_at b 0" "uart_reg_addr b UART_REG_RXDATA = addr_at b 4"
  "uart_reg_addr b UART_REG_TXCTRL = addr_at b 8" "uart_reg_addr b UART_REG_RXCTRL = addr_at b 12"
  "uart_reg_addr b UART_REG_IE = addr_at b 16" "uart_reg_addr b UART_REG_DIV = addr_at b 24"
  by (simp_all add: uart_reg_addr_def addr_at_def sbi_consts)

lemma uart_base_io_write [simp]: "uart_base (io_write n v a s) = uart_base s"
  by (simp add: io_defs)

lemma get_reg_val:
  "uart_reg_addr (uart_base s) i = addr_at (uart_base s) k \<Longrightarrow> fst (get_reg i s) = uart_reg s k"
  by (simp add: get_reg_def readw_def io_read_val uart_reg_def)

lemma set_reg_reg:
  assumes "uart_reg_addr (uart_base s) i = addr_at (uart_base s) k"
    and "k mod 4 = 0" "j mod 4 = 0" "k < 2 ^ 32" "j < 2 ^ 32"
  shows "uart_reg (set_reg i v s) j = (if k = j then v else uart_reg s j)"
proof -
  have "k \<noteq> j \<Longrightarrow> j + 4 \<le> k \<or> k + 4 \<le> j" using assms(2,3) by presburger
  then show ?thesis using assms
    by (simp add: set_reg_def writew_def uart_reg_def read_write_bytes_at)
qed

lemma set_reg_base [simp]: "uart_base (set_reg i v s) = uart_base s"
  by (simp add: set_reg_def writew_def io_defs)

lemma uart_putc_wait_returns:
  "tx (i + n) AND UART_TXDATA_FULL = 0 \<Longrightarrow> \<forall>m<n. tx (i + m) AND UART_TXDATA_FULL \<noteq> 0 \<Longrightarrow>
   uart_putc_wait tx i = Some (Suc (i + n))"
proof (induction n arbitrary: i)
  case 0
  then show ?case by (subst uart_putc_wait.simps) simp
next
  case (Suc n)
  have "tx i AND UART_TXDATA_FULL \<noteq> 0" using Suc.prems(2)[rule_format, of 0] by simp
  moreover have "\<forall>m<n. tx (Suc i + m) AND UART_TXDATA_FULL \<noteq> 0" using Suc.prems(2) by auto
  then have "uart_putc_wait tx (Suc i) = Some (Suc (Suc i + n))"
    using Suc.prems(1) Suc.IH[of "Suc i"] by simp
  ultimately show ?case by (subst uart_putc_wait.simps) simp
qed

theorem uart_putc_sends:
  assumes "tx (i + n) AND UART_TXDATA_FULL = 0" "\<forall>m<n. tx (i + m) AND UART_TXDATA_FULL \<noteq> 0"
  shows "uart_putc tx i ch s = Some (Suc (i + n), set_reg UART_REG_TXDATA (ucast ch) s) \<and>
         uart_reg (set_reg UART_REG_TXDATA (ucast ch) s) 0 = ucast ch"
  using assms by (simp add: uart_putc_def uart_putc_wait_returns set_reg_reg uart_reg_addrs)

theorem uart_init_regs:
  "uart_base (uart_init base f b s) = base \<and>
   uart_reg (uart_init base f b s) 16 = 0 \<and>
   uart_reg (uart_init base f b s) 8 = UART_TXCTRL_TXEN \<and>
   uart_reg (uart_init base f b s) 12 = UART_RXCTRL_RXEN \<and>
   uart_reg (uart_init base f b s) 24 =
     (if f \<noteq> 0 then uart_min_clk_divisor (ucast f) (ucast b) else uart_reg (s\<lparr>uart_base := base\<rparr>) 24)"
proof -
  have "\<And>x y. uart_reg (s\<lparr>uart_base := base, uart_in_freq := x, uart_baudrate := y\<rparr>) 24 =
        uart_reg (s\<lparr>uart_base := base\<rparr>) 24"
    by (simp add: uart_reg_def)
  then show ?thesis by (simp add: uart_init_def Let_def set_reg_reg uart_reg_addrs)
qed

text \<open>The arithmetic \<open>uart_min_clk_divisor\<close> does on 32-bit arguments widened to
  64 bits: the rounded-up quotient minus one, exactly, with no wrap.\<close>

lemma min_clk_divisor_unat:
  fixes in_freq baudrate :: u32
  assumes "baudrate \<noteq> 0"
  shows "unat (uart_min_clk_divisor (ucast in_freq) (ucast baudrate)) =
    (unat in_freq + unat baudrate - 1) div unat baudrate - 1"
proof -
  define F B where "F = unat in_freq" and "B = unat baudrate"
  have B: "0 < B" using assms by (simp add: B_def unat_gt_0)
  have FB: "F < 2 ^ 32" "B < 2 ^ 32" using unat_u32_less by (simp_all add: F_def B_def)
  have "unat (ucast in_freq :: u64) + unat (ucast baudrate :: u64) < 2 ^ LENGTH(64)"
    using FB by (simp add: unat_ucast_u32 F_def B_def)
  then have s: "unat (ucast in_freq + ucast baudrate :: u64) = F + B"
    by (simp add: unat_add_lem[THEN iffD1] unat_ucast_u32 F_def B_def)
  then have "ucast in_freq + ucast baudrate \<noteq> (0 :: u64)" using B by auto
  then have "unat (ucast in_freq + ucast baudrate - 1 :: u64) = F + B - 1"
    using s by (simp add: unat_minus_one)
  then have uq: "unat ((ucast in_freq + ucast baudrate - 1) div ucast baudrate :: u64) = (F + B - 1) div B"
    by (simp add: unat_div unat_ucast_u32 B_def)
  have q32: "(F + B - 1) div B - 1 < 2 ^ 32"
  proof -
    define q where "q = (F + B - 1) div B"
    have "q * B \<le> F + B - 1" unfolding q_def by (simp add: div_times_less_eq_dividend)
    moreover have "q - 1 \<le> (q - 1) * B" using B by simp
    moreover have "(q - 1) * B = q * B - B" by (simp add: diff_mult_distrib)
    ultimately show ?thesis using FB unfolding q_def[symmetric] by linarith
  qed
  define X where "X = (ucast in_freq + ucast baudrate - 1) div (ucast baudrate :: u64)"
  show ?thesis
  proof (cases "X = 0")
    case True
    then show ?thesis using uq by (simp add: uart_min_clk_divisor_def Let_def X_def[symmetric] F_def B_def)
  next
    case False
    then have "unat (X - 1) = (F + B - 1) div B - 1" using uq by (simp add: unat_minus_one X_def)
    then have "unat (ucast (X - 1) :: u32) = (F + B - 1) div B - 1"
      using q32 by (simp add: unsigned_ucast_eq take_bit_nat_eq_self_iff)
    with False show ?thesis by (simp add: uart_min_clk_divisor_def Let_def X_def[symmetric] F_def B_def)
  qed
qed

text \<open>The rounded-up quotient minus one is the least \<open>d\<close> with \<open>F \<le> B * (d + 1)\<close>.\<close>

lemma ceil_div_pred:
  assumes "0 < (B :: nat)" "d = (F + B - 1) div B - 1"
  shows "F \<le> B * (d + 1) \<and> (d = 0 \<or> B * d < F)"
proof -
  define q where "q = (F + B - 1) div B"
  have qF: "q * B \<le> F + B - 1" "F + B - 1 < (q + 1) * B"
    unfolding q_def using dividend_less_div_times[OF assms(1), of "F + B - 1"]
    by (simp_all add: div_times_less_eq_dividend algebra_simps)
  have d: "d = q - 1" using assms(2) by (simp add: q_def)
  show ?thesis
  proof (cases "q = 0")
    case True
    then show ?thesis using qF assms(1) d by simp
  next
    case False
    then have q: "d + 1 = q" using d by simp
    have "F \<le> B * q" using qF(2) assms(1) by (simp add: mult.commute)
    moreover have "B * (q - 1) < F"
    proof -
      have "B * q \<le> F + B - 1" "B \<le> B * q" "B * (q - 1) = B * q - B"
        using qF(1) False by (simp_all add: mult.commute right_diff_distrib')
      then show ?thesis using assms(1) by linarith
    qed
    ultimately show ?thesis using q d by simp
  qed
qed

text \<open>C29. For the 32-bit frequency and baud rate uart_init passes,
  uart_min_clk_divisor returns the least divisor d with in_freq <= baudrate * (d
  + 1), computed without overflow.\<close>
theorem uart_min_clk_divisor_bound:
  fixes in_freq baudrate :: u32
  assumes "baudrate \<noteq> 0"
  shows "unat in_freq \<le> unat baudrate * (unat (uart_min_clk_divisor (ucast in_freq) (ucast baudrate)) + 1) \<and>
         (uart_min_clk_divisor (ucast in_freq) (ucast baudrate) = 0 \<or>
          unat baudrate * unat (uart_min_clk_divisor (ucast in_freq) (ucast baudrate)) < unat in_freq)"
proof -
  have B: "0 < unat baudrate" using assms by (simp add: unat_gt_0)
  show ?thesis using ceil_div_pred[OF B min_clk_divisor_unat[OF assms]] by (simp only: unat_eq_zero)
qed

lemma hex_val_digit: "n < 16 \<Longrightarrow> hex_val (hex_digit n) = unat n"
proof -
  assume "n < 16"
  then have u: "unat n \<in> set [0..<16]" by (simp add: word_less_nat_alt)
  have "\<forall>k\<in>set [0..<16]. hex_val (hex_digit (word_of_nat k :: u32)) = k"
    by (simp add: upt_rec hex_digit_def hex_val_def)
  from bspec[OF this u] show ?thesis by simp
qed

lemma nibble_unat: "unat (drop_bit (i * 4) (h :: u32) AND 0xf) = unat h div 16 ^ i mod 16"
proof -
  have "drop_bit (i * 4) h AND 0xf = take_bit 4 (drop_bit (i * 4) h)"
    by (simp add: take_bit_eq_mask mask_eq_exp_minus_1)
  moreover have "(2 :: nat) ^ (i * 4) = 16 ^ i"
  proof -
    have "(2 :: nat) ^ (4 * i) = (2 ^ 4) ^ i" by (rule power_mult)
    then show ?thesis by (simp add: mult.commute)
  qed
  moreover have "unat (take_bit 4 (drop_bit (i * 4) h)) = take_bit 4 (drop_bit (i * 4) (unat h))"
    by (simp only: unsigned_take_bit_eq unat_drop_bit_eq)
  ultimately show ?thesis by (simp add: take_bit_eq_mod drop_bit_eq_div)
qed

lemma foldl_digits:
  "foldl (\<lambda>acc i. acc * 16 + x div 16 ^ i mod 16) a (rev [0..<k]) = a * 16 ^ k + (x :: nat) mod 16 ^ k"
proof (induction k arbitrary: a)
  case (Suc k)
  have "x mod 16 ^ Suc k = 16 ^ k * (x div 16 ^ k mod 16) + x mod 16 ^ k"
    by (metis mod_mult2_eq power_Suc2)
  then show ?case by (simp add: Suc algebra_simps)
qed simp

lemma hex_digit_nibble:
  "hex_val (hex_digit (drop_bit (i * 4) h AND 0xf)) = unat (h :: u32) div 16 ^ i mod 16"
proof -
  have "drop_bit (i * 4) h AND 0xf \<le> (0xf :: u32)" by (rule word_and_le1)
  then have "drop_bit (i * 4) h AND 0xf < (16 :: u32)" by (simp add: word_less_nat_alt word_le_nat_alt)
  then show ?thesis by (simp add: hex_val_digit nibble_unat)
qed

text \<open>C30. Reading back the eight hexadecimal digits uart_put_hex prints after 0x
  gives the printed value.\<close>
theorem uart_put_hex_roundtrip:
  "hex_value (drop 2 (uart_put_hex h)) = unat h"
proof -
  have "hex_value (drop 2 (uart_put_hex h)) =
        foldl (\<lambda>acc i. acc * 16 + unat h div 16 ^ i mod 16) 0 (rev [0..<8])"
    by (simp add: uart_put_hex_def hex_value_def foldl_map hex_digit_nibble del: upt_Suc)
  also have "\<dots> = unat h mod 16 ^ 8" by (simp add: foldl_digits)
  also have "\<dots> = unat h" using unat_u32_less[of h] by simp
  finally show ?thesis .
qed

section \<open>Witnesses\<close>

theorem uart_min_clk_divisor_bound_witness:
  "uart_min_clk_divisor (ucast (16000000 :: u32)) (ucast (115200 :: u32)) = 138 \<and>
   unat (16000000 :: u32) \<le> unat (115200 :: u32) * (unat (138 :: u32) + 1) \<and>
   unat (115200 :: u32) * unat (138 :: u32) < unat (16000000 :: u32)"
proof -
  have d: "uart_min_clk_divisor (ucast (16000000 :: u32)) (ucast (115200 :: u32)) = 138"
    by (simp add: uart_min_clk_divisor_def)
  moreover have "uart_min_clk_divisor 16000000 115200 = 138"
    by (simp add: uart_min_clk_divisor_def)
  ultimately show ?thesis
    using uart_min_clk_divisor_bound[where in_freq = 16000000 and baudrate = 115200] by simp
qed

theorem uart_putc_sends_witness:
  "uart_putc (\<lambda>j. if j = 0 then UART_TXDATA_FULL else 0) 0 0x41
     \<lparr>mem = \<lambda>_. 0, io_trace = [], uart_base = UART0_ADDR, uart_in_freq = 0, uart_baudrate = 0\<rparr> =
   Some (2, set_reg UART_REG_TXDATA 0x41
     \<lparr>mem = \<lambda>_. 0, io_trace = [], uart_base = UART0_ADDR, uart_in_freq = 0, uart_baudrate = 0\<rparr>)"
  using uart_putc_sends[where tx = "\<lambda>j. if j = 0 then UART_TXDATA_FULL else 0" and i = 0 and n = 1
      and ch = "0x41" and s = "\<lparr>mem = \<lambda>_. 0, io_trace = [], uart_base = UART0_ADDR, uart_in_freq = 0,
      uart_baudrate = 0\<rparr>"]
  by (simp add: sbi_consts)

end
