(* ===== verification/Console.thy ===== *)
theory Console
  imports UART
begin

text \<open>
  The line-editing console of \<open>src/sbi/libs/console.c\<close>.  \<open>getchar\<close> polls
  the UART receive register until it reports a byte; \<open>readline\<close> collects
  printable bytes into its static buffer, handles backspace, and returns at
  carriage return or line feed, echoing what it accepts.  The device is the
  sequence \<open>rx\<close> of values successive reads of \<open>RXDATA\<close> return; a routine's
  position in it is the number of reads done so far.  A poll that never sees
  a byte does not return: both loops are partial functions, \<open>None\<close> when the
  device never delivers what they wait for.  \<open>__intr_save\<close> and
  \<open>__intr_restore\<close> act on the value of \<open>mstatus\<close>.
\<close>

section \<open>Definitions\<close>

definition BUFSIZE :: nat where [sbi_consts]: "BUFSIZE = 1024"

text \<open>\<open>getchar\<close> (lines 30--35): the byte read and the next read position.\<close>

partial_function (option) getchar :: "(nat \<Rightarrow> u32) \<Rightarrow> nat \<Rightarrow> (int \<times> nat) option" where
  "getchar rx i =
     (let c = uart_getc_val (rx i) in if c = - 1 then getchar rx (Suc i) else Some (c, Suc i))"

text \<open>The loop of \<open>readline\<close> (lines 42--58) on the buffer contents
  \<open>buf[0..i)\<close> and the bytes echoed so far.  The result is the returned line
  (\<open>None\<close> for \<open>NULL\<close>), the next read position and the echo.\<close>

partial_function (option) readline_loop ::
  "(nat \<Rightarrow> u32) \<Rightarrow> nat \<Rightarrow> u8 list \<Rightarrow> u8 list \<Rightarrow> (u8 list option \<times> nat \<times> u8 list) option" where
  "readline_loop rx i buf echo =
     Option.bind (getchar rx i) (\<lambda>(c, i').
       if c < 0 then Some (None, i', echo)
       else if c \<ge> 32 \<and> length buf < BUFSIZE - 1
         then readline_loop rx i' (buf @ [word_of_int c]) (echo @ [word_of_int c])
       else if c = 8 \<and> length buf > 0
         then readline_loop rx i' (butlast buf) (echo @ [word_of_int c])
       else if c = 10 \<or> c = 13 then Some (Some buf, i', echo @ [word_of_int c])
       else readline_loop rx i' buf echo)"

text \<open>\<open>readline(prompt)\<close> (lines 37--60): the prompt, when given, is printed first.\<close>

definition readline ::
  "(nat \<Rightarrow> u32) \<Rightarrow> nat \<Rightarrow> u8 list option \<Rightarrow> (u8 list option \<times> nat \<times> u8 list) option" where
  "readline rx i prompt = readline_loop rx i [] (case prompt of None \<Rightarrow> [] | Some p \<Rightarrow> p)"

text \<open>\<open>__intr_save\<close> and \<open>__intr_restore\<close> (lines 10--21) on \<open>mstatus\<close>:
  \<open>clear_csr\<close> and \<open>set_csr\<close> are \<open>csrrc\<close> and \<open>csrrs\<close>.\<close>

definition intr_save :: "u64 \<Rightarrow> int \<times> u64" where
  "intr_save mstatus =
     (if mstatus AND MSTATUS_MIE \<noteq> 0 then (1, mstatus AND NOT MSTATUS_MIE) else (0, mstatus))"

definition intr_restore :: "int \<Rightarrow> u64 \<Rightarrow> u64" where
  "intr_restore flag mstatus = (if flag \<noteq> 0 then mstatus OR MSTATUS_MIE else mstatus)"

text \<open>A line is what \<open>readline\<close> may hold in its buffer: printable bytes, at
  most \<open>BUFSIZE - 1\<close> of them.\<close>

definition line_ok :: "u8 list \<Rightarrow> bool" where
  "line_ok buf \<longleftrightarrow> length buf \<le> BUFSIZE - 1 \<and> (\<forall>b\<in>set buf. 0x20 \<le> b)"

text \<open>The device delivers the bytes of a line, then a carriage return.\<close>

definition typed :: "u8 list \<Rightarrow> nat \<Rightarrow> u32" where
  "typed s j = (if j < length s then ucast (s ! j) else 13)"

section \<open>Properties\<close>

lemma getchar_returns:
  "uart_getc_val (rx (i + n)) \<noteq> - 1 \<Longrightarrow> \<forall>m<n. uart_getc_val (rx (i + m)) = - 1 \<Longrightarrow>
   getchar rx i = Some (uart_getc_val (rx (i + n)), Suc (i + n))"
proof (induction n arbitrary: i)
  case 0
  then show ?case by (subst getchar.simps) (simp add: Let_def)
next
  case (Suc n)
  have "uart_getc_val (rx i) = - 1" using Suc.prems(2)[rule_format, of 0] by simp
  moreover have "getchar rx (Suc i) = Some (uart_getc_val (rx (i + Suc n)), Suc (i + Suc n))"
    using Suc.prems Suc.IH[of "Suc i"] by fastforce
  ultimately show ?case by (subst getchar.simps) (simp add: Let_def)
qed

lemma getchar_result:
  assumes "getchar rx i = Some (c, j)"
  shows "0 \<le> c \<and> c \<le> 255 \<and> i < j"
proof -
  have "0 \<le> fst (c, j) \<and> fst (c, j) \<le> 255 \<and> i < snd (c, j)"
  proof (rule getchar.raw_induct[where P = "\<lambda>rx i r. 0 \<le> fst r \<and> fst r \<le> 255 \<and> i < snd r",
         OF _ assms])
    fix f :: "(nat \<Rightarrow> u32) \<Rightarrow> nat \<Rightarrow> (int \<times> nat) option" and rx i r
    assume IH: "\<And>rx i r. f rx i = Some r \<Longrightarrow> 0 \<le> fst r \<and> fst r \<le> 255 \<and> i < snd r"
      and step: "(let c = uart_getc_val (rx i) in if c = - 1 then f rx (Suc i) else Some (c, Suc i)) = Some r"
    show "0 \<le> fst r \<and> fst r \<le> 255 \<and> i < snd r"
    proof (cases "uart_getc_val (rx i) = - 1")
      case True
      then show ?thesis using step IH[of rx "Suc i" r] by (simp add: Let_def)
    next
      case False
      then show ?thesis using step uart_getc_range[of "rx i"] by (auto simp: Let_def)
    qed
  qed
  then show ?thesis by simp
qed

lemma uint_word_of_int_byte: "0 \<le> c \<Longrightarrow> c < 256 \<Longrightarrow> uint (word_of_int c :: u8) = c"
  by (simp add: uint_word_of_int_eq take_bit_int_eq_self)

lemma line_ok_snoc:
  "line_ok buf \<Longrightarrow> length buf < BUFSIZE - 1 \<Longrightarrow> 32 \<le> c \<Longrightarrow> c \<le> 255 \<Longrightarrow>
   line_ok (buf @ [word_of_int c])"
  by (auto simp: line_ok_def word_le_def uint_word_of_int_byte)

lemma line_ok_butlast: "line_ok buf \<Longrightarrow> line_ok (butlast buf)"
  by (auto simp: line_ok_def dest: in_set_butlastD)

lemma readline_loop_result:
  assumes "readline_loop rx i buf echo = Some res" "line_ok buf"
  shows "\<exists>line. fst res = Some line \<and> line_ok line"
proof -
  have "line_ok buf \<longrightarrow> (\<exists>line. fst res = Some line \<and> line_ok line)"
  proof (rule readline_loop.raw_induct[where P =
      "\<lambda>rx i buf echo res. line_ok buf \<longrightarrow> (\<exists>line. fst res = Some line \<and> line_ok line)", OF _ assms(1)])
    fix f :: "(nat \<Rightarrow> u32) \<Rightarrow> nat \<Rightarrow> u8 list \<Rightarrow> u8 list \<Rightarrow> (u8 list option \<times> nat \<times> u8 list) option"
      and rx i buf echo res
    assume IH: "\<And>rx i buf echo res. f rx i buf echo = Some res \<Longrightarrow>
                  line_ok buf \<longrightarrow> (\<exists>line. fst res = Some line \<and> line_ok line)"
      and step: "Option.bind (getchar rx i) (\<lambda>(c, i').
         if c < 0 then Some (None, i', echo)
         else if c \<ge> 32 \<and> length buf < BUFSIZE - 1
           then f rx i' (buf @ [word_of_int c]) (echo @ [word_of_int c])
         else if c = 8 \<and> length buf > 0
           then f rx i' (butlast buf) (echo @ [word_of_int c])
         else if c = 10 \<or> c = 13 then Some (Some buf, i', echo @ [word_of_int c])
         else f rx i' buf echo) = Some res"
    show "line_ok buf \<longrightarrow> (\<exists>line. fst res = Some line \<and> line_ok line)"
    proof
      assume ok: "line_ok buf"
      obtain c i' where g: "getchar rx i = Some (c, i')" using step by (cases "getchar rx i") auto
      then have c: "0 \<le> c" "c \<le> 255" using getchar_result by blast+
      show "\<exists>line. fst res = Some line \<and> line_ok line"
        using step g c ok IH[of rx i'] line_ok_snoc[OF ok, of c] line_ok_butlast[OF ok]
        by (auto split: if_splits)
    qed
  qed
  then show ?thesis using assms(2) by blast
qed

lemma first_byte:
  assumes "uart_getc_val (rx j) \<noteq> - 1" "i \<le> j"
  obtains k where "i \<le> k" "k \<le> j" "getchar rx i = Some (uart_getc_val (rx k), Suc k)"
    "uart_getc_val (rx k) \<noteq> - 1"
proof -
  define n where "n = (LEAST n. uart_getc_val (rx (i + n)) \<noteq> - 1)"
  have j: "uart_getc_val (rx (i + (j - i))) \<noteq> - 1" using assms by simp
  have n: "uart_getc_val (rx (i + n)) \<noteq> - 1" "n \<le> j - i"
    unfolding n_def
    by (rule LeastI[where P = "\<lambda>n. uart_getc_val (rx (i + n)) \<noteq> - 1", OF j],
        rule Least_le[where P = "\<lambda>n. uart_getc_val (rx (i + n)) \<noteq> - 1", OF j])
  have "\<forall>m<n. uart_getc_val (rx (i + m)) = - 1" unfolding n_def using not_less_Least by blast
  with n have "getchar rx i = Some (uart_getc_val (rx (i + n)), Suc (i + n))"
    by (intro getchar_returns)
  with n assms(2) show ?thesis by (intro that[of "i + n"]) auto
qed

lemma readline_loop_terminates:
  "uart_getc_val (rx j) \<in> {10, 13} \<Longrightarrow> i \<le> j \<Longrightarrow> \<exists>res. readline_loop rx i buf echo = Some res"
proof (induction "j - i" arbitrary: i buf echo rule: less_induct)
  case less
  have "uart_getc_val (rx j) \<noteq> - 1" using less.prems(1) by auto
  then obtain k where k: "i \<le> k" "k \<le> j" and g: "getchar rx i = Some (uart_getc_val (rx k), Suc k)"
    using first_byte less.prems(2) by blast
  show ?case
  proof (cases "k = j")
    case True
    then show ?thesis using g less.prems(1) by (subst readline_loop.simps) auto
  next
    case False
    then have "j - Suc k < j - i" "Suc k \<le> j" using k by auto
    then have "\<And>b e. \<exists>res. readline_loop rx (Suc k) b e = Some res"
      using less.hyps less.prems(1) by blast
    then show ?thesis using g by (subst readline_loop.simps) (auto split: if_splits)
  qed
qed

lemma uart_getc_val_byte: "uart_getc_val (ucast (b :: u8)) = uint b"
proof -
  have "(ucast b :: u32) AND 0x80000000 = 0"
    by (rule bit_word_eqI) (auto simp: bit_simps bit_numeral_Bit0_iff dest: bit_imp_le_length)
  moreover have "(ucast b :: u32) AND 0xff = ucast b"
  proof -
    have "(ucast b :: u32) AND 0xff = take_bit 8 (ucast b)"
      by (simp add: take_bit_eq_mask mask_eq_exp_minus_1)
    also have "\<dots> = ucast b"
      by (rule bit_word_eqI) (auto simp: bit_simps dest: bit_imp_le_length)
    finally show ?thesis .
  qed
  moreover have "uint (ucast b :: u32) = uint b"
    by (rule uint_up_ucast) (simp add: is_up)
  ultimately show ?thesis by (simp add: uart_getc_val_def sbi_consts)
qed

lemma readline_typed_from:
  assumes "line_ok s" "k \<le> length s"
  shows "readline_loop (typed s) k (take k s) (take k s) = Some (Some s, Suc (length s), s @ [13])"
  using assms(2)
proof (induction "length s - k" arbitrary: k rule: less_induct)
  case less
  show ?case
  proof (cases "k = length s")
    case True
    have "getchar (typed s) k = Some (13, Suc k)"
      using True by (subst getchar.simps) (simp add: typed_def uart_getc_val_def sbi_consts)
    then show ?thesis using True by (subst readline_loop.simps) simp
  next
    case False
    then have k: "k < length s" using less.prems by simp
    have b: "32 \<le> uint (s ! k)" using assms(1) k by (auto simp: line_ok_def word_le_def)
    have "getchar (typed s) k = Some (uint (s ! k), Suc k)"
      using k b by (subst getchar.simps) (simp add: typed_def uart_getc_val_byte)
    moreover have "length (take k s) < BUFSIZE - 1" using assms(1) k by (simp add: line_ok_def)
    moreover have "take k s @ [s ! k] = take (Suc k) s" using k by (simp add: take_Suc_conv_app_nth)
    moreover have "readline_loop (typed s) (Suc k) (take (Suc k) s) (take (Suc k) s) =
                   Some (Some s, Suc (length s), s @ [13])"
      using less.hyps k by simp
    ultimately show ?thesis using b by (subst readline_loop.simps) simp
  qed
qed

text \<open>C28. Typing a line of printable bytes (at most BUFSIZE - 1 of them) and a
  carriage return makes readline return exactly that line, echoing it and the
  carriage return.\<close>
theorem readline_typed:
  "line_ok s \<Longrightarrow> readline (typed s) 0 None = Some (Some s, Suc (length s), s @ [13])"
  using readline_typed_from[of s 0] by (simp add: readline_def)

text \<open>C27. readline(NULL) never returns NULL: when it returns, it returns a line of
  printable bytes of at most BUFSIZE - 1 bytes, because getchar only ever
  returns a byte.\<close>
theorem readline_returns_line:
  assumes "readline rx i None = Some res"
  shows "\<exists>line. fst res = Some line \<and> line_ok line"
  using readline_loop_result[of rx i "[]" "[]" res] assms by (simp add: readline_def line_ok_def)

text \<open>\<open>readline\<close> returns once the receive register delivers a line end,
  for a transmitter that accepts every echoed byte: the busy-wait of
  \<open>uart_putc\<close> on a full \<open>TXDATA\<close> (\<open>uart.c\<close> lines 34--35) is not part of
  the echo model.\<close>
theorem readline_terminates:
  "uart_getc_val (rx j) \<in> {10, 13} \<Longrightarrow> i \<le> j \<Longrightarrow> \<exists>res. readline rx i prompt = Some res"
  unfolding readline_def by (rule readline_loop_terminates)

theorem readline_backspace:
  "readline (typed [0x61, 0x62, 8, 0x63]) 0 None = Some (Some [0x61, 0x63], 5, [0x61, 0x62, 8, 0x63, 13])"
  by (simp add: readline_def readline_loop.simps getchar.simps typed_def uart_getc_val_def sbi_consts)

theorem readline_keeps_del:
  "readline (typed [0x61, 0x7f]) 0 None = Some (Some [0x61, 0x7f], 3, [0x61, 0x7f, 13])"
  by (simp add: readline_def readline_loop.simps getchar.simps typed_def uart_getc_val_def sbi_consts)

lemma mstatus_mie_bit: "m AND MSTATUS_MIE \<noteq> 0 \<longleftrightarrow> bit m 3"
  using and_exp_eq_0_iff_not_bit[of m 3] by (simp add: sbi_consts)

lemma bit_MSTATUS_MIE: "bit MSTATUS_MIE n \<longleftrightarrow> n = 3"
  by (auto simp: sbi_consts bit_numeral_Bit0_iff bit_simps)

theorem intr_save_restore:
  "intr_restore (fst (intr_save m)) (snd (intr_save m)) = m"
  by (rule bit_word_eqI)
     (auto simp: intr_save_def intr_restore_def mstatus_mie_bit bit_MSTATUS_MIE bit_simps)

theorem intr_save_masks:
  "snd (intr_save m) AND MSTATUS_MIE = 0"
  by (rule bit_word_eqI) (auto simp: intr_save_def mstatus_mie_bit bit_MSTATUS_MIE bit_simps)

section \<open>Witnesses\<close>

theorem readline_returns_line_witness:
  "\<exists>res. readline (typed [0x61]) 0 None = Some res \<and> (\<exists>line. fst res = Some line \<and> line_ok line)"
proof -
  have r: "readline (typed [0x61]) 0 None = Some (Some [0x61], 2, [0x61, 13])"
    by (simp add: readline_def readline_loop.simps getchar.simps typed_def uart_getc_val_def sbi_consts)
  show ?thesis using r readline_returns_line[OF r] by blast
qed

theorem readline_terminates_witness:
  "\<exists>res. readline (typed [0x61]) 0 None = Some res"
  using readline_terminates[where rx = "typed [0x61]" and j = 1 and i = 0 and prompt = None]
  by (simp add: typed_def uart_getc_val_def sbi_consts)

theorem readline_typed_witness:
  "readline (typed [0x68, 0x69]) 0 None = Some (Some [0x68, 0x69], 3, [0x68, 0x69, 13])"
  using readline_typed[where s = "[0x68, 0x69]"] by (simp add: line_ok_def sbi_consts)

end
