(* ===== verification/Mailbox.thy ===== *)
theory Mailbox
  imports Clint Strings Console
begin

text \<open>
  The inter-hart message test of \<open>src/sbi/main.c\<close>: hart 0 runs \<open>test_ipi\<close>,
  harts 1--4 run \<open>other_main\<close>, and both wait in \<open>wait_ipi\<close>.  Hart 0 reads a
  target hart and a line from the console, copies the line with its NUL into
  the shared region at \<open>SMP_ADDR\<close> (\<open>memcpy(SMP_ADDR, m, strlen(m) + 1)\<close>)
  and raises the target's software interrupt; the target wakes, clears its
  bit, prints the mailbox with \<open>uart_puts(SMP_ADDR)\<close> and raises hart 0's bit
  in reply, which hart 0 waits for before the next round.

  The shared state is the abstract CLINT of theory \<open>Clint\<close> (the msip bits;
  \<open>mip.MSIP\<close> of a hart reads its bit), each hart's \<open>mie.MSIP\<close>, and memory,
  which holds the mailbox and \<open>readline\<close>'s static buffer at \<open>rl_buf\<close>.
  Each hart's program counter names the statements of its loop that touch
  shared state.  \<open>sent\<close> and \<open>shown\<close> are ghost state: the last line hart 0
  read for sending, and the messages each secondary printed.
\<close>

section \<open>State\<close>

datatype ppc = PClear | PMie | PInput | PMsg u64 | PCopy u64 | PSend u64 | PChk u64 | PWfi u64 | PAck u64

datatype spc = SInit | SClear | SMie | SChk | SWfi | SAck | SPrint | SReply

record mbox =
  mb_clint :: clint_abs
  mb_mie :: "nat \<Rightarrow> bool"
  mb_mem :: memory
  rl_buf :: addr
  ppc :: ppc
  spc :: "nat \<Rightarrow> spc"
  sent :: "u8 list"
  shown :: "nat \<Rightarrow> u8 list list"

section \<open>The two programs\<close>

text \<open>\<open>to_hartid = readline(NULL)[0] - '0'\<close> (line 80): the character is
  promoted to \<open>int\<close>, the difference converted to \<open>size_t\<close>.\<close>

definition to_hartid :: "u8 list \<Rightarrow> u64" where
  "to_hartid l = ucast (hd (l @ [0])) - 0x30"

text \<open>The range check of line 81, on \<open>size_t\<close>.\<close>

definition hartid_in_range :: "u64 \<Rightarrow> bool" where
  "hartid_in_range t \<longleftrightarrow> word_of_nat (ZERO_HART + 1) \<le> t \<and> t \<le> word_of_nat (MAX_HARTS - 1)"

text \<open>One step of hart 0 in \<open>test_ipi\<close> (lines 69--100), given the line
  \<open>readline\<close> returns when the step reads one.  The \<open>memcpy\<close> of line 90 is
  one step: no other hart reads the mailbox while hart 0 writes it (see
  \<open>mbox_inv\<close>).\<close>

definition primary_step :: "u8 list \<Rightarrow> mbox \<Rightarrow> mbox option" where
  "primary_step l s = (case ppc s of
     PClear \<Rightarrow> Some (s\<lparr>mb_clint := cclear ZERO_HART (mb_clint s), ppc := PMie\<rparr>)
   | PMie \<Rightarrow> Some (s\<lparr>mb_mie := (mb_mie s)(ZERO_HART := True), ppc := PInput\<rparr>)
   | PInput \<Rightarrow> Some (s\<lparr>ppc := if hartid_in_range (to_hartid l) then PMsg (to_hartid l) else PInput\<rparr>)
   | PMsg t \<Rightarrow> Some (s\<lparr>mb_mem := write_bytes (mb_mem s) (rl_buf s) (l @ [0]), sent := l, ppc := PCopy t\<rparr>)
   | PCopy t \<Rightarrow> (case strlen (mb_mem s) (rl_buf s) of
       None \<Rightarrow> None
     | Some n \<Rightarrow> Some (s\<lparr>mb_mem := snd (memcpy (mb_mem s) SMP_ADDR (rl_buf s) (n + 1)), ppc := PSend t\<rparr>))
   | PSend t \<Rightarrow> Some (s\<lparr>mb_clint := craise (unat t) (mb_clint s), ppc := PChk t\<rparr>)
   | PChk t \<Rightarrow> Some (s\<lparr>ppc := if pending (mb_clint s) ZERO_HART then PAck t else PWfi t\<rparr>)
   | PWfi t \<Rightarrow> (if pending (mb_clint s) ZERO_HART \<and> mb_mie s ZERO_HART
               then Some (s\<lparr>ppc := PChk t\<rparr>) else None)
   | PAck t \<Rightarrow> Some (s\<lparr>mb_clint := cclear ZERO_HART (mb_clint s), ppc := PInput\<rparr>))"

text \<open>One step of secondary hart \<open>h\<close> in \<open>other_main\<close> (lines 104--121);
  \<open>SInit\<close> is the driver initialisation, which touches no shared state.\<close>

definition secondary_step :: "nat \<Rightarrow> mbox \<Rightarrow> mbox option" where
  "secondary_step h s = (case spc s h of
     SInit \<Rightarrow> Some (s\<lparr>spc := (spc s)(h := SClear)\<rparr>)
   | SClear \<Rightarrow> Some (s\<lparr>mb_clint := cclear h (mb_clint s), spc := (spc s)(h := SMie)\<rparr>)
   | SMie \<Rightarrow> Some (s\<lparr>mb_mie := (mb_mie s)(h := True), spc := (spc s)(h := SChk)\<rparr>)
   | SChk \<Rightarrow> Some (s\<lparr>spc := (spc s)(h := if pending (mb_clint s) h then SAck else SWfi)\<rparr>)
   | SWfi \<Rightarrow> (if pending (mb_clint s) h \<and> mb_mie s h
              then Some (s\<lparr>spc := (spc s)(h := SChk)\<rparr>) else None)
   | SAck \<Rightarrow> Some (s\<lparr>mb_clint := cclear h (mb_clint s), spc := (spc s)(h := SPrint)\<rparr>)
   | SPrint \<Rightarrow> (case uart_puts (mb_mem s) SMP_ADDR of
       None \<Rightarrow> None
     | Some bs \<Rightarrow> Some (s\<lparr>shown := (shown s)(h := shown s h @ [bs]), spc := (spc s)(h := SReply)\<rparr>))
   | SReply \<Rightarrow> Some (s\<lparr>mb_clint := craise ZERO_HART (mb_clint s), spc := (spc s)(h := SChk)\<rparr>))"

section \<open>Interleaving\<close>

inductive mbox_step :: "mbox \<Rightarrow> mbox \<Rightarrow> bool" where
  primary: "line_ok l \<Longrightarrow> primary_step l s = Some t \<Longrightarrow> mbox_step s t"
| secondary: "0 < h \<Longrightarrow> h < MAX_HARTS \<Longrightarrow> secondary_step h s = Some t \<Longrightarrow> mbox_step s t"

text \<open>\<open>readline\<close>'s buffer lies outside the mailbox and does not wrap.\<close>

definition rl_buf_ok :: "addr \<Rightarrow> bool" where
  "rl_buf_ok b \<longleftrightarrow> unat b + BUFSIZE < 2 ^ 64 \<and>
     (unat b + BUFSIZE \<le> unat SMP_ADDR \<or> unat SMP_ADDR + SMP_SIZE \<le> unat b)"

text \<open>Both programs start right after the boot barrier, which leaves every
  msip bit clear (the rendezvous property of theory \<open>Barrier\<close>).\<close>

definition mbox_start :: "mbox \<Rightarrow> bool" where
  "mbox_start s \<longleftrightarrow> (\<forall>h. \<not> pending (mb_clint s) h) \<and> ppc s = PClear \<and> (\<forall>h. spc s h = SInit) \<and>
     sent s = [] \<and> (\<forall>h. shown s h = []) \<and> rl_buf_ok (rl_buf s)"

inductive mbox_reach :: "mbox \<Rightarrow> bool" where
  start: "mbox_start s \<Longrightarrow> mbox_reach s"
| step: "mbox_reach s \<Longrightarrow> mbox_step s t \<Longrightarrow> mbox_reach t"

section \<open>Schedules\<close>

text \<open>Running a schedule: hart 0 steps with the line its console delivers,
  a secondary steps on its own.\<close>

fun mbox_run :: "(nat \<times> u8 list) list \<Rightarrow> mbox \<Rightarrow> mbox option" where
  "mbox_run [] s = Some s"
| "mbox_run ((h, l) # hs) s =
     (let r = (if h = 0 then (if line_ok l then primary_step l s else None)
               else if h < MAX_HARTS then secondary_step h s else None)
      in case r of None \<Rightarrow> None | Some t \<Rightarrow> mbox_run hs t)"

definition mbox_boot :: mbox where
  "mbox_boot = \<lparr>mb_clint = \<lparr>pending = (\<lambda>_. False), mtime = 0, mtimecmp = (\<lambda>_. 0)\<rparr>,
     mb_mie = (\<lambda>_. True), mb_mem = (\<lambda>_. 0), rl_buf = 0x80200000, ppc = PClear,
     spc = (\<lambda>_. SInit), sent = [], shown = (\<lambda>_. [])\<rparr>"

text \<open>A round: hart 1 starts up, hart 0 sends it the line "hi", and hart 1
  wakes, prints it and replies.\<close>

definition send_schedule :: "(nat \<times> u8 list) list" where
  "send_schedule = [(1, []), (1, []), (1, []), (0, []), (0, []), (0, [0x31]),
     (0, [0x68, 0x69]), (0, []), (0, [])]"

definition reply_schedule :: "(nat \<times> u8 list) list" where
  "reply_schedule = send_schedule @ [(1, []), (1, []), (1, [])]"

text \<open>Hart 0 sends an empty message to hart 1 before hart 1 has run the
  start-up clear of \<open>other_main\<close>; then every hart reaches its wait loop.\<close>

definition lost_schedule :: "(nat \<times> u8 list) list" where
  "lost_schedule = [(0, []), (0, []), (0, [0x31]), (0, []), (0, []), (0, []),
     (1, []), (1, []), (1, []), (1, []), (2, []), (2, []), (2, []), (2, []),
     (3, []), (3, []), (3, []), (3, []), (4, []), (4, []), (4, []), (4, []), (0, [])]"

section \<open>The invariant\<close>

text \<open>A secondary is idle when it holds no message: before its loop, or
  waiting for its bit.\<close>

definition idle :: "spc \<Rightarrow> bool" where
  "idle p \<longleftrightarrow> p \<in> {SInit, SClear, SMie, SChk, SWfi}"

text \<open>The hart a program counter of hart 0 is serving, and the hart it waits for.\<close>

fun target :: "ppc \<Rightarrow> u64 option" where
  "target (PMsg t) = Some t"
| "target (PCopy t) = Some t"
| "target (PSend t) = Some t"
| "target (PChk t) = Some t"
| "target (PWfi t) = Some t"
| "target (PAck t) = Some t"
| "target _ = None"

fun waiting :: "ppc \<Rightarrow> u64 option" where
  "waiting (PChk t) = Some t"
| "waiting (PWfi t) = Some t"
| "waiting _ = None"

text \<open>Memory at \<open>a\<close> holds the C string \<open>l\<close>.\<close>

definition holds :: "memory \<Rightarrow> addr \<Rightarrow> u8 list \<Rightarrow> bool" where
  "holds m a l \<longleftrightarrow> read_bytes m a (length l + 1) = l @ [0]"

text \<open>The stages of the addressed secondary while hart 0 waits for it: not yet
  woken (its bit set or, if it cleared it at start-up, lost), woken, printing,
  replying, and replied.\<close>

definition replied :: "mbox \<Rightarrow> nat \<Rightarrow> bool" where
  "replied s h \<longleftrightarrow> shown s h \<noteq> [] \<and> last (shown s h) = sent s"

definition served :: "mbox \<Rightarrow> nat \<Rightarrow> bool" where
  "served s h = (case spc s h of
     SAck \<Rightarrow> pending (mb_clint s) h \<and> \<not> pending (mb_clint s) 0
   | SPrint \<Rightarrow> \<not> pending (mb_clint s) h \<and> \<not> pending (mb_clint s) 0
   | SReply \<Rightarrow> \<not> pending (mb_clint s) h \<and> \<not> pending (mb_clint s) 0 \<and> replied s h
   | SChk \<Rightarrow> \<not> pending (mb_clint s) 0 \<or> (\<not> pending (mb_clint s) h \<and> pending (mb_clint s) 0 \<and> replied s h)
   | SWfi \<Rightarrow> \<not> pending (mb_clint s) 0 \<or> (\<not> pending (mb_clint s) h \<and> pending (mb_clint s) 0 \<and> replied s h)
   | _ \<Rightarrow> \<not> pending (mb_clint s) 0)"

definition mbox_inv :: "mbox \<Rightarrow> bool" where
  "mbox_inv s \<longleftrightarrow> rl_buf_ok (rl_buf s) \<and> line_ok (sent s) \<and>
     (\<forall>t. target (ppc s) = Some t \<longrightarrow> 0 < unat t \<and> unat t < MAX_HARTS) \<and>
     (\<forall>h. 0 < h \<and> h < MAX_HARTS \<and> (\<forall>t. waiting (ppc s) = Some t \<longrightarrow> unat t \<noteq> h) \<longrightarrow>
          idle (spc s h) \<and> \<not> pending (mb_clint s) h) \<and>
     (\<forall>t. waiting (ppc s) = Some t \<longrightarrow> holds (mb_mem s) SMP_ADDR (sent s) \<and> served s (unat t)) \<and>
     (waiting (ppc s) = None \<and> (\<forall>t. ppc s \<noteq> PAck t) \<longrightarrow> \<not> pending (mb_clint s) 0) \<and>
     (\<forall>t. ppc s = PCopy t \<longrightarrow> holds (mb_mem s) (rl_buf s) (sent s)) \<and>
     (\<forall>t. ppc s = PSend t \<longrightarrow> holds (mb_mem s) SMP_ADDR (sent s))"

section \<open>Memory lemmas\<close>

lemma line_ok_no_nul: "line_ok l \<Longrightarrow> 0 \<notin> set l"
  by (auto simp: line_ok_def)

lemma line_ok_length: "line_ok l \<Longrightarrow> length l < BUFSIZE"
  by (auto simp: line_ok_def sbi_consts)

lemma holds_bytes:
  assumes "holds m a l"
  shows "read_bytes m a (length l) = l" "m (addr_at a (length l)) = 0"
    "\<forall>i<length l. m (addr_at a i) = l ! i"
proof -
  have "read_bytes m a (length l) @ [m (addr_at a (length l))] = l @ [0]"
    using assms by (simp add: holds_def read_bytes_snoc[symmetric])
  then show r: "read_bytes m a (length l) = l" and "m (addr_at a (length l)) = 0" by simp_all
  show "\<forall>i<length l. m (addr_at a i) = l ! i"
  proof (intro allI impI)
    fix i assume "i < length l"
    then show "m (addr_at a i) = l ! i"
      using arg_cong[OF r, of "\<lambda>xs. xs ! i"] by (simp add: read_bytes_def addr_at_def)
  qed
qed

lemma holds_uart_puts:
  "holds m a l \<Longrightarrow> 0 \<notin> set l \<Longrightarrow> uart_puts m a = Some l"
  using holds_bytes[of m a l] uart_puts_loop_returns[of m a "length l" "[]"] nth_mem
  by (fastforce simp: uart_puts_def)

lemma holds_strlen:
  "holds m a l \<Longrightarrow> 0 \<notin> set l \<Longrightarrow> strlen m a = Some (word_of_nat (length l))"
  using holds_bytes[of m a l] strlen_loop_returns[of m a "length l" 0] nth_mem
  by (fastforce simp: strlen_def)

lemma holds_write: "length l < 2 ^ 64 \<Longrightarrow> holds (write_bytes m a (l @ [0])) a l"
  using read_write_bytes_same[of "l @ [0]" m a] by (simp add: holds_def)

lemma mailbox_copy:
  assumes "rl_buf_ok b" "holds m b l" "length l < BUFSIZE"
  shows "holds (snd (memcpy m SMP_ADDR b (word_of_nat (length l) + 1))) SMP_ADDR l"
proof -
  define k where "k = Suc (length l)"
  have k: "k \<le> BUFSIZE" "k < 2 ^ 64" using assms(3) by (simp_all add: k_def sbi_consts)
  have uk: "unat (word_of_nat (length l) + 1 :: u64) = k"
  proof -
    have "(word_of_nat (length l) + 1 :: u64) = word_of_nat k" by (simp add: k_def)
    then show ?thesis using k(2) by (simp add: unat_of_nat_small)
  qed
  have b: "unat b + BUFSIZE < 2 ^ 64"
    "unat b + BUFSIZE \<le> unat SMP_ADDR \<or> unat SMP_ADDR + SMP_SIZE \<le> unat b"
    using assms(1) by (simp_all add: rl_buf_ok_def)
  have sa: "unat SMP_ADDR = 0x80100000" by (simp add: sbi_consts)
  have "\<forall>i<k. \<forall>j<i. addr_at SMP_ADDR j \<noteq> addr_at b i"
  proof (intro allI impI)
    fix i j assume ij: "i < k" "j < i"
    have "unat SMP_ADDR + j < 2 ^ 64" "unat b + i < 2 ^ 64" using ij k b(1) sa by (simp_all add: sbi_consts)
    moreover have "unat SMP_ADDR + j \<noteq> unat b + i" using ij k b(2) by (auto simp: sbi_consts)
    ultimately show "addr_at SMP_ADDR j \<noteq> addr_at b i" by (simp add: addr_at_eq_iff)
  qed
  then have "snd (memcpy m SMP_ADDR b (word_of_nat (length l) + 1)) =
             write_bytes m SMP_ADDR (read_bytes m b k)"
    using k(2) by (simp add: memcpy_def uk copy_fwd_write_bytes)
  also have "read_bytes m b k = l @ [0]" using assms(2) by (simp add: holds_def k_def)
  finally show ?thesis using assms(3) by (simp add: holds_write sbi_consts)
qed

section \<open>Invariant preservation\<close>

lemma hartid_in_range_unat: "hartid_in_range t \<Longrightarrow> 0 < unat t \<and> unat t < MAX_HARTS"
  by (auto simp: hartid_in_range_def sbi_consts word_le_nat_alt)

lemma pending_ops [simp]:
  "pending (craise h c) = (pending c)(h := True)" "pending (cclear h c) = (pending c)(h := False)"
  by (simp_all add: craise_def cclear_def)

lemma mbox_invD:
  assumes "mbox_inv s"
  shows "rl_buf_ok (rl_buf s)" "line_ok (sent s)"
    "target (ppc s) = Some t \<Longrightarrow> 0 < unat t \<and> unat t < MAX_HARTS"
    "0 < h \<Longrightarrow> h < MAX_HARTS \<Longrightarrow> \<forall>t. waiting (ppc s) = Some t \<longrightarrow> unat t \<noteq> h \<Longrightarrow>
     idle (spc s h) \<and> \<not> pending (mb_clint s) h"
    "waiting (ppc s) = Some t \<Longrightarrow> holds (mb_mem s) SMP_ADDR (sent s) \<and> served s (unat t)"
    "waiting (ppc s) = None \<Longrightarrow> \<forall>t. ppc s \<noteq> PAck t \<Longrightarrow> \<not> pending (mb_clint s) 0"
    "ppc s = PCopy t \<Longrightarrow> holds (mb_mem s) (rl_buf s) (sent s)"
    "ppc s = PSend t \<Longrightarrow> holds (mb_mem s) SMP_ADDR (sent s)"
  using assms unfolding mbox_inv_def by blast+

lemma served_frame:
  "spc s' h = spc s h \<Longrightarrow> pending (mb_clint s') h = pending (mb_clint s) h \<Longrightarrow>
   pending (mb_clint s') 0 = pending (mb_clint s) 0 \<Longrightarrow> shown s' h = shown s h \<Longrightarrow> sent s' = sent s \<Longrightarrow>
   served s' h = served s h"
  by (cases "spc s h") (simp_all add: served_def replied_def)

lemma served_ppc [simp]: "served (s\<lparr>ppc := p\<rparr>) h = served s h"
  by (cases "spc s h") (simp_all add: served_def replied_def)

lemma served_replied:
  "served s h \<Longrightarrow> pending (mb_clint s) 0 \<Longrightarrow> idle (spc s h) \<and> \<not> pending (mb_clint s) h"
  by (cases "spc s h") (simp_all add: served_def idle_def)

lemma inv_primary_copy:
  assumes inv: "mbox_inv s" and l: "line_ok l" and st: "primary_step l s = Some s'"
    and pc: "ppc s = PCopy t"
  shows "mbox_inv s'"
proof -
  note PCopy = pc
  then have h: "holds (mb_mem s) (rl_buf s) (sent s)" "line_ok (sent s)" "rl_buf_ok (rl_buf s)"
    using inv by (auto simp: mbox_inv_def)
  then have "strlen (mb_mem s) (rl_buf s) = Some (word_of_nat (length (sent s)))"
    by (simp add: holds_strlen line_ok_no_nul)
  moreover have "holds (snd (memcpy (mb_mem s) SMP_ADDR (rl_buf s) (word_of_nat (length (sent s)) + 1)))
                   SMP_ADDR (sent s)"
    using h by (simp add: mailbox_copy line_ok_length)
  ultimately show ?thesis using PCopy inv st by (auto simp: mbox_inv_def primary_step_def ZERO_HART_def)
qed

lemma inv_primary_send:
  assumes inv: "mbox_inv s" and l: "line_ok l" and st: "primary_step l s = Some s'"
    and pc: "ppc s = PSend t"
  shows "mbox_inv s'"
proof -
  note PSend = pc
  then have s': "s' = s\<lparr>mb_clint := craise (unat t) (mb_clint s), ppc := PChk t\<rparr>"
    using st by (simp add: primary_step_def)
  have t: "0 < unat t" "unat t < MAX_HARTS" and p0: "\<not> pending (mb_clint s) 0"
    and tgt: "idle (spc s (unat t))"
    using PSend inv by (auto simp: mbox_inv_def)
  then have "served s' (unat t)"
    by (cases "spc s (unat t)") (simp_all add: served_def s' idle_def)
  then show ?thesis using PSend inv t p0 by (auto simp: mbox_inv_def s')
qed

lemma inv_primary_chk:
  assumes inv: "mbox_inv s" and l: "line_ok l" and st: "primary_step l s = Some s'"
    and pc: "ppc s = PChk t"
  shows "mbox_inv s'"
proof -
  note PChk = pc
  show ?thesis
  proof (cases "pending (mb_clint s) ZERO_HART")
    case True
    then have "s' = s\<lparr>ppc := PAck t\<rparr>" using PChk st by (simp add: primary_step_def)
    moreover have "idle (spc s (unat t)) \<and> \<not> pending (mb_clint s) (unat t)"
      using PChk inv True served_replied[of s "unat t"] by (simp add: mbox_inv_def ZERO_HART_def)
    ultimately show ?thesis using PChk inv by (simp add: mbox_inv_def) metis
  next
    case False
    then have "s' = s\<lparr>ppc := PWfi t\<rparr>" using PChk st by (simp add: primary_step_def)
    then show ?thesis using PChk inv by (simp add: mbox_inv_def)
  qed
qed

lemma inv_primary:
  assumes inv: "mbox_inv s" and l: "line_ok l" and st: "primary_step l s = Some s'"
  shows "mbox_inv s'"
proof (cases "ppc s")
  case PClear
  then show ?thesis using inv st by (auto simp: mbox_inv_def primary_step_def ZERO_HART_def)
next
  case PMie
  then show ?thesis using inv st by (auto simp: mbox_inv_def primary_step_def ZERO_HART_def)
next
  case PInput
  then show ?thesis using inv st hartid_in_range_unat[of "to_hartid l"]
    by (cases "hartid_in_range (to_hartid l)") (auto simp: mbox_inv_def primary_step_def)
next
  case (PMsg t)
  have "length l < 2 ^ 64" using line_ok_length[OF l] by (simp add: sbi_consts)
  then show ?thesis using PMsg inv st l by (auto simp: mbox_inv_def primary_step_def ZERO_HART_def holds_write)
next
  case (PCopy t)
  then show ?thesis by (rule inv_primary_copy[OF inv l st])
next
  case (PSend t)
  then show ?thesis by (rule inv_primary_send[OF inv l st])
next
  case (PChk t)
  then show ?thesis by (rule inv_primary_chk[OF inv l st])
next
  case (PWfi t)
  then have "s' = s\<lparr>ppc := PChk t\<rparr>" using st by (simp add: primary_step_def split: if_splits)
  then show ?thesis using PWfi inv by (simp add: mbox_inv_def)
next
  case (PAck t)
  then show ?thesis using inv st by (auto simp: mbox_inv_def primary_step_def ZERO_HART_def)
qed

lemma inv_other_hart:
  assumes inv: "mbox_inv s" and h: "0 < h"
    and nt: "\<forall>t. waiting (ppc s) = Some t \<longrightarrow> unat t \<noteq> h"
    and same: "ppc s' = ppc s" "mb_mem s' = mb_mem s" "rl_buf s' = rl_buf s" "sent s' = sent s"
      "shown s' = shown s" "\<forall>k. k \<noteq> h \<longrightarrow> spc s' k = spc s k"
      "\<forall>k. k \<noteq> h \<longrightarrow> pending (mb_clint s') k = pending (mb_clint s) k"
    and now: "idle (spc s' h)" "\<not> pending (mb_clint s') h"
  shows "mbox_inv s'"
proof -
  have p0: "pending (mb_clint s') 0 = pending (mb_clint s) 0" using same(7) h by simp
  have ser: "served s' (unat t) = served s (unat t)" if "waiting (ppc s) = Some t" for t
    using nt that same p0 by (intro served_frame) auto
  have C: "idle (spc s' k) \<and> \<not> pending (mb_clint s') k"
    if "0 < k" "k < MAX_HARTS" "\<forall>t. waiting (ppc s') = Some t \<longrightarrow> unat t \<noteq> k" for k
  proof (cases "k = h")
    case True
    then show ?thesis using now by simp
  next
    case False
    then show ?thesis using inv that same unfolding mbox_inv_def by simp
  qed
  have D: "holds (mb_mem s') SMP_ADDR (sent s') \<and> served s' (unat t)" if "waiting (ppc s') = Some t" for t
    using inv that same ser unfolding mbox_inv_def by simp
  show ?thesis using inv same p0 C D unfolding mbox_inv_def by simp
qed

lemma inv_served_hart:
  assumes inv: "mbox_inv s" and w: "waiting (ppc s) = Some t" and h: "h = unat t"
    and same: "ppc s' = ppc s" "mb_mem s' = mb_mem s" "rl_buf s' = rl_buf s" "sent s' = sent s"
      "\<forall>k. k \<noteq> h \<longrightarrow> spc s' k = spc s k"
      "\<forall>k. k \<noteq> h \<and> k \<noteq> 0 \<longrightarrow> pending (mb_clint s') k = pending (mb_clint s) k"
    and now: "served s' h"
  shows "mbox_inv s'"
proof -
  have C: "idle (spc s' k) \<and> \<not> pending (mb_clint s') k"
    if "0 < k" "k < MAX_HARTS" "\<forall>t. waiting (ppc s') = Some t \<longrightarrow> unat t \<noteq> k" for k
  proof -
    have "k \<noteq> h" using that(3) w h same(1) by auto
    then show ?thesis using inv that same w unfolding mbox_inv_def by simp
  qed
  show ?thesis using inv same w h now C unfolding mbox_inv_def by simp
qed

lemma served_step:
  assumes ser: "served s h" and st: "secondary_step h s = Some s'" and h: "h \<noteq> 0"
    and mb: "holds (mb_mem s) SMP_ADDR (sent s)" "line_ok (sent s)"
  shows "served s' h"
proof -
  have puts: "uart_puts (mb_mem s) SMP_ADDR = Some (sent s)"
    using mb by (simp add: holds_uart_puts line_ok_no_nul)
  show ?thesis
    using ser st h puts
    by (cases "spc s h") (auto simp: served_def replied_def secondary_step_def ZERO_HART_def split: if_splits)
qed

lemma secondary_step_frame:
  assumes "secondary_step h s = Some s'"
  shows "ppc s' = ppc s" "mb_mem s' = mb_mem s" "rl_buf s' = rl_buf s" "sent s' = sent s"
    "\<forall>k. k \<noteq> h \<longrightarrow> spc s' k = spc s k" "\<forall>k. k \<noteq> h \<longrightarrow> shown s' k = shown s k"
    "\<forall>k. k \<noteq> h \<and> k \<noteq> 0 \<longrightarrow> pending (mb_clint s') k = pending (mb_clint s) k"
  using assms
  by (cases "spc s h"; auto simp: secondary_step_def ZERO_HART_def split: if_splits option.splits)+

lemma idle_step:
  assumes "secondary_step h s = Some s'" "idle (spc s h)" "\<not> pending (mb_clint s) h" "h \<noteq> 0"
  shows "idle (spc s' h)" "\<not> pending (mb_clint s') h" "shown s' = shown s"
    "pending (mb_clint s') 0 = pending (mb_clint s) 0"
  using assms
  by (cases "spc s h"; auto simp: secondary_step_def idle_def ZERO_HART_def split: if_splits)+

lemma inv_secondary:
  assumes inv: "mbox_inv s" and h: "0 < h" "h < MAX_HARTS" and st: "secondary_step h s = Some s'"
  shows "mbox_inv s'"
proof (cases "\<exists>t. waiting (ppc s) = Some t \<and> unat t = h")
  case True
  then obtain t where t: "waiting (ppc s) = Some t" "unat t = h" by blast
  have "served s' h"
    using served_step[OF _ st _ _ mbox_invD(2)[OF inv]] mbox_invD(5)[OF inv t(1)] t(2) h by simp
  note fr = secondary_step_frame[OF st]
  show ?thesis
    by (rule inv_served_hart[OF inv t(1) t(2)[symmetric] fr(1-5) fr(7) \<open>served s' h\<close>])
next
  case False
  then have nt: "\<forall>t. waiting (ppc s) = Some t \<longrightarrow> unat t \<noteq> h" by auto
  then have i: "idle (spc s h)" "\<not> pending (mb_clint s) h" using mbox_invD(4)[OF inv h] by simp_all
  have h0: "h \<noteq> 0" using h by simp
  note fr = secondary_step_frame[OF st] and id = idle_step[OF st i h0]
  have pk: "\<forall>k. k \<noteq> h \<longrightarrow> pending (mb_clint s') k = pending (mb_clint s) k"
    using fr(7) id(4) by metis
  show ?thesis
    by (rule inv_other_hart[OF inv h(1) nt fr(1-4) id(3) fr(5) pk id(1) id(2)])
qed

section \<open>Reachable states\<close>

lemma mbox_start_inv: "mbox_start s \<Longrightarrow> mbox_inv s"
  by (simp add: mbox_start_def mbox_inv_def idle_def line_ok_def)

lemma mbox_step_inv: "mbox_step s t \<Longrightarrow> mbox_inv s \<Longrightarrow> mbox_inv t"
  by (induction rule: mbox_step.induct) (auto intro: inv_primary inv_secondary)

lemma mbox_reach_inv: "mbox_reach s \<Longrightarrow> mbox_inv s"
  by (induction rule: mbox_reach.induct) (auto intro: mbox_start_inv mbox_step_inv)

lemma mbox_run_reach:
  "mbox_run hs s = Some t \<Longrightarrow> mbox_reach s \<Longrightarrow> mbox_reach t"
proof (induction hs arbitrary: s)
  case (Cons p hs)
  obtain h l where p: "p = (h, l)" by fastforce
  obtain u where u: "(if h = 0 then (if line_ok l then primary_step l s else None)
               else if h < MAX_HARTS then secondary_step h s else None) = Some u"
    and rest: "mbox_run hs u = Some t"
    using Cons.prems(1) p by (auto simp: Let_def split: option.splits)
  have "mbox_step s u" using u by (auto intro: mbox_step.intros split: if_splits)
  with Cons.prems(2) have "mbox_reach u" by (rule mbox_reach.step)
  with rest show ?case by (rule Cons.IH)
qed simp

lemma mbox_boot_start: "mbox_start mbox_boot"
  by (simp add: mbox_start_def mbox_boot_def rl_buf_ok_def sbi_consts)

section \<open>Properties of the message test\<close>


text \<open>C8. test_ipi accepts a target line exactly when its first byte is one of the
  digits 1 to 4; the size_t subtraction makes every other byte, those below '0'
  included, out of range.\<close>
lemma hartid_check:
  "hartid_in_range (to_hartid l) \<longleftrightarrow> 0x31 \<le> hd (l @ [0]) \<and> hd (l @ [0]) \<le> (0x34 :: u8)"
proof -
  define c where "c = hd (l @ [0])"
  have cl: "unat c < 256" using unsigned_less[of c] by simp
  then have uc: "unat (ucast c :: u64) = unat c" by (simp add: unsigned_ucast_eq take_bit_nat_eq_self)
  have "unat (to_hartid l) = (if 48 \<le> unat c then unat c - 48 else unat c + 2 ^ 64 - 48)"
    using uc by (simp add: to_hartid_def c_def[symmetric] unat_sub_if' word_size)
  then show ?thesis using cl
    by (auto simp: hartid_in_range_def sbi_consts word_le_nat_alt c_def[symmetric])
qed

lemma addressed_hart:
  assumes "mbox_inv s" "0 < h" "h < MAX_HARTS" "\<not> idle (spc s h) \<or> pending (mb_clint s) h"
  obtains t where "waiting (ppc s) = Some t" "unat t = h"
    "holds (mb_mem s) SMP_ADDR (sent s)" "served s h"
proof -
  have "\<exists>t. waiting (ppc s) = Some t \<and> unat t = h"
    using mbox_invD(4)[OF assms(1-3)] assms(4) by blast
  then obtain t where t: "waiting (ppc s) = Some t" "unat t = h" by blast
  with mbox_invD(5)[OF assms(1) t(1)] show thesis by (intro that) simp_all
qed

text \<open>C4. In every reachable state of the message test, a secondary hart that has
  printed the mailbox and is about to reply is the hart hart 0 is waiting for,
  and the last message it printed is the line hart 0 sent.\<close>
lemma mailbox_delivery:
  assumes "mbox_reach s" "0 < h" "h < MAX_HARTS" "spc s h = SReply"
  shows "(\<exists>t. waiting (ppc s) = Some t \<and> unat t = h) \<and> last (shown s h) = sent s"
proof -
  have nid: "\<not> idle (spc s h)" using assms(4) by (simp add: idle_def)
  obtain t where "waiting (ppc s) = Some t" "unat t = h" "served s h"
    using addressed_hart[OF mbox_reach_inv[OF assms(1)] assms(2,3)] nid by blast
  then show ?thesis using assms(4) by (auto simp: served_def replied_def)
qed

text \<open>C5. Whenever a secondary hart's msip bit is set, hart 0 is waiting for that
  hart and the mailbox at SMP_ADDR already holds the sent line and its
  terminating NUL.\<close>
lemma mailbox_signal_after_write:
  assumes "mbox_reach s" "0 < h" "h < MAX_HARTS" "pending (mb_clint s) h"
  shows "(\<exists>t. waiting (ppc s) = Some t \<and> unat t = h) \<and>
    take (length (sent s) + 1) (read_bytes (mb_mem s) SMP_ADDR SMP_SIZE) = sent s @ [0]"
proof -
  obtain t where t: "waiting (ppc s) = Some t" "unat t = h" "holds (mb_mem s) SMP_ADDR (sent s)"
    using addressed_hart[OF mbox_reach_inv[OF assms(1)] assms(2,3)] assms(4) by blast
  have "length (sent s) + 1 \<le> SMP_SIZE"
    using line_ok_length[OF mbox_invD(2)[OF mbox_reach_inv[OF assms(1)]]] by (simp add: sbi_consts)
  then show ?thesis using t by (auto simp: holds_def read_bytes_def take_map)
qed

lemma mailbox_bounds:
  assumes "mbox_reach s" "target (ppc s) = Some t"
  shows "0 < unat t \<and> unat t < MAX_HARTS \<and> length (sent s) < BUFSIZE \<and> length (sent s) + 1 \<le> SMP_SIZE"
  using mbox_invD(3)[OF mbox_reach_inv[OF assms(1)] assms(2)]
    line_ok_length[OF mbox_invD(2)[OF mbox_reach_inv[OF assms(1)]]]
  by (simp add: sbi_consts)

lemma secondary_stepI:
  "secondary_step h s = Some u \<Longrightarrow> 0 < h \<Longrightarrow> h < MAX_HARTS \<Longrightarrow> mbox_step\<^sup>*\<^sup>* u v \<Longrightarrow> mbox_step\<^sup>*\<^sup>* s v"
  by (blast intro: converse_rtranclp_into_rtranclp mbox_step.secondary)

lemma primary_stepI:
  "primary_step [] s = Some u \<Longrightarrow> mbox_step\<^sup>*\<^sup>* u v \<Longrightarrow> mbox_step\<^sup>*\<^sup>* s v"
  by (rule converse_rtranclp_into_rtranclp[where r = mbox_step, OF mbox_step.primary[where l = "[]"]])
    (simp_all add: line_ok_def)

text \<open>C6. From a reachable state where hart 0 is at its msip check waiting for hart
  t, and hart t is at its own check with its bit set, a schedule brings hart 0
  back to its input loop with hart t having printed the sent line.\<close>
lemma mailbox_round_completes:
  assumes "mbox_reach s" "ppc s = PChk t" "spc s (unat t) = SChk" "pending (mb_clint s) (unat t)"
  shows "\<exists>u. mbox_step\<^sup>*\<^sup>* s u \<and> ppc u = PInput \<and> sent u = sent s \<and> last (shown u (unat t)) = sent s"
proof -
  define h where "h = unat t"
  have inv: "mbox_inv s" by (rule mbox_reach_inv[OF assms(1)])
  have h: "0 < h" "h < MAX_HARTS" using mbox_invD(3)[OF inv, of t] assms(2) by (simp_all add: h_def)
  have w: "holds (mb_mem s) SMP_ADDR (sent s)" "served s h"
    using mbox_invD(5)[OF inv, of t] assms(2) by (simp_all add: h_def)
  have p0: "\<not> pending (mb_clint s) 0" using w(2) assms(3,4) by (simp add: served_def h_def)
  have puts: "uart_puts (mb_mem s) SMP_ADDR = Some (sent s)"
    using holds_uart_puts[OF w(1) line_ok_no_nul[OF mbox_invD(2)[OF inv]]] .
  define s1 where "s1 = s\<lparr>spc := (spc s)(h := SAck)\<rparr>"
  define s2 where "s2 = s1\<lparr>mb_clint := cclear h (mb_clint s1), spc := (spc s1)(h := SPrint)\<rparr>"
  define s3 where "s3 = s2\<lparr>shown := (shown s2)(h := shown s2 h @ [sent s]), spc := (spc s2)(h := SReply)\<rparr>"
  define s4 where "s4 = s3\<lparr>mb_clint := craise ZERO_HART (mb_clint s3), spc := (spc s3)(h := SChk)\<rparr>"
  define s5 where "s5 = s4\<lparr>ppc := PAck t\<rparr>"
  define s6 where "s6 = s5\<lparr>mb_clint := cclear ZERO_HART (mb_clint s5), ppc := PInput\<rparr>"
  have st1: "secondary_step h s = Some s1" using assms(3,4) by (simp add: secondary_step_def s1_def h_def)
  have st2: "secondary_step h s1 = Some s2" by (simp add: secondary_step_def s2_def s1_def)
  have st3: "secondary_step h s2 = Some s3" using puts by (simp add: secondary_step_def s3_def s2_def s1_def)
  have st4: "secondary_step h s3 = Some s4" by (simp add: secondary_step_def s4_def s3_def s2_def s1_def)
  have st5: "primary_step [] s4 = Some s5"
    using assms(2) by (simp add: primary_step_def s5_def s4_def s3_def s2_def s1_def sbi_consts)
  have st6: "primary_step [] s5 = Some s6" by (simp add: primary_step_def s6_def s5_def)
  have "mbox_step\<^sup>*\<^sup>* s s6"
    using secondary_stepI[OF st1 h secondary_stepI[OF st2 h secondary_stepI[OF st3 h
      secondary_stepI[OF st4 h primary_stepI[OF st5 primary_stepI[OF st6 rtranclp.rtrancl_refl]]]]]] .
  moreover have "ppc s6 = PInput \<and> sent s6 = sent s \<and> last (shown s6 (unat t)) = sent s"
    by (simp add: s6_def s5_def s4_def s3_def s2_def s1_def h_def)
  ultimately show ?thesis by blast
qed

lemma mbox_stuck:
  assumes "ppc s = PWfi t" "\<not> pending (mb_clint s) 0"
    "\<forall>h\<in>{1, 2, 3, 4}. spc s h = SWfi \<and> \<not> pending (mb_clint s) h"
  shows "\<not> mbox_step s u"
proof
  assume "mbox_step s u"
  then show False
  proof (cases rule: mbox_step.cases)
    case (secondary h)
    then have "h \<in> {1, 2, 3, 4}" by (auto simp: sbi_consts)
    then show False using secondary(3) assms(3) by (auto simp: secondary_step_def)
  qed (use assms(1,2) in \<open>simp add: primary_step_def sbi_consts\<close>)
qed

lemma lost_run:
  "\<exists>s. mbox_run lost_schedule mbox_boot = Some s \<and> ppc s = PWfi 1 \<and> sent s = [] \<and> shown s 1 = [] \<and>
     \<not> pending (mb_clint s) 0 \<and> (\<forall>h\<in>{1, 2, 3, 4}. spc s h = SWfi \<and> \<not> pending (mb_clint s) h)"
  by (simp add: lost_schedule_def mbox_boot_def primary_step_def secondary_step_def line_ok_def
      to_hartid_def hartid_in_range_def sbi_consts strlen_def strlen_loop.simps memcpy_def
      write_bytes_def in_region_def cclear_def craise_def)

lemma copy_fwd_numeral:
  "copy_fwd m d s (numeral k) = copy_fwd (m(d := m s)) (d + 1) (s + 1) (pred_numeral k)"
  by (simp add: numeral_eq_Suc)

lemma send_run:
  "\<exists>s. mbox_run send_schedule mbox_boot = Some s \<and> ppc s = PChk 1 \<and> spc s 1 = SChk \<and>
     pending (mb_clint s) 1"
  by (simp add: send_schedule_def mbox_boot_def primary_step_def secondary_step_def line_ok_def
      to_hartid_def hartid_in_range_def sbi_consts strlen_def strlen_loop.simps memcpy_def
      write_bytes_def in_region_def cclear_def craise_def copy_fwd_numeral)

lemma reply_run:
  "\<exists>s. mbox_run reply_schedule mbox_boot = Some s \<and> spc s 1 = SReply"
  by (simp add: reply_schedule_def send_schedule_def mbox_boot_def primary_step_def secondary_step_def
      line_ok_def to_hartid_def hartid_in_range_def sbi_consts strlen_def strlen_loop.simps memcpy_def
      write_bytes_def in_region_def cclear_def craise_def copy_fwd_numeral uart_puts_def uart_puts_loop.simps)

text \<open>C7. Some reachable state is a deadlock: hart 0 raised hart 1's bit before hart
  1's start-up clint_clear_soft erased it, so hart 0 waits for a reply forever
  and hart 1 never prints.\<close>
lemma mailbox_lost_wakeup:
  "\<exists>s. mbox_reach s \<and> ppc s = PWfi 1 \<and> shown s 1 = [] \<and> (\<forall>u. \<not> mbox_step s u)"
proof -
  obtain s where run: "mbox_run lost_schedule mbox_boot = Some s" and p: "ppc s = PWfi 1"
    and sh: "shown s 1 = []" and p0: "\<not> pending (mb_clint s) 0"
    and w: "\<forall>h\<in>{1, 2, 3, 4}. spc s h = SWfi \<and> \<not> pending (mb_clint s) h"
    using lost_run by blast
  have "mbox_reach s" by (rule mbox_run_reach[OF run mbox_reach.start[OF mbox_boot_start]])
  with p sh mbox_stuck[OF p p0 w] show ?thesis by blast
qed

lemma mailbox_delivery_witness:
  "\<exists>s. mbox_reach s \<and> spc s 1 = SReply \<and> (\<exists>t. waiting (ppc s) = Some t \<and> unat t = 1) \<and>
     last (shown s 1) = sent s"
proof -
  obtain s where run: "mbox_run reply_schedule mbox_boot = Some s" and r: "spc s 1 = SReply"
    using reply_run by blast
  have reach: "mbox_reach s" by (rule mbox_run_reach[OF run mbox_reach.start[OF mbox_boot_start]])
  have "0 < (1::nat)" "1 < MAX_HARTS" by (simp_all add: sbi_consts)
  with reach r mailbox_delivery[OF reach _ _ r] show ?thesis by blast
qed

lemma send_reach:
  "\<exists>s. mbox_reach s \<and> ppc s = PChk 1 \<and> spc s 1 = SChk \<and> pending (mb_clint s) 1"
  using send_run mbox_run_reach[OF _ mbox_reach.start[OF mbox_boot_start]] by blast

lemma mailbox_signal_after_write_witness:
  "\<exists>s. mbox_reach s \<and> pending (mb_clint s) 1 \<and> (\<exists>t. waiting (ppc s) = Some t \<and> unat t = 1) \<and>
    take (length (sent s) + 1) (read_bytes (mb_mem s) SMP_ADDR SMP_SIZE) = sent s @ [0]"
proof -
  obtain s where s: "mbox_reach s" "pending (mb_clint s) 1" using send_reach by blast
  have "0 < (1::nat)" "1 < MAX_HARTS" by (simp_all add: sbi_consts)
  with s mailbox_signal_after_write[OF s(1) _ _ s(2)] show ?thesis by blast
qed

lemma mailbox_bounds_witness:
  "\<exists>s. mbox_reach s \<and> target (ppc s) = Some 1 \<and> 0 < unat (1::u64) \<and> unat (1::u64) < MAX_HARTS \<and>
     length (sent s) < BUFSIZE \<and> length (sent s) + 1 \<le> SMP_SIZE"
proof -
  obtain s where s: "mbox_reach s" "ppc s = PChk 1" using send_reach by blast
  then have t: "target (ppc s) = Some 1" by simp
  from s(1) t mailbox_bounds[OF s(1) t] show ?thesis by blast
qed

lemma mailbox_round_completes_witness:
  "\<exists>s. mbox_reach s \<and> ppc s = PChk 1 \<and>
     (\<exists>u. mbox_step\<^sup>*\<^sup>* s u \<and> ppc u = PInput \<and> sent u = sent s \<and> last (shown u 1) = sent s)"
proof -
  obtain s where s: "mbox_reach s" "ppc s = PChk 1" "spc s 1 = SChk" "pending (mb_clint s) 1"
    using send_reach by blast
  have "spc s (unat (1::u64)) = SChk" "pending (mb_clint s) (unat (1::u64))" using s(3,4) by simp_all
  from mailbox_round_completes[OF s(1,2) this] s(1,2) show ?thesis by auto
qed

end
