(* ===== verification/Send.thy ===== *)
theory Send
  imports Clint Strings
begin

text \<open>
  The send path of the mailbox at the level of a hart's loads, stores and
  fences: \<open>smp_memcpy\<close> of \<open>main.c\<close> (a copy through the fenced byte
  accessors \<open>readb\<close>/\<open>writeb\<close>), the plain \<open>memcpy\<close> of \<open>string.c\<close> as the
  byte loads and stores it compiles to, and the sequence of \<open>test_ipi\<close> that
  copies the line into the mailbox and raises the target's msip bit.
\<close>

section \<open>Copy loops\<close>

text \<open>\<open>smp_memcpy\<close> (\<open>main.c\<close> lines 35--43): \<open>while (n-- > 0)\<close> runs
  \<open>unat n\<close> times, each time \<open>writeb(readb(s), d)\<close>.\<close>

fun smp_copy :: "addr \<Rightarrow> addr \<Rightarrow> nat \<Rightarrow> 'a machine_scheme \<Rightarrow> 'a machine_scheme" where
  "smp_copy d s 0 st = st"
| "smp_copy d s (Suc n) st = (let (v, st') = readb s st in smp_copy (d + 1) (s + 1) n (writeb v d st'))"

definition smp_memcpy :: "addr \<Rightarrow> addr \<Rightarrow> u64 \<Rightarrow> 'a machine_scheme \<Rightarrow> addr \<times> 'a machine_scheme" where
  "smp_memcpy dst src n st = (dst, smp_copy dst src (unat n) st)"

text \<open>\<open>memcpy\<close> (\<open>string.c\<close> lines 34--41): \<open>*d++ = *s++\<close> is one \<open>lb\<close> and
  one \<open>sb\<close>, with no fence.\<close>

fun plain_copy :: "addr \<Rightarrow> addr \<Rightarrow> nat \<Rightarrow> 'a machine_scheme \<Rightarrow> 'a machine_scheme" where
  "plain_copy d s 0 st = st"
| "plain_copy d s (Suc n) st =
     (let (v :: u8, st') = raw_read 1 s st in plain_copy (d + 1) (s + 1) n (raw_write 1 v d st'))"

definition memcpy_io :: "addr \<Rightarrow> addr \<Rightarrow> u64 \<Rightarrow> 'a machine_scheme \<Rightarrow> addr \<times> 'a machine_scheme" where
  "memcpy_io dst src n st = (dst, plain_copy dst src (unat n) st)"

section \<open>The send sequence of \<open>test_ipi\<close>\<close>

text \<open>Lines 89--96: \<open>memcpy(SMP_ADDR, m, strlen(m) + 1)\<close>, then
  \<open>clint_send_soft(to_hartid)\<close>.  The console output of lines 93--95 goes to
  the UART and is left out.\<close>

definition test_ipi_send :: "u64 \<Rightarrow> addr \<Rightarrow> 'a clint_state_scheme \<Rightarrow> 'a clint_state_scheme option" where
  "test_ipi_send to m st = (case strlen (mem st) m of
     None \<Rightarrow> None
   | Some n \<Rightarrow> Some (clint_send_soft to (snd (memcpy_io SMP_ADDR m (n + 1) st))))"

fun is_fence :: "io_event \<Rightarrow> bool" where
  "is_fence (Fence p q) = True"
| "is_fence _ = False"

text \<open>A hart with zeroed memory, an empty trace and the board's CLINT.\<close>

definition send_demo :: clint_state where
  "send_demo = \<lparr>mem = (\<lambda>_. 0), io_trace = [], clint_base = CLINT_CTRL_ADDR\<rparr>"

section \<open>Lemmas\<close>

lemma le_word_byte [simp]: "(le_word [b] :: u8) = b"
  by simp

lemma le_bytes_byte [simp]: "le_bytes (Suc 0) (v :: u8) = [v]"
  by (simp add: le_bytes_def)

lemma write_bytes_byte [simp]: "write_bytes m a [b] = m(a := b)"
  using write_bytes_Cons[of "[]" m a b] by simp

lemma read_bytes_byte [simp]: "read_bytes m a (Suc 0) = [m a]"
  by (simp add: read_bytes_def)

lemma smp_copy_mem: "mem (smp_copy d s n st) = copy_fwd (mem st) d s n"
  by (induction n arbitrary: d s st) (simp_all add: readb_def writeb_def io_read_val split_def)

lemma plain_copy_mem: "mem (plain_copy d s n st) = copy_fwd (mem st) d s n"
  by (induction n arbitrary: d s st) (simp_all add: raw_read_def raw_write_def split_def)

lemma smp_copy_ordered:
  "io_ordered (io_trace st) \<Longrightarrow> io_ordered (io_trace (smp_copy d s n st))"
  by (induction n arbitrary: d s st)
    (simp_all add: readb_def writeb_def split_def Let_def io_read_ordered io_write_ordered)

lemma plain_copy_base [simp]: "clint_base (plain_copy d s n st) = clint_base st"
  by (induction n arbitrary: d s st) (simp_all add: raw_read_def raw_write_def split_def)

lemma plain_copy_trace:
  "\<exists>ev. io_trace (plain_copy d s n st) = io_trace st @ ev \<and>
     (\<forall>e\<in>set ev. \<not> is_fence e \<and> (\<forall>k a bs. e = Store k a bs \<longrightarrow> (\<exists>i<n. a = addr_at d i)))"
proof (induction n arbitrary: d s st)
  case (Suc n)
  define st1 where "st1 = raw_write 1 (fst (raw_read 1 s st :: u8 \<times> _)) d (snd (raw_read 1 s st :: u8 \<times> _))"
  obtain ev where ev: "io_trace (plain_copy (d + 1) (s + 1) n st1) = io_trace st1 @ ev"
    and evs: "\<forall>e\<in>set ev. \<not> is_fence e \<and> (\<forall>k a bs. e = Store k a bs \<longrightarrow> (\<exists>i<n. a = addr_at (d + 1) i))"
    using Suc.IH by blast
  have "plain_copy d s (Suc n) st = plain_copy (d + 1) (s + 1) n st1" by (simp add: st1_def split_def Let_def)
  moreover obtain v where "io_trace st1 = io_trace st @ [Load 1 s, Store 1 d v]"
    by (simp add: st1_def raw_read_def raw_write_def)
  moreover have "\<forall>e\<in>set ev. \<forall>k a bs. e = Store k a bs \<longrightarrow> (\<exists>i<Suc n. a = addr_at d i)"
    using evs by (metis Suc_mono addr_at_Suc)
  moreover have "d = addr_at d 0" by (simp add: addr_at_def)
  ultimately show ?case using ev evs by (intro exI[of _ "[Load 1 s, Store 1 d v] @ ev"]) auto
qed simp

lemma memcpy_io_mem: "mem (snd (memcpy_io dst src n st)) = snd (memcpy (mem st) dst src n)"
  by (simp add: memcpy_io_def memcpy_def plain_copy_mem)

section \<open>Properties\<close>

text \<open>C10. smp_memcpy returns what memcpy returns and leaves memory as memcpy does.\<close>
theorem smp_memcpy_is_memcpy:
  "fst (smp_memcpy dst src n st) = fst (memcpy (mem st) dst src n) \<and>
   mem (snd (smp_memcpy dst src n st)) = snd (memcpy (mem st) dst src n)"
  by (simp add: smp_memcpy_def memcpy_def smp_copy_mem)

text \<open>C11. smp_memcpy keeps a hart's trace well fenced: each byte store directly
  follows a fence w,o and each byte load is directly followed by a fence i,r.\<close>
theorem smp_memcpy_fenced:
  "io_ordered (io_trace st) \<Longrightarrow> io_ordered (io_trace (snd (smp_memcpy dst src n st)))"
  by (simp add: smp_memcpy_def smp_copy_ordered)

text \<open>C9. When strlen returns, test_ipi's copy of the line into the mailbox issues
  only loads and mailbox stores, followed by one fence w,o and then the store
  that raises the target's msip bit.\<close>
theorem test_ipi_send_ordered:
  assumes "strlen (mem st) m = Some n"
  shows "\<exists>ev st'. test_ipi_send to m st = Some st' \<and>
     io_trace st' = io_trace st @ ev @ [Fence [FW] [FO], Store 4 (CLINT_SOFT (clint_base st) to) (le_bytes 4 (1 :: u32))] \<and>
     (\<forall>e\<in>set ev. \<not> is_fence e \<and> (\<forall>k a bs. e = Store k a bs \<longrightarrow> (\<exists>i<unat (n + 1). a = addr_at SMP_ADDR i)))"
proof -
  define st1 where "st1 = snd (memcpy_io SMP_ADDR m (n + 1) st)"
  obtain ev where ev: "io_trace st1 = io_trace st @ ev"
    and evs: "\<forall>e\<in>set ev. \<not> is_fence e \<and> (\<forall>k a bs. e = Store k a bs \<longrightarrow> (\<exists>i<unat (n + 1). a = addr_at SMP_ADDR i))"
    using plain_copy_trace[of SMP_ADDR m "unat (n + 1)" st] by (auto simp: st1_def memcpy_io_def)
  have "test_ipi_send to m st = Some (clint_send_soft to st1)"
    using assms by (simp add: test_ipi_send_def st1_def)
  moreover have "clint_base st1 = clint_base st" by (simp add: st1_def memcpy_io_def)
  then have "io_trace (clint_send_soft to st1) =
      io_trace st @ ev @ [Fence [FW] [FO], Store 4 (CLINT_SOFT (clint_base st) to) (le_bytes 4 (1 :: u32))]"
    using ev by (simp add: clint_send_soft_def writew_def io_write_trace)
  ultimately show ?thesis using evs by blast
qed

theorem smp_memcpy_fenced_witness:
  "io_ordered (io_trace send_demo) \<and> io_ordered (io_trace (snd (smp_memcpy SMP_ADDR 0x80200000 3 send_demo)))"
  using smp_memcpy_fenced[of send_demo SMP_ADDR "0x80200000" 3] by (simp add: send_demo_def)

theorem test_ipi_send_ordered_witness:
  "strlen (mem send_demo) 0x80200000 = Some 0 \<and>
   (\<exists>ev st'. test_ipi_send 1 0x80200000 send_demo = Some st' \<and>
     io_trace st' = io_trace send_demo @ ev @ [Fence [FW] [FO], Store 4 (CLINT_SOFT (clint_base send_demo) 1) (le_bytes 4 (1 :: u32))] \<and>
     (\<forall>e\<in>set ev. \<not> is_fence e \<and> (\<forall>k a bs. e = Store k a bs \<longrightarrow> (\<exists>i<unat (0 + 1 :: u64). a = addr_at SMP_ADDR i))))"
proof -
  have s: "strlen (mem send_demo) 0x80200000 = Some 0"
    by (simp add: send_demo_def strlen_def strlen_loop.simps)
  show ?thesis using s test_ipi_send_ordered[OF s, of 1] by blast
qed

end
