(* ===== verification/TrapFrame.thy ===== *)
theory TrapFrame
  imports IO
begin

text \<open>
  The saved-context data contract of \<open>trap/trap.h\<close>: \<open>struct trap_regs\<close>
  (the 32 general registers, \<open>mepc\<close> and \<open>mstatus\<close>) and \<open>struct
  trap_info\<close> (the cause record), with the register names of
  \<open>include/riscv.h\<close> that index the register array, and the empty
  \<open>trap_handler\<close> of \<open>main.c\<close>.  No code of the repository builds, saves or
  restores a frame (the trap entry and exit sequences are not in it, and
  \<open>trap_redirect\<close> is declared but defined nowhere), so this theory holds the
  structures and the register naming only.
\<close>

section \<open>Register names\<close>

text \<open>\<open>REG_NUM\<close> and \<open>REG_ZERO\<close> .. \<open>REG_T6\<close> (\<open>riscv.h\<close> lines 13--47).\<close>

definition REG_NUM :: nat where "REG_NUM = 32"

datatype reg_name =
    REG_ZERO | REG_RA | REG_SP | REG_GP | REG_TP | REG_T0 | REG_T1 | REG_T2
  | REG_S0 | REG_S1 | REG_A0 | REG_A1 | REG_A2 | REG_A3 | REG_A4 | REG_A5
  | REG_A6 | REG_A7 | REG_S2 | REG_S3 | REG_S4 | REG_S5 | REG_S6 | REG_S7
  | REG_S8 | REG_S9 | REG_S10 | REG_S11 | REG_T3 | REG_T4 | REG_T5 | REG_T6

fun reg_index :: "reg_name \<Rightarrow> nat" where
  "reg_index REG_ZERO = 0" | "reg_index REG_RA = 1" | "reg_index REG_SP = 2" | "reg_index REG_GP = 3"
| "reg_index REG_TP = 4" | "reg_index REG_T0 = 5" | "reg_index REG_T1 = 6" | "reg_index REG_T2 = 7"
| "reg_index REG_S0 = 8" | "reg_index REG_S1 = 9" | "reg_index REG_A0 = 10" | "reg_index REG_A1 = 11"
| "reg_index REG_A2 = 12" | "reg_index REG_A3 = 13" | "reg_index REG_A4 = 14" | "reg_index REG_A5 = 15"
| "reg_index REG_A6 = 16" | "reg_index REG_A7 = 17" | "reg_index REG_S2 = 18" | "reg_index REG_S3 = 19"
| "reg_index REG_S4 = 20" | "reg_index REG_S5 = 21" | "reg_index REG_S6 = 22" | "reg_index REG_S7 = 23"
| "reg_index REG_S8 = 24" | "reg_index REG_S9 = 25" | "reg_index REG_S10 = 26" | "reg_index REG_S11 = 27"
| "reg_index REG_T3 = 28" | "reg_index REG_T4 = 29" | "reg_index REG_T5 = 30" | "reg_index REG_T6 = 31"

text \<open>The names in the order of their indices.\<close>

definition reg_names :: "reg_name list" where
  "reg_names = [REG_ZERO, REG_RA, REG_SP, REG_GP, REG_TP, REG_T0, REG_T1, REG_T2,
     REG_S0, REG_S1, REG_A0, REG_A1, REG_A2, REG_A3, REG_A4, REG_A5,
     REG_A6, REG_A7, REG_S2, REG_S3, REG_S4, REG_S5, REG_S6, REG_S7,
     REG_S8, REG_S9, REG_S10, REG_S11, REG_T3, REG_T4, REG_T5, REG_T6]"

section \<open>The frame\<close>

text \<open>\<open>struct trap_regs\<close> (\<open>trap.h\<close> lines 13--18); the array \<open>regs[REG_NUM]\<close>
  is a list whose length the type invariant \<open>trap_regs_wf\<close> fixes.\<close>

record trap_regs =
  regs :: "u64 list"
  mepc :: u64
  mstatus :: u64

definition trap_regs_wf :: "trap_regs \<Rightarrow> bool" where
  "trap_regs_wf r \<longleftrightarrow> length (regs r) = REG_NUM"

text \<open>\<open>struct trap_info\<close> (lines 20--31).\<close>

record trap_info =
  epc :: u64
  cause :: u64
  tval :: u64
  tval2 :: u64
  tinst :: u64

text \<open>The register a name denotes, and an update of it.\<close>

definition frame_reg :: "trap_regs \<Rightarrow> reg_name \<Rightarrow> u64" where
  "frame_reg r x = regs r ! reg_index x"

definition set_frame_reg :: "reg_name \<Rightarrow> u64 \<Rightarrow> trap_regs \<Rightarrow> trap_regs" where
  "set_frame_reg x v r = r\<lparr>regs := (regs r)[reg_index x := v]\<rparr>"
text \<open>\<open>void trap_handler() {}\<close> (\<open>main.c\<close> line 102) takes no frame and
  returns nothing: a call leaves the hart's state as it was.\<close>

definition trap_handler :: "'a machine_scheme \<Rightarrow> 'a machine_scheme" where
  "trap_handler s = s"

text \<open>The names form a finite enumerated type, listed in index order.\<close>

instantiation reg_name :: enum
begin

definition enum_reg_name :: "reg_name list" where "enum_reg_name = reg_names"

definition enum_all_reg_name :: "(reg_name \<Rightarrow> bool) \<Rightarrow> bool" where
  "enum_all_reg_name P = list_all P reg_names"

definition enum_ex_reg_name :: "(reg_name \<Rightarrow> bool) \<Rightarrow> bool" where
  "enum_ex_reg_name P = list_ex P reg_names"

instance
proof
  have reg_names_UNIV: "set reg_names = UNIV"
  proof (rule sym, rule UNIV_eq_I)
    fix x show "x \<in> set reg_names" by (cases x) (simp_all add: reg_names_def)
  qed
  show "(UNIV :: reg_name set) = set enum_class.enum" by (simp add: enum_reg_name_def reg_names_UNIV)
  show "distinct (enum_class.enum :: reg_name list)" by (simp add: enum_reg_name_def reg_names_def)
  fix P :: "reg_name \<Rightarrow> bool"
  show "enum_class.enum_all P = Ball UNIV P"
    by (simp add: enum_all_reg_name_def list_all_iff reg_names_UNIV)
  show "enum_class.enum_ex P = Bex UNIV P"
    by (simp add: enum_ex_reg_name_def list_ex_iff reg_names_UNIV)
qed

end
section \<open>Lemmas\<close>

lemma reg_names_UNIV: "set reg_names = UNIV"
  using enum_UNIV[where 'a = reg_name] by (simp add: enum_reg_name_def)

lemma reg_names_index: "map reg_index reg_names = [0..<REG_NUM]"
  by (simp add: reg_names_def REG_NUM_def upt_rec)

lemma reg_index_inj: "inj reg_index"
proof -
  have "inj_on reg_index (set reg_names)"
    using distinct_map[of reg_index reg_names] reg_names_index by simp
  then show ?thesis by (simp add: reg_names_UNIV)
qed

lemma reg_index_bound [simp]: "reg_index x < REG_NUM"
proof -
  have "reg_index x \<in> set (map reg_index reg_names)" using reg_names_UNIV by simp
  then show ?thesis by (simp only: reg_names_index) simp
qed

lemma set_frame_reg_wf: "trap_regs_wf r \<Longrightarrow> trap_regs_wf (set_frame_reg x v r)"
  by (simp add: trap_regs_wf_def set_frame_reg_def)

lemma frame_reg_set:
  "trap_regs_wf r \<Longrightarrow> frame_reg (set_frame_reg x v r) y = (if y = x then v else frame_reg r y)"
proof -
  assume "trap_regs_wf r"
  moreover have "reg_index y = reg_index x \<longleftrightarrow> y = x"
    using reg_index_inj by (auto dest: injD)
  ultimately show ?thesis by (auto simp: frame_reg_def set_frame_reg_def trap_regs_wf_def)
qed

text \<open>The names index the register array one to one.\<close>

lemma reg_index_bij: "bij_betw reg_index (UNIV :: reg_name set) {..<REG_NUM}"
proof -
  have "reg_index ` UNIV = set (map reg_index reg_names)" by (simp add: reg_names_UNIV)
  also have "\<dots> = {..<REG_NUM}" by (simp only: reg_names_index) auto
  finally show ?thesis using reg_index_inj by (simp add: bij_betw_def)
qed

end
