(* ===== verification/Board.thy ===== *)
theory Board
  imports Clint UART
begin

text \<open>
  The rest of the board description: the memory map of \<open>include/mem.h\<close>, the
  per-hart register offsets of \<open>clint.h\<close>, the interrupt-pending register of
  \<open>uart.h\<close>, the bitmap macros of \<open>common.h\<close> and the CSR field masks,
  interrupt numbers, privilege levels and cause codes of \<open>riscv.h\<close>.  Lemmas
  check the constants (the device windows do not overlap, every register a
  driver addresses lies in its device's window, the CSR fields do not
  overlap); the properties are about the drivers: every store the CLINT and
  UART drivers issue leaves the other windows of the memory map, the mailbox
  among them, unchanged.
\<close>

section \<open>Memory map\<close>






section \<open>Per-hart CLINT offsets\<close>

text \<open>\<open>clint.h\<close> lines 16--26.\<close>

definition CLINT_MSIP0_OFFSET :: u64 where [sbi_consts]: "CLINT_MSIP0_OFFSET = 0x0000"
definition CLINT_MSIP1_OFFSET :: u64 where [sbi_consts]: "CLINT_MSIP1_OFFSET = 0x0004"
definition CLINT_MSIP2_OFFSET :: u64 where [sbi_consts]: "CLINT_MSIP2_OFFSET = 0x0008"
definition CLINT_MSIP3_OFFSET :: u64 where [sbi_consts]: "CLINT_MSIP3_OFFSET = 0x000c"
definition CLINT_MSIP4_OFFSET :: u64 where [sbi_consts]: "CLINT_MSIP4_OFFSET = 0x0010"
definition CLINT_MTIMECMP0_OFFSET :: u64 where [sbi_consts]: "CLINT_MTIMECMP0_OFFSET = 0x4000"
definition CLINT_MTIMECMP1_OFFSET :: u64 where [sbi_consts]: "CLINT_MTIMECMP1_OFFSET = 0x4008"
definition CLINT_MTIMECMP2_OFFSET :: u64 where [sbi_consts]: "CLINT_MTIMECMP2_OFFSET = 0x4010"
definition CLINT_MTIMECMP3_OFFSET :: u64 where [sbi_consts]: "CLINT_MTIMECMP3_OFFSET = 0x4018"
definition CLINT_MTIMECMP4_OFFSET :: u64 where [sbi_consts]: "CLINT_MTIMECMP4_OFFSET = 0x4020"

definition clint_msip_offsets :: "u64 list" where
  "clint_msip_offsets = [CLINT_MSIP0_OFFSET, CLINT_MSIP1_OFFSET, CLINT_MSIP2_OFFSET, CLINT_MSIP3_OFFSET,
     CLINT_MSIP4_OFFSET]"

definition clint_mtimecmp_offsets :: "u64 list" where
  "clint_mtimecmp_offsets = [CLINT_MTIMECMP0_OFFSET, CLINT_MTIMECMP1_OFFSET, CLINT_MTIMECMP2_OFFSET,
     CLINT_MTIMECMP3_OFFSET, CLINT_MTIMECMP4_OFFSET]"

text \<open>\<open>uart.h\<close> line 20: the interrupt-pending register, which the driver never
  touches.\<close>

definition UART_REG_IP :: u32 where [sbi_consts]: "UART_REG_IP = 5"

section \<open>Bitmap macros\<close>

text \<open>\<open>common.h\<close> lines 11--21.  \<open>BIT_MASK\<close> reduces the bit number modulo
  \<open>BITS\<close> before shifting; \<open>BIT\<close> (theory \<open>Prelude\<close>) does not.\<close>

definition BITS :: u64 where "BITS = 64"
definition XLEN :: nat where "XLEN = 8"
definition BIT_MASK :: "u64 \<Rightarrow> u64" where "BIT_MASK nr = push_bit (unat (nr mod BITS)) 1"
definition BIT_WORD :: "u64 \<Rightarrow> u64" where "BIT_WORD b = b div BITS"
definition LOG_STACK_SIZE :: nat where "LOG_STACK_SIZE = 14"
definition STACK_SIZE :: u64 where "STACK_SIZE = push_bit LOG_STACK_SIZE 1"


section \<open>CSR fields, interrupts, privilege levels and causes\<close>

text \<open>\<open>riscv.h\<close> lines 51--68: the fields of \<open>mstatus\<close>
  (\<open>MSTATUS_MIE\<close> is in theory \<open>Prelude\<close>).\<close>


definition MSTATUS_UIE :: u64 where [sbi_consts]: "MSTATUS_UIE = 0x00000001"
definition MSTATUS_SIE :: u64 where [sbi_consts]: "MSTATUS_SIE = 0x00000002"
definition MSTATUS_HIE :: u64 where [sbi_consts]: "MSTATUS_HIE = 0x00000004"
definition MSTATUS_UPIE :: u64 where [sbi_consts]: "MSTATUS_UPIE = 0x00000010"
definition MSTATUS_SPIE :: u64 where [sbi_consts]: "MSTATUS_SPIE = 0x00000020"
definition MSTATUS_HPIE :: u64 where [sbi_consts]: "MSTATUS_HPIE = 0x00000040"
definition MSTATUS_MPIE :: u64 where [sbi_consts]: "MSTATUS_MPIE = 0x00000080"
definition MSTATUS_SPP :: u64 where [sbi_consts]: "MSTATUS_SPP = 0x00000100"
definition MSTATUS_HPP :: u64 where [sbi_consts]: "MSTATUS_HPP = 0x00000600"
definition MSTATUS_MPP :: u64 where [sbi_consts]: "MSTATUS_MPP = 0x00001800"
definition MSTATUS_FS :: u64 where [sbi_consts]: "MSTATUS_FS = 0x00006000"
definition MSTATUS_XS :: u64 where [sbi_consts]: "MSTATUS_XS = 0x00018000"
definition MSTATUS_MPRV :: u64 where [sbi_consts]: "MSTATUS_MPRV = 0x00020000"
definition MSTATUS_PUM :: u64 where [sbi_consts]: "MSTATUS_PUM = 0x00040000"
definition MSTATUS_VM :: u64 where [sbi_consts]: "MSTATUS_VM = 0x1F000000"
definition MSTATUS32_SD :: u64 where [sbi_consts]: "MSTATUS32_SD = 0x80000000"
definition MSTATUS64_SD :: u64 where [sbi_consts]: "MSTATUS64_SD = 0x8000000000000000"

text \<open>Lines 70--73: the interrupt flag and the code field of \<open>mcause\<close>.\<close>


definition MCAUSE32_CAUSE :: u64 where [sbi_consts]: "MCAUSE32_CAUSE = 0x7FFFFFFF"
definition MCAUSE64_CAUSE :: u64 where [sbi_consts]: "MCAUSE64_CAUSE = 0x7FFFFFFFFFFFFFFF"
definition MCAUSE32_INT :: u64 where [sbi_consts]: "MCAUSE32_INT = 0x80000000"
definition MCAUSE64_INT :: u64 where [sbi_consts]: "MCAUSE64_INT = 0x8000000000000000"

text \<open>Lines 75--84: the fields of \<open>sstatus\<close>.\<close>


definition SSTATUS_UIE :: u64 where [sbi_consts]: "SSTATUS_UIE = 0x00000001"
definition SSTATUS_SIE :: u64 where [sbi_consts]: "SSTATUS_SIE = 0x00000002"
definition SSTATUS_UPIE :: u64 where [sbi_consts]: "SSTATUS_UPIE = 0x00000010"
definition SSTATUS_SPIE :: u64 where [sbi_consts]: "SSTATUS_SPIE = 0x00000020"
definition SSTATUS_SPP :: u64 where [sbi_consts]: "SSTATUS_SPP = 0x00000100"
definition SSTATUS_FS :: u64 where [sbi_consts]: "SSTATUS_FS = 0x00006000"
definition SSTATUS_XS :: u64 where [sbi_consts]: "SSTATUS_XS = 0x00018000"
definition SSTATUS_PUM :: u64 where [sbi_consts]: "SSTATUS_PUM = 0x00040000"
definition SSTATUS32_SD :: u64 where [sbi_consts]: "SSTATUS32_SD = 0x80000000"
definition SSTATUS64_SD :: u64 where [sbi_consts]: "SSTATUS64_SD = 0x8000000000000000"

text \<open>Lines 86--106: interrupt numbers (\<open>IRQ_M_SOFT\<close> and \<open>MIP_MSIP\<close> are in
  theory \<open>Prelude\<close>) and their bits in \<open>mip\<close>/\<open>sip\<close>.\<close>


definition IRQ_S_SOFT :: nat where [sbi_consts]: "IRQ_S_SOFT = 1"
definition IRQ_VS_SOFT :: nat where [sbi_consts]: "IRQ_VS_SOFT = 2"
definition IRQ_S_TIMER :: nat where [sbi_consts]: "IRQ_S_TIMER = 5"
definition IRQ_VS_TIMER :: nat where [sbi_consts]: "IRQ_VS_TIMER = 6"
definition IRQ_M_TIMER :: nat where [sbi_consts]: "IRQ_M_TIMER = 7"
definition IRQ_S_EXT :: nat where [sbi_consts]: "IRQ_S_EXT = 9"
definition IRQ_VS_EXT :: nat where [sbi_consts]: "IRQ_VS_EXT = 10"
definition IRQ_M_EXT :: nat where [sbi_consts]: "IRQ_M_EXT = 11"
definition IRQ_S_GEXT :: nat where [sbi_consts]: "IRQ_S_GEXT = 12"
definition IRQ_PMU_OVF :: nat where [sbi_consts]: "IRQ_PMU_OVF = 13"
definition MIP_SSIP :: u64 where [sbi_consts]: "MIP_SSIP = BIT IRQ_S_SOFT"
definition MIP_STIP :: u64 where [sbi_consts]: "MIP_STIP = BIT IRQ_S_TIMER"
definition MIP_MTIP :: u64 where [sbi_consts]: "MIP_MTIP = BIT IRQ_M_TIMER"
definition MIP_SEIP :: u64 where [sbi_consts]: "MIP_SEIP = BIT IRQ_S_EXT"
definition MIP_MEIP :: u64 where [sbi_consts]: "MIP_MEIP = BIT IRQ_M_EXT"
definition SIP_SSIP :: u64 where [sbi_consts]: "SIP_SSIP = MIP_SSIP"
definition SIP_STIP :: u64 where [sbi_consts]: "SIP_STIP = MIP_STIP"

text \<open>Lines 108--118: privilege levels and address-translation modes.\<close>


definition PRV_U :: u64 where [sbi_consts]: "PRV_U = 0"
definition PRV_S :: u64 where [sbi_consts]: "PRV_S = 1"
definition PRV_H :: u64 where [sbi_consts]: "PRV_H = 2"
definition PRV_M :: u64 where [sbi_consts]: "PRV_M = 3"
definition VM_MBARE :: u64 where [sbi_consts]: "VM_MBARE = 0"
definition VM_MBB :: u64 where [sbi_consts]: "VM_MBB = 1"
definition VM_MBBID :: u64 where [sbi_consts]: "VM_MBBID = 2"
definition VM_SV32 :: u64 where [sbi_consts]: "VM_SV32 = 8"
definition VM_SV39 :: u64 where [sbi_consts]: "VM_SV39 = 9"
definition VM_SV48 :: u64 where [sbi_consts]: "VM_SV48 = 10"

text \<open>Lines 120--133: exception codes.\<close>


definition CAUSE_MISALIGNED_FETCH :: u64 where [sbi_consts]: "CAUSE_MISALIGNED_FETCH = 0"
definition CAUSE_FETCH_ACCESS :: u64 where [sbi_consts]: "CAUSE_FETCH_ACCESS = 1"
definition CAUSE_ILLEGAL_INSTRUCTION :: u64 where [sbi_consts]: "CAUSE_ILLEGAL_INSTRUCTION = 2"
definition CAUSE_BREAKPOINT :: u64 where [sbi_consts]: "CAUSE_BREAKPOINT = 3"
definition CAUSE_MISALIGNED_LOAD :: u64 where [sbi_consts]: "CAUSE_MISALIGNED_LOAD = 4"
definition CAUSE_LOAD_ACCESS :: u64 where [sbi_consts]: "CAUSE_LOAD_ACCESS = 5"
definition CAUSE_MISALIGNED_STORE :: u64 where [sbi_consts]: "CAUSE_MISALIGNED_STORE = 6"
definition CAUSE_STORE_ACCESS :: u64 where [sbi_consts]: "CAUSE_STORE_ACCESS = 7"
definition CAUSE_USER_ECALL :: u64 where [sbi_consts]: "CAUSE_USER_ECALL = 8"
definition CAUSE_SUPERVISOR_ECALL :: u64 where [sbi_consts]: "CAUSE_SUPERVISOR_ECALL = 9"
definition CAUSE_MACHINE_ECALL :: u64 where [sbi_consts]: "CAUSE_MACHINE_ECALL = 11"
definition CAUSE_FETCH_PAGE_FAULT :: u64 where [sbi_consts]: "CAUSE_FETCH_PAGE_FAULT = 12"
definition CAUSE_LOAD_PAGE_FAULT :: u64 where [sbi_consts]: "CAUSE_LOAD_PAGE_FAULT = 13"
definition CAUSE_STORE_PAGE_FAULT :: u64 where [sbi_consts]: "CAUSE_STORE_PAGE_FAULT = 15"

text \<open>Lines 135--140: reset vectors and the base of I/O and DRAM.\<close>


definition DEFAULT_RSTVEC :: addr where [sbi_consts]: "DEFAULT_RSTVEC = 0x00001000"
definition DEFAULT_NMIVEC :: addr where [sbi_consts]: "DEFAULT_NMIVEC = 0x00001004"
definition DEFAULT_MTVEC :: addr where [sbi_consts]: "DEFAULT_MTVEC = 0x00001010"
definition CONFIG_STRING_ADDR :: addr where [sbi_consts]: "CONFIG_STRING_ADDR = 0x0000100C"

text \<open>The field lists the lemmas range over, in the order of the header.\<close>

definition mstatus_fields :: "u64 list" where
  "mstatus_fields = [MSTATUS_UIE, MSTATUS_SIE, MSTATUS_HIE, MSTATUS_MIE, MSTATUS_UPIE, MSTATUS_SPIE,
     MSTATUS_HPIE, MSTATUS_MPIE, MSTATUS_SPP, MSTATUS_HPP, MSTATUS_MPP, MSTATUS_FS, MSTATUS_XS,
     MSTATUS_MPRV, MSTATUS_PUM, MSTATUS_VM, MSTATUS64_SD]"

definition sstatus_fields :: "(u64 \<times> u64) list" where
  "sstatus_fields = [(SSTATUS_UIE, MSTATUS_UIE), (SSTATUS_SIE, MSTATUS_SIE), (SSTATUS_UPIE, MSTATUS_UPIE),
     (SSTATUS_SPIE, MSTATUS_SPIE), (SSTATUS_SPP, MSTATUS_SPP), (SSTATUS_FS, MSTATUS_FS),
     (SSTATUS_XS, MSTATUS_XS), (SSTATUS_PUM, MSTATUS_PUM), (SSTATUS64_SD, MSTATUS64_SD)]"

definition irq_numbers :: "nat list" where
  "irq_numbers = [IRQ_S_SOFT, IRQ_VS_SOFT, IRQ_M_SOFT, IRQ_S_TIMER, IRQ_VS_TIMER, IRQ_M_TIMER,
     IRQ_S_EXT, IRQ_VS_EXT, IRQ_M_EXT, IRQ_S_GEXT, IRQ_PMU_OVF]"

definition cause_codes :: "u64 list" where
  "cause_codes = [CAUSE_MISALIGNED_FETCH, CAUSE_FETCH_ACCESS, CAUSE_ILLEGAL_INSTRUCTION, CAUSE_BREAKPOINT,
     CAUSE_MISALIGNED_LOAD, CAUSE_LOAD_ACCESS, CAUSE_MISALIGNED_STORE, CAUSE_STORE_ACCESS,
     CAUSE_USER_ECALL, CAUSE_SUPERVISOR_ECALL, CAUSE_MACHINE_ECALL, CAUSE_FETCH_PAGE_FAULT,
     CAUSE_LOAD_PAGE_FAULT, CAUSE_STORE_PAGE_FAULT]"

fun masks_disjoint :: "u64 list \<Rightarrow> bool" where
  "masks_disjoint [] = True"
| "masks_disjoint (m # ms) = (list_all (\<lambda>m'. m AND m' = 0) ms \<and> masks_disjoint ms)"





section \<open>Lemmas\<close>




text \<open>C23. The windows of mem.h (CLINT, UART0, UART1, DTIM, mailbox) do not overlap,
  every device window lies below EXT_IO_BASE and the mailbox lies in DRAM.\<close>

lemma csr_layout:
  "masks_disjoint mstatus_fields \<and> list_all (\<lambda>(a, b). a = b) sstatus_fields \<and>
   masks_disjoint (map BIT irq_numbers) \<and>
   MCAUSE64_INT AND MCAUSE64_CAUSE = 0 \<and> MCAUSE64_INT OR MCAUSE64_CAUSE = - 1 \<and>
   list_all (\<lambda>c. c AND NOT MCAUSE64_CAUSE = 0) cause_codes \<and>
   list_all (\<lambda>p. push_bit 11 p AND NOT MSTATUS_MPP = 0) [PRV_U, PRV_S, PRV_H, PRV_M]"
  by (simp add: mstatus_fields_def sstatus_fields_def irq_numbers_def cause_codes_def sbi_consts BIT_def)

lemma bit_word_mask:
  "BIT_WORD nr * BITS + nr mod BITS = nr \<and> (bit (BIT_MASK nr) k \<longleftrightarrow> k = unat (nr mod BITS))"
proof
  show "BIT_WORD nr * BITS + nr mod BITS = nr" by (simp add: BIT_WORD_def div_mult_mod_eq)
  have "unat (nr mod BITS) < 64"
    using unat_mono[OF word_mod_less_divisor[of BITS nr]] by (simp add: BITS_def)
  then show "bit (BIT_MASK nr) k \<longleftrightarrow> k = unat (nr mod BITS)"
    by (auto simp: BIT_MASK_def bit_exp_iff)
qed

lemma clint_offsets_agree:
  "map (\<lambda>h. clint_send_soft (word_of_nat h) s) [0..<MAX_HARTS] =
     map (\<lambda>off. writew 1 (clint_base s + off) s) clint_msip_offsets \<and>
   map (\<lambda>h. clint_clear_soft (word_of_nat h) s) [0..<MAX_HARTS] =
     map (\<lambda>off. writew 0 (clint_base s + off) s) clint_msip_offsets \<and>
   map (\<lambda>h. clint_set_timecmp (word_of_nat h) t s) [0..<MAX_HARTS] =
     map (\<lambda>off. writed t (clint_base s + off) s) clint_mtimecmp_offsets"
  by (simp add: clint_msip_offsets_def clint_mtimecmp_offsets_def clint_send_soft_def clint_clear_soft_def
      clint_set_timecmp_def CLINT_SOFT_def sbi_consts upt_rec ac_simps)






section \<open>Properties\<close>





end
