(* ===== verification/Csr.thy ===== *)
theory Csr
  imports Console
begin

text \<open>
  The CSR access macros of \<open>include/riscv.h\<close> (\<open>read_csr\<close>, \<open>write_csr\<close>,
  \<open>swap_csr\<close>, \<open>set_csr\<close>, \<open>clear_csr\<close>: one \<open>csrr\<close>, \<open>csrw\<close>,
  \<open>csrrw\<close>, \<open>csrrs\<close> or \<open>csrrc\<close> instruction each) over a hart's file of
  machine CSRs, and \<open>__intr_save\<close>/\<open>__intr_restore\<close> of \<open>console.c\<close>
  written with them, refining the value-level model of theory \<open>Console\<close>.
\<close>

section \<open>CSR instructions\<close>

text \<open>The machine CSRs the firmware names.\<close>

datatype csr = CSR_mstatus | CSR_mie | CSR_mip | CSR_mhartid | CSR_mepc | CSR_mcause | CSR_mtval

type_synonym csr_file = "csr \<Rightarrow> u64"

definition read_csr :: "csr \<Rightarrow> csr_file \<Rightarrow> u64" where
  "read_csr r cs = cs r"

definition write_csr :: "csr \<Rightarrow> u64 \<Rightarrow> csr_file \<Rightarrow> csr_file" where
  "write_csr r v cs = cs(r := v)"

text \<open>\<open>csrrw\<close>, \<open>csrrs\<close>, \<open>csrrc\<close> return the old value.\<close>

definition swap_csr :: "csr \<Rightarrow> u64 \<Rightarrow> csr_file \<Rightarrow> u64 \<times> csr_file" where
  "swap_csr r v cs = (cs r, cs(r := v))"

definition set_csr :: "csr \<Rightarrow> u64 \<Rightarrow> csr_file \<Rightarrow> u64 \<times> csr_file" where
  "set_csr r b cs = (cs r, cs(r := cs r OR b))"

definition clear_csr :: "csr \<Rightarrow> u64 \<Rightarrow> csr_file \<Rightarrow> u64 \<times> csr_file" where
  "clear_csr r b cs = (cs r, cs(r := cs r AND NOT b))"

section \<open>Interrupt save and restore\<close>

text \<open>\<open>__intr_save\<close> (\<open>console.c\<close> lines 10--17) and \<open>__intr_restore\<close>
  (lines 19--21) as the CSR instructions they issue.\<close>

definition intr_save_csr :: "csr_file \<Rightarrow> int \<times> csr_file" where
  "intr_save_csr cs = (let mstatus = read_csr CSR_mstatus cs in
     if mstatus AND MSTATUS_MIE \<noteq> 0 then (1, snd (clear_csr CSR_mstatus MSTATUS_MIE cs)) else (0, cs))"

definition intr_restore_csr :: "int \<Rightarrow> csr_file \<Rightarrow> csr_file" where
  "intr_restore_csr flag cs = (if flag \<noteq> 0 then snd (set_csr CSR_mstatus MSTATUS_MIE cs) else cs)"

section \<open>Tagged output\<close>

text \<open>\<open>puts\<close> of \<open>main.c\<close> (lines 27--33) as the bytes it hands to the UART:
  the literal \<open>"\\r\\n[HART "\<close>, the character \<open>'0' + hartid\<close> (the hart id read
  from \<open>mhartid\<close> and truncated to \<open>char\<close>), the literal \<open>"] "\<close>, then the
  string at \<open>s\<close>; \<open>None\<close> when that string has no terminator.\<close>

definition puts_prefix :: "u8 list" where
  "puts_prefix = [0x0D, 0x0A, 0x5B, 0x48, 0x41, 0x52, 0x54, 0x20]"

definition puts_bytes :: "u8 \<Rightarrow> u8 list \<Rightarrow> u8 list" where
  "puts_bytes hartid bs = puts_prefix @ [0x30 + hartid] @ [0x5D, 0x20] @ bs"

definition sbi_puts :: "csr_file \<Rightarrow> memory \<Rightarrow> addr \<Rightarrow> u8 list option" where
  "sbi_puts cs m s = map_option (puts_bytes (ucast (read_csr CSR_mhartid cs))) (uart_puts m s)"

section \<open>Lemmas\<close>

text \<open>Both routines change \<open>mstatus\<close> only, as the value-level model says.\<close>

lemma intr_save_csr_refines:
  "intr_save_csr cs = (fst (intr_save (cs CSR_mstatus)), cs(CSR_mstatus := snd (intr_save (cs CSR_mstatus))))"
  by (simp add: intr_save_csr_def intr_save_def read_csr_def clear_csr_def Let_def)

lemma intr_restore_csr_refines:
  "intr_restore_csr f cs = cs(CSR_mstatus := intr_restore f (cs CSR_mstatus))"
  by (auto simp: intr_restore_csr_def intr_restore_def set_csr_def)

text \<open>\<open>set_csr(mie, MIP_MSIP)\<close> enables the machine software interrupt and
  nothing else.\<close>

lemma set_csr_mie_msip:
  "bit (snd (set_csr CSR_mie MIP_MSIP cs) CSR_mie) k \<longleftrightarrow> k = IRQ_M_SOFT \<or> bit (cs CSR_mie) k"
  by (auto simp: set_csr_def MIP_MSIP_def BIT_def bit_simps bit_numeral_Bit0_iff IRQ_M_SOFT_def)

text \<open>On a hart numbered below ten, \<open>puts\<close> tags its output with the hart's
  decimal digit.\<close>

lemma sbi_puts_tag:
  assumes "cs CSR_mhartid < 10" "uart_puts m s = Some bs"
  shows "\<exists>d. sbi_puts cs m s = Some (puts_prefix @ [d] @ [0x5D, 0x20] @ bs) \<and>
    unat d = 48 + unat (cs CSR_mhartid)"
proof -
  have h: "unat (cs CSR_mhartid) < 10" using assms(1) by (simp add: word_less_nat_alt)
  then have u: "unat (ucast (cs CSR_mhartid) :: u8) = unat (cs CSR_mhartid)"
    by (simp add: unsigned_ucast_eq take_bit_nat_eq_self)
  have "unat (0x30 + ucast (cs CSR_mhartid) :: u8) = 48 + unat (cs CSR_mhartid)"
    using h u by (simp add: unat_add_lem[THEN iffD1])
  then show ?thesis using assms(2) by (simp add: sbi_puts_def puts_bytes_def read_csr_def)
qed

end
