(* ===== verification/Boot.thy ===== *)
theory Boot
  imports Board Csr
begin

text \<open>
  What runs before the message test: the \<open>smp_disable\<close> macro of
  \<open>include/smp.h\<close>, which parks every hart but hart 0, and \<open>main\<close> of
  \<open>main.c\<close>, which initialises the UART and CLINT drivers, prints a banner and
  a hexadecimal test value, runs one console round and enters \<open>test_ipi\<close>.
  \<open>main\<close> is the composition of the driver models: the UART and CLINT drivers
  keep separate static state and address disjoint register windows (theory
  \<open>Board\<close>), so they are two driver instances; the output is the sequence of
  bytes handed to \<open>uart_putc\<close>.
\<close>

section \<open>\<open>smp_disable\<close>\<close>

text \<open>The macro's instructions (\<open>smp.h\<close> lines 21--28): \<open>csrr reg1, mhartid\<close>,
  \<open>li reg2, ZERO_HART\<close>, \<open>beq reg1, reg2, hart0_entry\<close>, then the loop
  \<open>42: wfi; j 42b\<close>; \<open>DEntry\<close> is the label \<open>hart0_entry\<close>.\<close>

datatype dpc = DCsrr | DLi | DBeq | DWfi | DJmp | DEntry

record dis =
  dpc :: dpc
  reg1 :: u64
  reg2 :: u64

text \<open>One instruction of the hart whose \<open>mhartid\<close> is \<open>h\<close>; \<open>wfi\<close> steps when
  the hart wakes (sleeping on is no step).  At \<open>hart0_entry\<close> the macro is done.\<close>

definition disable_step :: "u64 \<Rightarrow> dis \<Rightarrow> dis option" where
  "disable_step h s = (case dpc s of
     DCsrr \<Rightarrow> Some (s\<lparr>reg1 := h, dpc := DLi\<rparr>)
   | DLi \<Rightarrow> Some (s\<lparr>reg2 := word_of_nat ZERO_HART, dpc := DBeq\<rparr>)
   | DBeq \<Rightarrow> Some (s\<lparr>dpc := if reg1 s = reg2 s then DEntry else DWfi\<rparr>)
   | DWfi \<Rightarrow> Some (s\<lparr>dpc := DJmp\<rparr>)
   | DJmp \<Rightarrow> Some (s\<lparr>dpc := DWfi\<rparr>)
   | DEntry \<Rightarrow> None)"

inductive park_reach :: "u64 \<Rightarrow> dis \<Rightarrow> bool" for h where
  start: "dpc s = DCsrr \<Longrightarrow> park_reach h s"
| step: "park_reach h s \<Longrightarrow> disable_step h s = Some t \<Longrightarrow> park_reach h t"

text \<open>What the registers hold at each label.\<close>

definition park_inv :: "u64 \<Rightarrow> dis \<Rightarrow> bool" where
  "park_inv h s \<longleftrightarrow> (dpc s \<noteq> DCsrr \<longrightarrow> reg1 s = h) \<and>
     (dpc s \<notin> {DCsrr, DLi} \<longrightarrow> reg2 s = word_of_nat ZERO_HART) \<and>
     (dpc s = DEntry \<longrightarrow> reg1 s = reg2 s)"

section \<open>\<open>main\<close>\<close>

text \<open>\<open>main.c\<close> lines 19--21.\<close>

definition DEFAULT_UART :: addr where "DEFAULT_UART = UART0_ADDR"
definition DEFAULT_UART_FREQ :: u32 where "DEFAULT_UART_FREQ = 0"
definition DEFAULT_UART_BAUDRATE :: u32 where "DEFAULT_UART_BAUDRATE = 115200"

text \<open>The bytes of a string literal.\<close>

definition lit :: "string \<Rightarrow> u8 list" where
  "lit s = map of_char s"

text \<open>\<open>main\<close> (lines 45--67) up to the call of \<open>test_ipi\<close>, for the hart whose
  CSRs are \<open>cs\<close>, the values \<open>rx\<close> the UART's receive register returns, and
  the two drivers' states.  It returns the bytes printed, the number of
  receive-register reads, and the driver states \<open>test_ipi\<close> starts from;
  \<open>None\<close> when \<open>readline\<close> never returns.\<close>

definition main_run ::
  "csr_file \<Rightarrow> (nat \<Rightarrow> u32) \<Rightarrow> uart_state \<Rightarrow> clint_state \<Rightarrow> (u8 list \<times> nat \<times> uart_state \<times> clint_state) option" where
  "main_run cs rx u c =
     (let hart = (ucast (read_csr CSR_mhartid cs) :: u8);
          u1 = uart_init DEFAULT_UART DEFAULT_UART_FREQ DEFAULT_UART_BAUDRATE u;
          c1 = clint_init CLINT_CTRL_ADDR c;
          banner = puts_bytes hart (lit ''Running SBI!'') @ puts_bytes hart (lit ''Test put hexadecimal: '') @
                   uart_put_hex 0x12345678 @ puts_bytes hart (lit ''Test console: '')
      in case readline rx 0 None of
           None \<Rightarrow> None
         | Some (line, i, echo) \<Rightarrow>
             Some (banner @ echo @
                     (case line of None \<Rightarrow> [] | Some l \<Rightarrow> puts_bytes hart (lit ''Test console OK: '') @ l) @
                     puts_bytes hart (lit ''Test IPI''), i, u1, c1))"

text \<open>Driver states at reset: zeroed memory, no accesses yet, no base recorded.\<close>

definition reset_uart :: uart_state where
  "reset_uart = \<lparr>mem = (\<lambda>_. 0), io_trace = [], uart_base = 0, uart_in_freq = 0, uart_baudrate = 0\<rparr>"

definition reset_clint :: clint_state where
  "reset_clint = \<lparr>mem = (\<lambda>_. 0), io_trace = [], clint_base = 0\<rparr>"

section \<open>Lemmas\<close>

lemma park_inv_start: "dpc s = DCsrr \<Longrightarrow> park_inv h s"
  by (simp add: park_inv_def)

lemma park_inv_step: "park_inv h s \<Longrightarrow> disable_step h s = Some t \<Longrightarrow> park_inv h t"
  by (cases "dpc s") (auto simp: park_inv_def disable_step_def split: if_splits)

lemma park_reach_inv: "park_reach h s \<Longrightarrow> park_inv h s"
  by (induction rule: park_reach.induct) (auto intro: park_inv_start park_inv_step)

lemma put_hex_test_value: "uart_put_hex 0x12345678 = lit ''0x12345678''"
  by (simp add: uart_put_hex_def hex_digit_def lit_def upt_rec)

section \<open>Properties\<close>

text \<open>C19. In every state smp_disable can reach on a hart, the hart has passed to
  hart0_entry only if its mhartid is ZERO_HART: every other hart stays in the
  wfi loop forever.\<close>
theorem smp_disable_parks:
  assumes "park_reach h s" "dpc s = DEntry"
  shows "h = word_of_nat ZERO_HART"
  using park_reach_inv[OF assms(1)] assms(2) by (auto simp: park_inv_def)

theorem smp_disable_parks_witness:
  "park_reach 0 \<lparr>dpc = DEntry, reg1 = 0, reg2 = 0\<rparr> \<and> dpc \<lparr>dpc = DEntry, reg1 = 0, reg2 = 0\<rparr> = DEntry \<and>
   (0 :: u64) = word_of_nat ZERO_HART"
proof -
  let ?s0 = "\<lparr>dpc = DCsrr, reg1 = 0, reg2 = 0\<rparr>"
  have r0: "park_reach 0 ?s0" by (rule park_reach.start) simp
  have r1: "park_reach 0 (?s0\<lparr>reg1 := 0, dpc := DLi\<rparr>)"
    by (rule park_reach.step[OF r0]) (simp add: disable_step_def)
  have r2: "park_reach 0 (?s0\<lparr>reg1 := 0, dpc := DLi, reg2 := word_of_nat ZERO_HART, dpc := DBeq\<rparr>)"
    by (rule park_reach.step[OF r1]) (simp add: disable_step_def)
  have r3: "park_reach 0 \<lparr>dpc = DEntry, reg1 = 0, reg2 = 0\<rparr>"
    by (rule park_reach.step[OF r2]) (simp add: disable_step_def ZERO_HART_def)
  have "(0 :: u64) = word_of_nat ZERO_HART"
    using smp_disable_parks[OF r3] by simp
  with r3 show ?thesis by simp
qed

text \<open>C20. When the console delivers a printable line and a carriage return, main
  prints its banner, 0x12345678, echoes the line, prints it back after Test
  console OK, announces the IPI test and enters test_ipi with the UART and CLINT
  initialised.\<close>
theorem main_transcript:
  assumes "line_ok l"
  shows "main_run cs (typed l) u c =
    Some (puts_bytes (ucast (cs CSR_mhartid)) (lit ''Running SBI!'') @
          puts_bytes (ucast (cs CSR_mhartid)) (lit ''Test put hexadecimal: '') @ lit ''0x12345678'' @
          puts_bytes (ucast (cs CSR_mhartid)) (lit ''Test console: '') @ l @ [13] @
          puts_bytes (ucast (cs CSR_mhartid)) (lit ''Test console OK: '') @ l @
          puts_bytes (ucast (cs CSR_mhartid)) (lit ''Test IPI''),
          Suc (length l), uart_init DEFAULT_UART DEFAULT_UART_FREQ DEFAULT_UART_BAUDRATE u,
          clint_init CLINT_CTRL_ADDR c)"
  using readline_typed_from[OF assms, of 0]
  by (simp add: main_run_def readline_def put_hex_test_value read_csr_def Let_def)

theorem main_transcript_witness:
  "line_ok [0x68, 0x69] \<and>
   main_run (\<lambda>_. 0) (typed [0x68, 0x69]) reset_uart reset_clint =
    Some (puts_bytes (ucast ((\<lambda>_. 0 :: u64) CSR_mhartid)) (lit ''Running SBI!'') @
          puts_bytes (ucast ((\<lambda>_. 0 :: u64) CSR_mhartid)) (lit ''Test put hexadecimal: '') @ lit ''0x12345678'' @
          puts_bytes (ucast ((\<lambda>_. 0 :: u64) CSR_mhartid)) (lit ''Test console: '') @ [0x68, 0x69] @ [13] @
          puts_bytes (ucast ((\<lambda>_. 0 :: u64) CSR_mhartid)) (lit ''Test console OK: '') @ [0x68, 0x69] @
          puts_bytes (ucast ((\<lambda>_. 0 :: u64) CSR_mhartid)) (lit ''Test IPI''),
          Suc (length [0x68 :: u8, 0x69]), uart_init DEFAULT_UART DEFAULT_UART_FREQ DEFAULT_UART_BAUDRATE reset_uart,
          clint_init CLINT_CTRL_ADDR reset_clint)"
proof -
  have l: "line_ok [0x68, 0x69]" by (simp add: line_ok_def sbi_consts)
  from l main_transcript[OF l, of "\<lambda>_. 0" reset_uart reset_clint] show ?thesis by blast
qed

text \<open>\<open>main\<close> reaches \<open>test_ipi\<close> once a line end arrives, for a transmitter
  that accepts every byte (the busy-wait of \<open>uart_putc\<close> is not modelled), and
  leaves the UART divisor register unprogrammed.\<close>
theorem main_terminates:
  assumes "uart_getc_val (rx j) \<in> {10, 13}"
  shows "\<exists>out i u' c'. main_run cs rx u c = Some (out, i, u', c') \<and>
    uart_base u' = UART0_ADDR \<and> uart_reg u' 24 = uart_reg (u\<lparr>uart_base := UART0_ADDR\<rparr>) 24 \<and>
    uart_reg u' 8 = UART_TXCTRL_TXEN \<and> uart_reg u' 12 = UART_RXCTRL_RXEN \<and>
    clint_base c' = CLINT_CTRL_ADDR"
proof -
  obtain line i echo where r: "readline rx 0 None = Some (line, i, echo)"
    using readline_loop_terminates[where rx = rx and j = j and i = 0 and buf = "[]" and echo = "[]"] assms
    by (auto simp: readline_def)
  let ?u' = "uart_init DEFAULT_UART DEFAULT_UART_FREQ DEFAULT_UART_BAUDRATE u"
  have "uart_base ?u' = UART0_ADDR \<and> uart_reg ?u' 24 = uart_reg (u\<lparr>uart_base := UART0_ADDR\<rparr>) 24 \<and>
    uart_reg ?u' 8 = UART_TXCTRL_TXEN \<and> uart_reg ?u' 12 = UART_RXCTRL_RXEN"
    using uart_init_regs[of DEFAULT_UART DEFAULT_UART_FREQ DEFAULT_UART_BAUDRATE u]
    by (simp add: DEFAULT_UART_def DEFAULT_UART_FREQ_def)
  with r show ?thesis by (auto simp: main_run_def Let_def clint_init_def)
qed

theorem main_terminates_witness:
  "uart_getc_val (typed [0x61] 1) \<in> {10, 13} \<and>
   (\<exists>out i u' c'. main_run (\<lambda>_. 0) (typed [0x61]) reset_uart reset_clint = Some (out, i, u', c') \<and>
    uart_base u' = UART0_ADDR \<and> uart_reg u' 24 = uart_reg (reset_uart\<lparr>uart_base := UART0_ADDR\<rparr>) 24 \<and>
    uart_reg u' 8 = UART_TXCTRL_TXEN \<and> uart_reg u' 12 = UART_RXCTRL_RXEN \<and>
    clint_base c' = CLINT_CTRL_ADDR)"
proof -
  have e: "uart_getc_val (typed [0x61] 1) \<in> {10, 13}" by (simp add: typed_def uart_getc_val_def sbi_consts)
  from e main_terminates[where rx = "typed [0x61]" and j = 1 and cs = "\<lambda>_. 0" and u = reset_uart and c = reset_clint, OF e] show ?thesis by blast
qed

end
