(* ===== verification/Spec2Isabelle.thy ===== *)
theory Spec2Isabelle
  imports Barrier Mailbox Send TrapFrame Boot
begin

text \<open>
  \<^bold>\<open>A verification library for the tCore SBI firmware (\<open>src/sbi\<close>).\<close>

  The firmware boots five RISC-V harts in machine mode.  Hart 0 runs \<open>main\<close>;
  the others wait in the boot barrier of \<open>include/smp.h\<close> until hart 0
  releases them by raising their machine software interrupt (msip) through the
  core-local interruptor (CLINT).  The parts and how they interact:

  \<^item> \<^bold>\<open>MMIO accessors\<close> (\<open>include/io.h\<close>, \<open>fence\<close> of \<open>include/riscv.h\<close>),
    theory \<open>IO\<close>.  A hart's view of the machine is a record \<open>machine\<close> of its
    byte memory \<open>mem\<close> and the trace \<open>io_trace\<close> of the loads, stores and
    fences it issued.  \<open>raw_read\<close>/\<open>raw_write\<close> model \<open>__raw_read*\<close> and
    \<open>__raw_write*\<close> (one \<open>l*\<close>/\<open>s*\<close> instruction, little-endian);
    \<open>io_read\<close>/\<open>io_write\<close> the fenced macros \<open>read*\<close>/\<open>write*\<close>, with
    \<open>io_ar = fence(i,r)\<close> after a load and \<open>io_bw = fence(w,o)\<close> before a store;
    \<open>readb\<close> .. \<open>writed\<close> fix the widths.  Lemmas: what an accessor reads and
    writes, read-after-write at the same and at disjoint addresses, and the
    predicate \<open>io_ordered\<close> of well-fenced traces, preserved by every accessor.

  \<^item> \<^bold>\<open>CLINT driver\<close> (\<open>devices/clint/clint.c\<close>, \<open>clint.h\<close>), theory \<open>Clint\<close>.
    The record \<open>clint_state\<close> extends \<open>machine\<close> with the driver's static
    \<open>clint_base\<close>.  \<open>clint_get_mtime\<close>, \<open>clint_set_timecmp\<close>,
    \<open>clint_check_soft\<close>, \<open>clint_send_soft\<close>, \<open>clint_clear_soft\<close> and
    \<open>clint_init\<close> translate the six functions, addressing registers through
    \<open>CLINT_SOFT\<close> and the offsets of \<open>clint.h\<close>; \<open>clint_tick\<close> is the
    hardware's increment of \<open>mtime\<close>.  The datatype \<open>clint_op\<close> with the step
    function \<open>clint_exec\<close> is the driver's interface; \<open>clint_abs\<close> is the
    abstract controller (pending bits, \<open>mtime\<close>, \<open>mtimecmp\<close>) with
    \<open>abs_exec\<close>, and \<open>clint_abs_of\<close> reads it off the register bytes.  Lemmas:
    each operation's effect on the registers; the functional refinement for
    in-range hart ids; set/clear/check behaviour and
    per-hart isolation; monotonicity of the returned times below the 2^64 wrap;
    that the driver's traces are well fenced; and, for out-of-range hart ids,
    the aliasing the unchecked \<open>CLINT_SOFT\<close> arithmetic gives.

  \<^item> \<^bold>\<open>Boot barrier\<close> (\<open>smp_pause\<close>/\<open>smp_resume\<close> of \<open>include/smp.h\<close>),
    theory \<open>Barrier\<close>.  The shared state \<open>barrier\<close> is the abstract CLINT of
    theory \<open>Clint\<close> (its pending bits are the msip registers the macros
    load and store), each hart's \<open>mie.MSIP\<close> bit, and each hart's program
    counter, a \<open>bpc\<close> naming the macros' instructions that touch shared state
    (\<open>Bcast k\<close> is the broadcast loop at register \<open>ipi_reg k\<close>, \<open>Sweep k\<close>
    the loop that waits for msip k to read zero).  \<open>smp_step h\<close> is one step of
    hart \<open>h\<close>, \<open>None\<close> when it cannot move; \<open>barrier_step\<close> interleaves the
    five harts arbitrarily (sequentially consistent, one shared access per
    step); \<open>barrier_reach\<close> is reachability from \<open>barrier_start\<close>.  The
    invariant \<open>barrier_inv\<close>, proved inductive by rule induction, gives the
    rendezvous property (once any hart is through, all msip bits are clear and
    every hart has acknowledged) and the exact description of the msip bits.
    A potential function on the program counters (\<open>potential\<close>) shows that
    from every reachable state some schedule takes all harts through, and no
    reachable state is stuck.  The loop bound \<open>ipi_reg (Suc k) <s
    CLINT_END_HART_IPI\<close> is decided for the five harts of \<open>MAX_HARTS\<close>.

  \<^item> \<^bold>\<open>Message test\<close> (\<open>test_ipi\<close>, \<open>other_main\<close>, \<open>wait_ipi\<close> of
    \<open>main.c\<close>), theory \<open>Mailbox\<close>.  After the barrier hart 0 reads a target
    hart and a line from the console, copies the line with its NUL to the
    mailbox at \<open>SMP_ADDR\<close> and raises the target's msip bit; the target wakes,
    clears its bit, prints the mailbox and raises hart 0's bit in reply.  The
    record \<open>mbox\<close> holds the abstract CLINT, each hart's \<open>mie.MSIP\<close>, memory
    (mailbox and \<open>readline\<close>'s buffer) and the program counters \<open>ppc\<close>/\<open>spc\<close>;
    \<open>primary_step\<close> and \<open>secondary_step\<close> are the two loops' statements,
    \<open>mbox_step\<close> interleaves them (hart 0 steps with any line \<open>readline\<close> can
    return), \<open>mbox_reach\<close> is reachability.  The invariant \<open>mbox_inv\<close>, proved
    inductive, gives delivery (a replying hart is the addressed one and printed
    the sent line), that a secondary's bit is set only while the mailbox holds
    the message, the bounds on target and message, and that a round completes.
    A concrete schedule (\<open>lost_schedule\<close>) reaches a deadlock: a signal sent
    before the target's start-up clear is lost.
  \<^item> \<^bold>\<open>Send path\<close> (\<open>smp_memcpy\<close> of \<open>main.c\<close>, \<open>memcpy\<close> of \<open>string.c\<close>,
    lines 89--96 of \<open>test_ipi\<close>), theory \<open>Send\<close>: the same copy at the level
    of loads, stores and fences of theory \<open>IO\<close>.  \<open>smp_memcpy\<close> leaves memory
    as \<open>memcpy\<close> does and keeps the trace well fenced; \<open>test_ipi_send\<close> issues
    the mailbox stores, then \<open>fence w,o\<close>, then the msip store.  This is what
    justifies treating the copy as one step in theory \<open>Mailbox\<close>.
  \<^item> \<^bold>\<open>String library\<close> (\<open>libs/string.c\<close>), theory \<open>Strings\<close>: the five
    routines over byte memory with wrapping 64-bit pointers; \<open>strlen\<close> is a
    partial function (\<open>None\<close> when no terminator is ever found).  Lemmas: the
    specification of each routine, termination of \<open>strlen\<close> on C strings,
    \<open>memmove\<close>/\<open>memcpy\<close> against a reference copy, \<open>memcmp\<close> as the
    lexicographic order.
  \<^item> \<^bold>\<open>UART driver\<close> (\<open>devices/uart/uart.c\<close>), theory \<open>UART\<close>: registers
    written through the fenced accessors; the values the device returns to
    successive reads are a stream \<open>nat \<Rightarrow> u32\<close>.  Lemmas: the divisor bound
    without overflow, what \<open>uart_init\<close> programs, \<open>uart_putc\<close>'s polling, and the
    round trip of \<open>uart_put_hex\<close>.
  \<^item> \<^bold>\<open>Console\<close> (\<open>libs/console.c\<close>), theory \<open>Console\<close>: \<open>getchar\<close> and
    \<open>readline\<close> as partial functions over the receive stream, and
    \<open>__intr_save\<close>/\<open>__intr_restore\<close> on the value of \<open>mstatus\<close>.  The bytes
    \<open>readline\<close> echoes are output events: the busy-wait of \<open>uart_putc\<close> on a
    full transmitter is not part of this model, so the lemma that
    \<open>readline\<close> returns once a line end arrives assumes a transmitter that
    accepts every byte.  Lemmas: the returned line is within the buffer bound
    and free of control bytes, and a typed line comes back as typed.
  \<^item> \<^bold>\<open>CSR macros\<close> (\<open>read_csr\<close> .. \<open>clear_csr\<close> of \<open>riscv.h\<close>), theory
    \<open>Csr\<close>: a hart's machine CSRs as a function from the datatype \<open>csr\<close>;
    \<open>__intr_save\<close>/\<open>__intr_restore\<close> written with the macros refine the value
    model, and \<open>puts\<close> of \<open>main.c\<close> is the tagged byte output (\<open>puts_bytes\<close>).
  \<^item> \<^bold>\<open>Trap frame\<close> (\<open>trap/trap.h\<close>, register names of \<open>riscv.h\<close>), theory
    \<open>TrapFrame\<close>: the data contract only.  The records \<open>trap_regs\<close> and
    \<open>trap_info\<close>, the enumerated type \<open>reg_name\<close> (an instance of \<open>enum\<close>)
    indexing \<open>regs[]\<close>, and \<open>trap_handler\<close>, whose C body is empty and which
    therefore leaves the hart's state as it is.  No code of the repository
    builds, saves or restores a frame, so no property of frames is claimed;
    the lemmas only check that the names index the array one to one.
  \<^item> \<^bold>\<open>Board description\<close> (\<open>mem.h\<close>, \<open>common.h\<close>, \<open>riscv.h\<close>, the
    constants of \<open>clint.h\<close> and \<open>uart.h\<close>), theories \<open>Prelude\<close> and
    \<open>Board\<close>: every constant and value macro of the headers, with the
    byte-memory model (\<open>read_bytes\<close>, \<open>write_bytes\<close>, \<open>le_bytes\<close>/\<open>le_word\<close>)
    the other theories share.  Lemmas on the constants: the memory windows
    are disjoint, the per-hart offsets of \<open>clint.h\<close> agree with the drivers'
    stride arithmetic, the CSR field masks do not overlap, and
    \<open>BIT_WORD\<close>/\<open>BIT_MASK\<close> split a bit number.  The properties compose the
    memory map with the driver code: for an in-range hart, the stores of
    \<open>clint_send_soft\<close>, \<open>clint_clear_soft\<close> and \<open>clint_set_timecmp\<close> leave
    every byte of the other windows (the mailbox included) unchanged, and so
    do the register stores of the UART driver's \<open>set_reg\<close>.
  \<^item> \<^bold>\<open>Boot\<close> (\<open>smp_disable\<close> of \<open>smp.h\<close>, \<open>main\<close> of \<open>main.c\<close>), theory
    \<open>Boot\<close>.  \<open>disable_step\<close> runs the macro instruction by instruction on
    one hart; the reachable states (\<open>park_reach\<close>, rule induction) pass to
    \<open>hart0_entry\<close> only on hart 0.  \<open>main_run\<close> composes the UART, CLINT and
    console models as \<open>main\<close> calls them: the UART and CLINT drivers keep
    separate static state and address disjoint windows, so they are two
    instances.  The console output of \<open>main\<close> is a list of output events;
    the busy-wait of \<open>uart_putc\<close> on a full transmitter (\<open>uart.c\<close> lines
    34--35) and the \<open>TXDATA\<close> stores are not part of \<open>main_run\<close>.  Lemmas: the
    exact transcript \<open>main\<close> prints for a typed line, and, for a transmitter
    that accepts every byte, that it reaches \<open>test_ipi\<close> once a line end
    arrives, with the UART divisor left unprogrammed because
    \<open>DEFAULT_UART_FREQ\<close> is 0.

  Machine integers are words of their C width (\<open>u8\<close> .. \<open>u64\<close>, addresses
  \<open>u64\<close>), so address arithmetic wraps as on the hardware; the theorems on
  aliasing depend on it.  Loops that may not end (\<open>strlen\<close>, \<open>getchar\<close>,
  \<open>readline\<close>, \<open>uart_putc\<close>'s poll, \<open>uart_puts\<close>) are partial functions in the
  option monad, and each has a theorem that it returns under the condition
  that makes it return; counted loops recurse on the count.  The witnesses
  evaluate the models on the five-hart board: a boot schedule of 37 steps
  takes the barrier from its start to the state where every hart is through,
  and schedules of 12 and 23 steps drive the message test through a round
  and into the lost wake-up.

  Not modelled: the console text \<open>test_ipi\<close> and \<open>other_main\<close> print
  between their shared accesses (it goes to the UART and touches no shared
  state); the boot entry and trap entry/exit assembly, which is not in the
  repository (the barrier model composes the two barrier macros the way their
  local labels connect); \<open>trap_redirect\<close>, declared and defined nowhere; the
  transmitter's back-pressure on the console output of \<open>main\<close> and
  \<open>readline\<close> (see the Console and Boot items); the
  prototypes of \<open>string.h\<close> without a definition; the assembler mnemonics
  \<open>STORE\<close>/\<open>LOAD\<close> and the unused decimal-printing constants of \<open>uart.h\<close>.
  \<open>wfi\<close> is a step enabled exactly when an enabled interrupt is pending
  (spurious wake-ups only add stutter steps); memory is sequentially
  consistent, with the fences recorded in each hart's trace so that the
  ordering the code relies on is stated rather than assumed.
\<close>

end
